(* ===== verification/Six_Prelude.thy ===== *)
theory Six_Prelude
  imports Main "HOL-Library.Word"
begin

text \<open>
  Shared material of the development: machine integer types, the kernel's error codes and
  result type, C string helpers (\<^verbatim>\<open>lib/string.c\<close>), device numbers
  (\<^verbatim>\<open>include/linux/kdev_t.h\<close>), byte order conversions, and the generic
  list and word lemmas the component theories use.

  The kernel is built for a 32-bit target (\<^verbatim>\<open>gcc -m32\<close> in the top-level
  \<^verbatim>\<open>Makefile\<close>), so both \<^verbatim>\<open>unsigned int\<close> and
  \<^verbatim>\<open>unsigned long\<close> are 32-bit words here.
\<close>

unbundle bit_operations_syntax

type_synonym u8 = "8 word"
type_synonym u16 = "16 word"
type_synonym u32 = "32 word"
type_synonym u64 = "64 word"

named_theorems byte_simps \<open>reading back bytes that were stored\<close>
named_theorems len_simps \<open>lengths of the buffers the code computes\<close>

section \<open>Error codes and results\<close>

text \<open>The negative error returns of the modelled code (\<^verbatim>\<open>include/asm-six/errno.h\<close>).\<close>

datatype errno =
    EPERM | ENOENT | EIO | ENXIO | EBADF | EAGAIN | ENOMEM | EACCES | EBUSY | EEXIST
  | ENODEV | ENOTDIR | EISDIR | EINVAL | EFBIG | ENOSPC | EROFS | EPIPE | ENAMETOOLONG
  | ENOTEMPTY | ELOOP | EDEADLK | ECONNREFUSED | ERESTARTSYS | EFAULT

type_synonym 'a res = "errno + 'a"

definition is_ok :: "'a res \<Rightarrow> bool" where
  "is_ok r = (case r of Inl _ \<Rightarrow> False | Inr _ \<Rightarrow> True)"

lemma is_ok_simps [simp]: "\<not> is_ok (Inl e)" "is_ok (Inr x)"
  by (simp_all add: is_ok_def)

lemma is_ok_iff: "is_ok r \<longleftrightarrow> (\<exists>x. r = Inr x)"
  by (cases r) auto

section \<open>C strings\<close>

text \<open>
  A \<^verbatim>\<open>char\<close> array is a \<^typ>\<open>string\<close>; the C string it holds ends at the first NUL or
  at the end of the array.
\<close>

abbreviation nul :: char where
  "nul \<equiv> CHR 0x00"

definition c_str :: "string \<Rightarrow> string" where
  "c_str s = takeWhile (\<lambda>c. c \<noteq> nul) s"

definition strcmp_eq :: "string \<Rightarrow> string \<Rightarrow> bool" where
  "strcmp_eq a b = (c_str a = c_str b)"

text \<open>
  \<^verbatim>\<open>strncpy(dst, src, n)\<close> into a zeroed destination that is longer than \<open>n\<close>: at most \<open>n\<close>
  characters of the source string, and a NUL after them.
\<close>

definition strncpy_z :: "nat \<Rightarrow> string \<Rightarrow> string" where
  "strncpy_z n s = take n (c_str s)"

lemma c_str_Nil [simp]: "c_str [] = []"
  by (simp add: c_str_def)

lemma c_str_Cons: "c_str (c # s) = (if c = nul then [] else c # c_str s)"
  by (simp add: c_str_def)

lemma c_str_no_nul: "nul \<notin> set (c_str s)"
  by (auto simp: c_str_def dest: set_takeWhileD)

lemma c_str_id: "nul \<notin> set s \<Longrightarrow> c_str s = s"
  by (auto simp: c_str_def takeWhile_eq_all_conv)

lemma c_str_idem [simp]: "c_str (c_str s) = c_str s"
  by (simp add: c_str_id c_str_no_nul)

lemma c_str_take_c_str [simp]: "c_str (take n (c_str s)) = take n (c_str s)"
proof (rule c_str_id)
  show "nul \<notin> set (take n (c_str s))"
    using c_str_no_nul [of s] in_set_takeD by fastforce
qed

lemma c_str_strncpy_z [simp]: "c_str (strncpy_z n s) = strncpy_z n s"
  by (simp add: strncpy_z_def)

lemma length_strncpy_z: "length (strncpy_z n s) \<le> n"
  by (simp add: strncpy_z_def)

lemma strncpy_z_short: "length (c_str s) \<le> n \<Longrightarrow> strncpy_z n s = c_str s"
  by (simp add: strncpy_z_def)

lemma c_str_eq_Nil: "c_str s = [] \<longleftrightarrow> s = [] \<or> hd s = nul"
  by (cases s) (auto simp: c_str_Cons)

section \<open>Device numbers\<close>

definition MAJOR :: "u16 \<Rightarrow> nat" where
  "MAJOR dev = unat (drop_bit 8 dev)"

definition MINOR :: "u16 \<Rightarrow> nat" where
  "MINOR dev = unat (dev AND 0xff)"

definition MKDEV :: "nat \<Rightarrow> nat \<Rightarrow> u16" where
  "MKDEV ma mi = push_bit 8 (of_nat ma) OR of_nat mi"

definition to_kdev_t :: "u16 \<Rightarrow> u16" where
  "to_kdev_t dev = MKDEV (unat (drop_bit 8 dev)) (unat (dev AND 0xff))"

definition kdev_t_to_nr :: "u16 \<Rightarrow> u16" where
  "kdev_t_to_nr dev = push_bit 8 (of_nat (MAJOR dev)) OR of_nat (MINOR dev)"

lemma bit_0xff: "bit (0xff :: int) n \<longleftrightarrow> n < 8"
proof -
  have "bit (mask 8 :: int) n \<longleftrightarrow> n < 8"
    by (simp only: bit_mask_iff) auto
  moreover have "mask 8 = (0xff :: int)"
    by (simp add: mask_eq_exp_minus_1)
  ultimately show ?thesis by (simp only:)
qed

lemma ucast_and_0xff [simp]: "(ucast (v AND 0xff :: u32) :: u8) = ucast v"
  by (rule bit_word_eqI) (simp add: bit_simps bit_0xff)

lemma to_kdev_t_id [simp]: "to_kdev_t d = d"
  by (rule bit_word_eqI) (auto simp: to_kdev_t_def MKDEV_def bit_simps bit_0xff)

lemma kdev_t_to_nr_id [simp]: "kdev_t_to_nr d = d"
  by (simp only: kdev_t_to_nr_def MAJOR_def MINOR_def to_kdev_t_id
        to_kdev_t_def [unfolded MKDEV_def, symmetric])

section \<open>Byte order\<close>

text \<open>The big-endian byte stores the drivers write out by hand.\<close>

definition be32 :: "u32 \<Rightarrow> u8 list" where
  "be32 v = [ucast (drop_bit 24 v AND 0xff), ucast (drop_bit 16 v AND 0xff),
             ucast (drop_bit 8 v AND 0xff), ucast (v AND 0xff)]"

definition of_be32 :: "u8 \<Rightarrow> u8 \<Rightarrow> u8 \<Rightarrow> u8 \<Rightarrow> u32" where
  "of_be32 a b c d = push_bit 24 (ucast a) OR push_bit 16 (ucast b) OR
                     push_bit 8 (ucast c) OR ucast d"

definition of_le32 :: "u8 \<Rightarrow> u8 \<Rightarrow> u8 \<Rightarrow> u8 \<Rightarrow> u32" where
  "of_le32 a b c d = ucast a OR push_bit 8 (ucast b) OR
                     push_bit 16 (ucast c) OR push_bit 24 (ucast d)"

lemma length_be32 [simp, len_simps]: "length (be32 v) = 4"
  by (simp add: be32_def)

lemma of_be32_be32 [byte_simps]:
  "of_be32 (be32 v ! 0) (be32 v ! 1) (be32 v ! 2) (be32 v ! 3) = v"
proof (rule bit_word_eqI)
  fix n assume n: "n < LENGTH(32)"
  then consider "n < 8" | "8 \<le> n" "n < 16" | "16 \<le> n" "n < 24" | "24 \<le> n" "n < 32"
    by fastforce
  then show "bit (of_be32 (be32 v ! 0) (be32 v ! 1) (be32 v ! 2) (be32 v ! 3)) n = bit v n"
    by cases (auto simp: of_be32_def be32_def bit_simps bit_0xff)
qed

section \<open>Machine integers\<close>

lemma unat_of_nat_u32: "n < 2 ^ 32 \<Longrightarrow> unat (of_nat n :: u32) = n"
  by (simp add: unsigned_of_nat take_bit_nat_eq_self)

lemma unat_u32_less: "unat (v :: u32) < 2 ^ 32"
  using unsigned_less [where 'a = nat, of v] by simp

lemma of_nat_less_u32:
  "a < 2 ^ 32 \<Longrightarrow> b < 2 ^ 32 \<Longrightarrow> of_nat a < (of_nat b :: u32) \<longleftrightarrow> a < b"
  by (simp add: word_less_nat_alt unat_of_nat_u32)

lemma of_nat_le_u32:
  "a < 2 ^ 32 \<Longrightarrow> b < 2 ^ 32 \<Longrightarrow> of_nat a \<le> (of_nat b :: u32) \<longleftrightarrow> a \<le> b"
  by (simp add: word_le_nat_alt unat_of_nat_u32)

lemma of_nat_eq_u32:
  "a < 2 ^ 32 \<Longrightarrow> b < 2 ^ 32 \<Longrightarrow> of_nat a = (of_nat b :: u32) \<longleftrightarrow> a = b"
  by (metis unat_of_nat_u32)

section \<open>Lists\<close>

text \<open>Overwriting \<open>length d\<close> elements of a buffer at an offset (\<^verbatim>\<open>memcpy(buf + off, d, n)\<close>).\<close>

definition blit :: "nat \<Rightarrow> 'a list \<Rightarrow> 'a list \<Rightarrow> 'a list" where
  "blit off d buf = take off buf @ d @ drop (off + length d) buf"

lemma length_blit [len_simps]: "off + length d \<le> length buf \<Longrightarrow> length (blit off d buf) = length buf"
  by (simp add: blit_def)

lemma blit_read [byte_simps]:
  "off + length d \<le> length buf \<Longrightarrow> n = length d \<Longrightarrow> take n (drop off (blit off d buf)) = d"
  by (simp add: blit_def)

lemma nth_blit:
  assumes "off + length d \<le> length buf" and "i < length buf"
  shows "blit off d buf ! i = (if off \<le> i \<and> i < off + length d then d ! (i - off) else buf ! i)"
  using assms by (auto simp: blit_def nth_append)

text \<open>The first index below \<open>n\<close> with a property: the search loops over the driver tables.\<close>

definition find_idx :: "(nat \<Rightarrow> bool) \<Rightarrow> nat \<Rightarrow> nat option" where
  "find_idx P n = List.find P [0..<n]"

lemma find_idx_Some: "find_idx P n = Some i \<longleftrightarrow> i < n \<and> P i \<and> (\<forall>j<i. \<not> P j)"
proof
  assume "find_idx P n = Some i"
  then show "i < n \<and> P i \<and> (\<forall>j<i. \<not> P j)"
    by (auto simp: find_idx_def find_Some_iff)
next
  assume a: "i < n \<and> P i \<and> (\<forall>j<i. \<not> P j)"
  then show "find_idx P n = Some i"
    by (auto simp: find_idx_def find_Some_iff intro!: exI [of _ i])
qed

lemma find_idx_None: "find_idx P n = None \<longleftrightarrow> (\<forall>i<n. \<not> P i)"
  by (auto simp: find_idx_def find_None_iff)

lemma find_idx_list_None:
  "length xs = n \<Longrightarrow> find_idx (\<lambda>i. P (xs ! i)) n = None \<longleftrightarrow> (\<forall>x\<in>set xs. \<not> P x)"
  by (auto simp: find_idx_None all_set_conv_all_nth)

lemma find_idx_cong: "(\<And>i. i < n \<Longrightarrow> P i = Q i) \<Longrightarrow> find_idx P n = find_idx Q n"
  by (auto simp: find_idx_def intro!: find_cong)

end
