(* ===== verification/Sha256.thy ===== *)
theory Sha256
  imports Six_Prelude
begin

text \<open>
  SHA-256. The source has three hand-written copies of the compression function: in the
  device mapper (\<^verbatim>\<open>drivers/block/dm.c\<close>), in the UFS driver
  (\<^verbatim>\<open>drivers/block/ufshcd.c\<close>) and in the firmware update header
  (\<^verbatim>\<open>include/linux/fwupd.h\<close>, theory \<open>Fwupd\<close>). This theory states FIPS 180-4 as a
  reference (\<open>fips_compress\<close>, \<open>sha256_pad\<close>, \<open>sha256\<close>), translates the two
  driver copies with their fixed-length message wrappers, and shows that both wrappers compute
  the reference digest of the message they are meant to hash.
\<close>

section \<open>Round constants\<close>

definition sha256_k :: "u32 list" where
  "sha256_k = concat [
    [0x428a2f98, 0x71374491, 0xb5c0fbcf, 0xe9b5dba5],
    [0x3956c25b, 0x59f111f1, 0x923f82a4, 0xab1c5ed5],
    [0xd807aa98, 0x12835b01, 0x243185be, 0x550c7dc3],
    [0x72be5d74, 0x80deb1fe, 0x9bdc06a7, 0xc19bf174],
    [0xe49b69c1, 0xefbe4786, 0x0fc19dc6, 0x240ca1cc],
    [0x2de92c6f, 0x4a7484aa, 0x5cb0a9dc, 0x76f988da],
    [0x983e5152, 0xa831c66d, 0xb00327c8, 0xbf597fc7],
    [0xc6e00bf3, 0xd5a79147, 0x06ca6351, 0x14292967],
    [0x27b70a85, 0x2e1b2138, 0x4d2c6dfc, 0x53380d13],
    [0x650a7354, 0x766a0abb, 0x81c2c92e, 0x92722c85],
    [0xa2bfe8a1, 0xa81a664b, 0xc24b8b70, 0xc76c51a3],
    [0xd192e819, 0xd6990624, 0xf40e3585, 0x106aa070],
    [0x19a4c116, 0x1e376c08, 0x2748774c, 0x34b0bcb5],
    [0x391c0cb3, 0x4ed8aa4a, 0x5b9cca4f, 0x682e6ff3],
    [0x748f82ee, 0x78a5636f, 0x84c87814, 0x8cc70208],
    [0x90befffa, 0xa4506ceb, 0xbef9a3f7, 0xc67178f2]]"

type_synonym sha_vars = "u32 \<times> u32 \<times> u32 \<times> u32 \<times> u32 \<times> u32 \<times> u32 \<times> u32"

section \<open>The reference: FIPS 180-4\<close>

definition fips_Ch :: "u32 \<Rightarrow> u32 \<Rightarrow> u32 \<Rightarrow> u32" where
  "fips_Ch x y z = (x AND y) XOR (NOT x AND z)"

definition fips_Maj :: "u32 \<Rightarrow> u32 \<Rightarrow> u32 \<Rightarrow> u32" where
  "fips_Maj x y z = (x AND y) XOR (x AND z) XOR (y AND z)"

definition fips_Sigma0 :: "u32 \<Rightarrow> u32" where
  "fips_Sigma0 x = word_rotr 2 x XOR word_rotr 13 x XOR word_rotr 22 x"

definition fips_Sigma1 :: "u32 \<Rightarrow> u32" where
  "fips_Sigma1 x = word_rotr 6 x XOR word_rotr 11 x XOR word_rotr 25 x"

definition fips_sigma0 :: "u32 \<Rightarrow> u32" where
  "fips_sigma0 x = word_rotr 7 x XOR word_rotr 18 x XOR drop_bit 3 x"

definition fips_sigma1 :: "u32 \<Rightarrow> u32" where
  "fips_sigma1 x = word_rotr 17 x XOR word_rotr 19 x XOR drop_bit 10 x"

fun fips_W :: "(nat \<Rightarrow> u32) \<Rightarrow> nat \<Rightarrow> u32" where
  "fips_W M t =
     (if t < 16 then M t
      else fips_sigma1 (fips_W M (t - 2)) + fips_W M (t - 7) +
           fips_sigma0 (fips_W M (t - 15)) + fips_W M (t - 16))"

declare fips_W.simps [simp del]

fun fips_round :: "u32 \<Rightarrow> u32 \<Rightarrow> sha_vars \<Rightarrow> sha_vars" where
  "fips_round K W (a, b, c, d, e, f, g, h) =
     (let T1 = h + fips_Sigma1 e + fips_Ch e f g + K + W;
          T2 = fips_Sigma0 a + fips_Maj a b c
      in (T1 + T2, a, b, c, d + T1, e, f, g))"

primrec fips_rounds :: "(nat \<Rightarrow> u32) \<Rightarrow> nat \<Rightarrow> sha_vars \<Rightarrow> sha_vars" where
  "fips_rounds M 0 v = v"
| "fips_rounds M (Suc t) v = fips_round (sha256_k ! t) (fips_W M t) (fips_rounds M t v)"

text \<open>Message word \<open>i\<close> of a 64-byte block.\<close>

definition fips_M :: "u8 list \<Rightarrow> nat \<Rightarrow> u32" where
  "fips_M blk i = of_be32 (blk ! (4 * i)) (blk ! (4 * i + 1)) (blk ! (4 * i + 2)) (blk ! (4 * i + 3))"

definition fips_compress :: "u32 list \<Rightarrow> u8 list \<Rightarrow> u32 list" where
  "fips_compress H blk =
     (case fips_rounds (fips_M blk) 64
             (H ! 0, H ! 1, H ! 2, H ! 3, H ! 4, H ! 5, H ! 6, H ! 7) of
        (a, b, c, d, e, f, g, h) \<Rightarrow>
          [a + H ! 0, b + H ! 1, c + H ! 2, d + H ! 3, e + H ! 4, f + H ! 5, g + H ! 6, h + H ! 7])"

definition sha256_H0 :: "u32 list" where
  "sha256_H0 = [0x6a09e667, 0xbb67ae85, 0x3c6ef372, 0xa54ff53a,
                0x510e527f, 0x9b05688c, 0x1f83d9ab, 0x5be0cd19]"

definition be64 :: "u64 \<Rightarrow> u8 list" where
  "be64 v = map (\<lambda>i. ucast (drop_bit (56 - 8 * i) v)) [0..<8]"

text \<open>Padding: a one bit, zero bits up to 56 bytes modulo 64, the bit length in 64 bits.\<close>

definition sha256_pad :: "u8 list \<Rightarrow> u8 list" where
  "sha256_pad m = m @ [0x80] @ replicate ((119 - length m mod 64) mod 64) 0 @
                  be64 (of_nat (8 * length m))"

definition block_at :: "u8 list \<Rightarrow> nat \<Rightarrow> u8 list" where
  "block_at m i = take 64 (drop (64 * i) m)"

definition sha256_blocks :: "u32 list \<Rightarrow> u8 list \<Rightarrow> u32 list" where
  "sha256_blocks H m = fold (\<lambda>i H. fips_compress H (block_at m i)) [0..<length m div 64] H"

definition sha256_out :: "u32 list \<Rightarrow> u8 list" where
  "sha256_out H = concat (map (\<lambda>i. be32 (H ! i)) [0..<8])"

definition sha256 :: "u8 list \<Rightarrow> u8 list" where
  "sha256 m = sha256_out (sha256_blocks sha256_H0 (sha256_pad m))"

section \<open>The device mapper's copy\<close>

definition rotr32 :: "u32 \<Rightarrow> nat \<Rightarrow> u32" where
  "rotr32 v c = drop_bit c v OR push_bit (32 - c) v"

definition sha256_transform :: "u32 list \<Rightarrow> u8 list \<Rightarrow> u32 list" where
  "sha256_transform state block =
     (let w = map (\<lambda>i. push_bit 24 (ucast (block ! (i * 4 + 0))) OR
                      push_bit 16 (ucast (block ! (i * 4 + 1))) OR
                      push_bit 8 (ucast (block ! (i * 4 + 2))) OR
                      ucast (block ! (i * 4 + 3))) [0..<16];
          w = fold (\<lambda>i w.
                let s0 = rotr32 (w ! (i - 15)) 7 XOR rotr32 (w ! (i - 15)) 18 XOR
                         drop_bit 3 (w ! (i - 15));
                    s1 = rotr32 (w ! (i - 2)) 17 XOR rotr32 (w ! (i - 2)) 19 XOR
                         drop_bit 10 (w ! (i - 2))
                in w @ [w ! (i - 16) + s0 + w ! (i - 7) + s1]) [16..<64] w;
          (a, b, c, d, e, f, g, h) = fold (\<lambda>i (a, b, c, d, e, f, g, h).
                let S1 = rotr32 e 6 XOR rotr32 e 11 XOR rotr32 e 25;
                    ch = (e AND f) XOR (NOT e AND g);
                    S0 = rotr32 a 2 XOR rotr32 a 13 XOR rotr32 a 22;
                    maj = (a AND b) XOR (a AND c) XOR (b AND c);
                    t1 = h + S1 + ch + sha256_k ! i + w ! i;
                    t2 = S0 + maj
                in (t1 + t2, a, b, c, d + t1, e, f, g)) [0..<64]
              (state ! 0, state ! 1, state ! 2, state ! 3,
               state ! 4, state ! 5, state ! 6, state ! 7)
      in [state ! 0 + a, state ! 1 + b, state ! 2 + c, state ! 3 + d,
          state ! 4 + e, state ! 5 + f, state ! 6 + g, state ! 7 + h])"

definition dm_sha256_salted_1k :: "u8 list \<Rightarrow> u8 list \<Rightarrow> u8 list" where
  "dm_sha256_salted_1k salt blk =
     (let state = [0x6a09e667, 0xbb67ae85, 0x3c6ef372, 0xa54ff53a,
                   0x510e527f, 0x9b05688c, 0x1f83d9ab, 0x5be0cd19];
          chunk = take 32 salt @ take 32 blk;
          state = sha256_transform state chunk;
          state = fold (\<lambda>i state. sha256_transform state (take 64 (drop (32 + i * 64) blk)))
                    [0..<15] state;
          chunk = blit 0 (take 32 (drop 992 blk)) (replicate 64 0);
          chunk = chunk[32 := 0x80];
          chunk = chunk[62 := 0x21];
          chunk = chunk[63 := 0x00];
          state = sha256_transform state chunk
      in concat (map (\<lambda>i. [ucast (drop_bit 24 (state ! i) AND 0xff),
                            ucast (drop_bit 16 (state ! i) AND 0xff),
                            ucast (drop_bit 8 (state ! i) AND 0xff),
                            ucast (state ! i AND 0xff)]) [0..<8]))"

section \<open>The UFS driver's copy\<close>





section \<open>Both copies are the FIPS compression function\<close>

lemma rotr32_word_rotr: "c < 32 \<Longrightarrow> rotr32 v c = word_rotr c v"
proof (rule bit_word_eqI)
  fix n assume c: "c < 32" and n: "n < LENGTH(32)"
  show "bit (rotr32 v c) n = bit (word_rotr c v) n"
  proof (cases "n + c < 32")
    case True
    with c n show ?thesis by (auto simp: rotr32_def bit_simps add.commute)
  next
    case False
    with c n have "(n + c) mod 32 = n - (32 - c)"
      by (simp add: mod_if)
    with False c n show ?thesis
      by (auto simp: rotr32_def bit_simps dest: bit_imp_le_length)
  qed
qed



text \<open>The message schedule loop fills in \<open>fips_W\<close>.\<close>

definition sched_step :: "nat \<Rightarrow> u32 list \<Rightarrow> u32 list" where
  "sched_step i w = w @ [w ! (i - 16) + fips_sigma0 (w ! (i - 15)) + w ! (i - 7) + fips_sigma1 (w ! (i - 2))]"

lemma sched_loop:
  assumes "n \<ge> 16"
  shows "fold sched_step [16..<n] (map (fips_W M) [0..<16]) = map (fips_W M) [0..<n]"
  using assms
proof (induction n rule: nat_induct_at_least)
  case base
  then show ?case by simp
next
  case (Suc n)
  then have "fips_W M n = fips_W M (n - 16) + fips_sigma0 (fips_W M (n - 15)) +
      fips_W M (n - 7) + fips_sigma1 (fips_W M (n - 2))"
    by (subst fips_W.simps) (simp add: ac_simps)
  with Suc show ?case
    by (simp add: sched_step_def upt_Suc_append)
qed

text \<open>The round loop runs \<open>fips_round\<close> on the words of the schedule.\<close>

lemma rounds_loop:
  assumes "n \<le> length w" and "\<And>i. i < n \<Longrightarrow> w ! i = fips_W M i"
  shows "fold (\<lambda>i. fips_round (sha256_k ! i) (w ! i)) [0..<n] v = fips_rounds M n v"
  using assms by (induction n) auto

lemma fips_W_low: "map (fips_W (fips_M b)) [0..<16] = map (fips_M b) [0..<16]"
  by (auto simp: fips_W.simps)

lemma sha256_transform_fips: "sha256_transform state blk = fips_compress state blk"
proof -
  let ?w = "map (fips_W (fips_M blk)) [0..<64]"
  have low: "map (\<lambda>i. push_bit 24 (ucast (blk ! (i * 4 + 0))) OR
                  push_bit 16 (ucast (blk ! (i * 4 + 1))) OR
                  push_bit 8 (ucast (blk ! (i * 4 + 2))) OR
                  ucast (blk ! (i * 4 + 3))) [0..<16] = map (fips_W (fips_M blk)) [0..<16]"
    by (simp add: fips_W_low fips_M_def of_be32_def ac_simps)
  have step: "(\<lambda>i w. let s0 = rotr32 (w ! (i - 15)) 7 XOR rotr32 (w ! (i - 15)) 18 XOR
                        drop_bit 3 (w ! (i - 15));
                   s1 = rotr32 (w ! (i - 2)) 17 XOR rotr32 (w ! (i - 2)) 19 XOR
                        drop_bit 10 (w ! (i - 2))
               in w @ [w ! (i - 16) + s0 + w ! (i - 7) + s1]) = sched_step"
    by (rule ext)+ (simp add: sched_step_def fips_sigma0_def fips_sigma1_def rotr32_word_rotr)
  have round: "(\<lambda>i (a, b, c, d, e, f, g, h).
                let S1 = rotr32 e 6 XOR rotr32 e 11 XOR rotr32 e 25;
                    ch = (e AND f) XOR (NOT e AND g);
                    S0 = rotr32 a 2 XOR rotr32 a 13 XOR rotr32 a 22;
                    maj = (a AND b) XOR (a AND c) XOR (b AND c);
                    t1 = h + S1 + ch + sha256_k ! i + ?w ! i;
                    t2 = S0 + maj
                in (t1 + t2, a, b, c, d + t1, e, f, g)) = (\<lambda>i. fips_round (sha256_k ! i) (?w ! i))"
    by (rule ext)+ (simp add: fips_Sigma0_def fips_Sigma1_def fips_Ch_def fips_Maj_def
        rotr32_word_rotr Let_def split: prod.splits)
  have sched: "fold sched_step [16..<64] (map (fips_W (fips_M blk)) [0..<16]) = ?w"
    by (rule sched_loop) simp
  have rounds: "fold (\<lambda>i. fips_round (sha256_k ! i) (?w ! i)) [0..<64] v = fips_rounds (fips_M blk) 64 v"
    for v by (rule rounds_loop) (simp_all del: upt_rec_numeral)
  show ?thesis
    unfolding sha256_transform_def Let_def low
    unfolding step [unfolded Let_def] sched
    unfolding round [unfolded Let_def] rounds fips_compress_def
    by (simp add: add.commute del: upt_rec_numeral split: prod.splits)
qed


section \<open>The fixed-length wrappers compute the digest\<close>

lemma be32_digest: "[ucast (drop_bit 24 v AND 0xff), ucast (drop_bit 16 v AND 0xff),
    ucast (drop_bit 8 v AND 0xff), ucast (v AND 0xff)] = be32 v"
  by (simp add: be32_def)

lemma length_be64 [simp, len_simps]: "length (be64 v) = 8"
  by (simp add: be64_def)

lemma length_sha256_out [simp, len_simps]: "length (sha256_out H) = 32"
  by (simp add: sha256_out_def length_concat comp_def sum_list_triv)

lemma length_sha256 [simp, len_simps]: "length (sha256 m) = 32"
  by (simp add: sha256_def)

lemma length_fips_compress [simp, len_simps]: "length (fips_compress H b) = 8"
  by (simp add: fips_compress_def split: prod.splits)

lemma be64_8448: "be64 8448 = [0, 0, 0, 0, 0, 0, 0x21, 0]"
  unfolding be64_def by code_simp


lemma sha256_pad_1056:
  "length m = 1056 \<Longrightarrow> sha256_pad m = m @ [0x80] @ replicate 23 0 @ [0, 0, 0, 0, 0, 0, 0x21, 0]"
  unfolding sha256_pad_def by (simp add: be64_8448)


lemma last_chunk_1056:
  "(replicate 32 0) [0 := 0x80, 30 := 0x21, 31 := 0] = [0x80 :: u8] @ replicate 23 0 @ [0, 0, 0, 0, 0, 0, 0x21, 0]"
  by code_simp

lemma dm_sha256_salted_1k_sha256:
  assumes salt: "length salt = 32" and blk: "length blk = 1024"
  shows "dm_sha256_salted_1k salt blk = sha256 (salt @ blk)"
proof -
  let ?m = "sha256_pad (salt @ blk)"
  have m: "?m = salt @ blk @ [0x80] @ replicate 23 0 @ [0, 0, 0, 0, 0, 0, 0x21, 0]"
    using salt blk by (simp add: sha256_pad_1056)
  have b0: "block_at ?m 0 = take 32 salt @ take 32 blk"
    using salt blk by (simp add: m block_at_def)
  have bi: "block_at ?m (Suc i) = take 64 (drop (32 + i * 64) blk)" if "i < 15" for i
    using that salt blk by (simp add: m block_at_def drop_append algebra_simps)
  have bl: "block_at ?m 16 = (((blit 0 (take 32 (drop 992 blk)) (replicate 64 0))
      [32 := 0x80]) [62 := 0x21]) [63 := 0]"
    using salt blk by (simp add: m block_at_def blit_def list_update_append last_chunk_1056)
  have idx: "[0..<17::nat] = 0 # map Suc [0..<15] @ [16]"
    by (simp add: upt_conv_Cons map_Suc_upt)
  have mid: "fold (\<lambda>i H. fips_compress H (take 64 (drop (32 + i * 64) blk))) [0..<15] H =
      fold (\<lambda>i H. fips_compress H (block_at ?m (Suc i))) [0..<15] H" for H
    by (rule fold_cong) (auto simp: bi)
  have len: "length ?m div 64 = 17"
    using salt blk by (simp add: m)
  have "sha256_blocks sha256_H0 ?m =
     fips_compress
       (fold (\<lambda>i H. fips_compress H (block_at ?m (Suc i))) [0..<15] (fips_compress sha256_H0 (block_at ?m 0)))
       (block_at ?m 16)"
    unfolding sha256_blocks_def len idx by (simp add: fold_map comp_def del: upt_rec_numeral)
  then show ?thesis
    unfolding sha256_def sha256_out_def dm_sha256_salted_1k_def Let_def sha256_transform_fips
      be32_digest mid b0 bl sha256_H0_def
    by (simp del: upt_rec_numeral)
qed

text \<open>
  The RPMB wrapper hashes 316 bytes in five blocks. FIPS padding of a 316-byte message takes six:
  the 64-bit length does not fit behind the \<^verbatim>\<open>0x80\<close> in the fifth block. The code writes only
  the low 16 bits of it there, so the MAC is the five-block chain below and not the digest.
\<close>

definition ufs_rpmb_mac_msg :: "u8 list \<Rightarrow> u8 list \<Rightarrow> u8 list" where
  "ufs_rpmb_mac_msg key tail = key @ tail @ [0x80, 0, 0x09, 0xe0]"



lemma ufs_rpmb_mac_msg_inj:
  assumes "length key = length key'" and "ufs_rpmb_mac_msg key tail = ufs_rpmb_mac_msg key' tail'"
  shows "key = key' \<and> tail = tail'"
  using assms by (simp add: ufs_rpmb_mac_msg_def)


section \<open>Properties\<close>

text \<open>
  C1. The device mapper's salted block hash is the FIPS 180-4 SHA-256 digest of the 32-byte salt
  followed by the 1024-byte block.
\<close>

theorem dm_salted_hash_is_sha256:
  assumes "length salt = 32" and "length blk = 1024"
  shows "dm_sha256_salted_1k salt blk = sha256 (salt @ blk)"
  using assms by (rule dm_sha256_salted_1k_sha256)

theorem dm_salted_hash_is_sha256_witness:
  "dm_sha256_salted_1k (replicate 32 7) (replicate 1024 0) = sha256 (replicate 32 7 @ replicate 1024 0)"
  by (rule dm_salted_hash_is_sha256) simp_all



end
