(* ===== verification/Fwupd.thy ===== *)
theory Fwupd
  imports Sha256
begin

text \<open>
  The firmware update header \<^verbatim>\<open>include/linux/fwupd.h\<close>, shared by the NVMe, UFS and USB-SD
  drivers: the streaming SHA-256 engine, the generator of controller images, the version
  detector and the controller-side receiver of a streamed \<^verbatim>\<open>.bin\<close> image.

  The locale \<open>stream_hash\<close> is the contract of a streaming digest (init, update, final
  against a one-shot function); it is interpreted on the engine. The receiver's lemmas show that
  a sequence of in-order chunks leaves it in the state determined by the concatenated image,
  whatever the chunking, and that an image produced by the generator is accepted.
\<close>

section \<open>The streaming engine\<close>

record fwupd_sha256_ctx =
  fx_state :: "u32 list"
  fx_total_len :: u32
  fx_buf_len :: nat
  fx_buf :: "u8 list"

definition fwupd_sha256_k :: "u32 list" where
  "fwupd_sha256_k = concat [
    [0x428a2f98, 0x71374491, 0xb5c0fbcf, 0xe9b5dba5],
    [0x3956c25b, 0x59f111f1, 0x923f82a4, 0xab1c5ed5],
    [0xd807aa98, 0x12835b01, 0x243185be, 0x550c7dc3],
    [0x72be5d74, 0x80deb1fe, 0x9bdc06a7, 0xc19bf174],
    [0xe49b69c1, 0xefbe4786, 0x0fc19dc6, 0x240ca1cc],
    [0x2de92c6f, 0x4a7484aa, 0x5cb0a9dc, 0x76f988da],
    [0x983e5152, 0xa831c66d, 0xb00327c8, 0xbf597fc7],
    [0xc6e00bf3, 0xd5a79147, 0x06ca6351, 0x14292967],
    [0x27b70a85, 0x2e1b2138, 0x4d2c6dfc, 0x53380d13],
    [0x650a7354, 0x766a0abb, 0x81c2c92e, 0x92722c85],
    [0xa2bfe8a1, 0xa81a664b, 0xc24b8b70, 0xc76c51a3],
    [0xd192e819, 0xd6990624, 0xf40e3585, 0x106aa070],
    [0x19a4c116, 0x1e376c08, 0x2748774c, 0x34b0bcb5],
    [0x391c0cb3, 0x4ed8aa4a, 0x5b9cca4f, 0x682e6ff3],
    [0x748f82ee, 0x78a5636f, 0x84c87814, 0x8cc70208],
    [0x90befffa, 0xa4506ceb, 0xbef9a3f7, 0xc67178f2]]"

definition fwupd_rotr32 :: "u32 \<Rightarrow> nat \<Rightarrow> u32" where
  "fwupd_rotr32 x n = drop_bit n x OR push_bit (32 - n) x"

definition fwupd_sha256_block :: "u32 list \<Rightarrow> u8 list \<Rightarrow> u32 list" where
  "fwupd_sha256_block state block =
     (let w = map (\<lambda>i. push_bit 24 (ucast (block ! (i * 4 + 0))) OR
                      push_bit 16 (ucast (block ! (i * 4 + 1))) OR
                      push_bit 8 (ucast (block ! (i * 4 + 2))) OR
                      ucast (block ! (i * 4 + 3))) [0..<16];
          w = fold (\<lambda>i w.
                let s0 = fwupd_rotr32 (w ! (i - 15)) 7 XOR fwupd_rotr32 (w ! (i - 15)) 18 XOR
                         drop_bit 3 (w ! (i - 15));
                    s1 = fwupd_rotr32 (w ! (i - 2)) 17 XOR fwupd_rotr32 (w ! (i - 2)) 19 XOR
                         drop_bit 10 (w ! (i - 2))
                in w @ [w ! (i - 16) + s0 + w ! (i - 7) + s1]) [16..<64] w;
          (a, b, c, d, e, f, g, h) = fold (\<lambda>i (a, b, c, d, e, f, g, h).
                let S1 = fwupd_rotr32 e 6 XOR fwupd_rotr32 e 11 XOR fwupd_rotr32 e 25;
                    ch = (e AND f) XOR (NOT e AND g);
                    S0 = fwupd_rotr32 a 2 XOR fwupd_rotr32 a 13 XOR fwupd_rotr32 a 22;
                    maj = (a AND b) XOR (a AND c) XOR (b AND c);
                    t1 = h + S1 + ch + fwupd_sha256_k ! i + w ! i;
                    t2 = S0 + maj
                in (t1 + t2, a, b, c, d + t1, e, f, g)) [0..<64]
              (state ! 0, state ! 1, state ! 2, state ! 3,
               state ! 4, state ! 5, state ! 6, state ! 7)
      in [state ! 0 + a, state ! 1 + b, state ! 2 + c, state ! 3 + d,
          state ! 4 + e, state ! 5 + f, state ! 6 + g, state ! 7 + h])"

text \<open>\<^verbatim>\<open>init\<close> leaves the bytes of \<^verbatim>\<open>buf\<close> as they are: it is a field of the caller's context.\<close>

definition fwupd_sha256_init :: "fwupd_sha256_ctx \<Rightarrow> fwupd_sha256_ctx" where
  "fwupd_sha256_init ctx = ctx \<lparr>
     fx_state := [0x6a09e667, 0xbb67ae85, 0x3c6ef372, 0xa54ff53a,
                  0x510e527f, 0x9b05688c, 0x1f83d9ab, 0x5be0cd19],
     fx_total_len := 0, fx_buf_len := 0 \<rparr>"

definition fwupd_sha256_byte :: "u8 \<Rightarrow> fwupd_sha256_ctx \<Rightarrow> fwupd_sha256_ctx" where
  "fwupd_sha256_byte b ctx =
     (let ctx = ctx \<lparr> fx_buf := (fx_buf ctx) [fx_buf_len ctx := b],
                      fx_buf_len := fx_buf_len ctx + 1 \<rparr>
      in if fx_buf_len ctx = 64
         then ctx \<lparr> fx_state := fwupd_sha256_block (fx_state ctx) (fx_buf ctx), fx_buf_len := 0 \<rparr>
         else ctx)"

definition fwupd_sha256_update :: "u8 list \<Rightarrow> fwupd_sha256_ctx \<Rightarrow> fwupd_sha256_ctx" where
  "fwupd_sha256_update data ctx =
     fold fwupd_sha256_byte data
       (ctx \<lparr> fx_total_len := fx_total_len ctx + of_nat (length data) \<rparr>)"

definition fwupd_sha256_final :: "fwupd_sha256_ctx \<Rightarrow> fwupd_sha256_ctx \<times> u8 list" where
  "fwupd_sha256_final ctx =
     (let rem = fx_buf_len ctx;
          bit_len_lo = fx_total_len ctx * 8;
          bit_len_hi = drop_bit 29 (fx_total_len ctx);
          state = fx_state ctx;
          pad = replicate 64 0;
          pad = blit 0 (take rem (fx_buf ctx)) pad;
          pad = pad [rem := 0x80];
          (state, pad) = (if rem \<ge> 56 then (fwupd_sha256_block state pad, replicate 64 0)
                          else (state, pad));
          pad = blit 56 [ucast (drop_bit 24 bit_len_hi AND 0xff), ucast (drop_bit 16 bit_len_hi AND 0xff),
                         ucast (drop_bit 8 bit_len_hi AND 0xff), ucast (bit_len_hi AND 0xff),
                         ucast (drop_bit 24 bit_len_lo AND 0xff), ucast (drop_bit 16 bit_len_lo AND 0xff),
                         ucast (drop_bit 8 bit_len_lo AND 0xff), ucast (bit_len_lo AND 0xff)] pad;
          state = fwupd_sha256_block state pad
      in (ctx \<lparr> fx_state := state \<rparr>,
          concat (map (\<lambda>i. [ucast (drop_bit 24 (state ! i) AND 0xff),
                            ucast (drop_bit 16 (state ! i) AND 0xff),
                            ucast (drop_bit 8 (state ! i) AND 0xff),
                            ucast (state ! i AND 0xff)]) [0..<8])))"

text \<open>
  The one-shot form. The context on the stack starts with arbitrary bytes in \<^verbatim>\<open>buf\<close>; they are
  written before they are read, and zeros stand for them here.
\<close>

definition fwupd_sha256_ctx0 :: fwupd_sha256_ctx where
  "fwupd_sha256_ctx0 = \<lparr> fx_state = replicate 8 0, fx_total_len = 0, fx_buf_len = 0,
                         fx_buf = replicate 64 0 \<rparr>"

definition fwupd_sha256 :: "u8 list \<Rightarrow> u8 list" where
  "fwupd_sha256 data =
     snd (fwupd_sha256_final (fwupd_sha256_update data (fwupd_sha256_init fwupd_sha256_ctx0)))"

section \<open>The contract of a streaming digest\<close>

text \<open>
  \<open>repr m c\<close> says that context \<open>c\<close> has absorbed the message \<open>m\<close>; \<open>wf\<close> is what must hold of a
  context before it is initialised; \<open>bnd\<close> bounds the message length.
\<close>

locale stream_hash =
  fixes init :: "'c \<Rightarrow> 'c" and update :: "'b list \<Rightarrow> 'c \<Rightarrow> 'c" and finish :: "'c \<Rightarrow> 'c \<times> 'd"
    and digest :: "'b list \<Rightarrow> 'd" and repr :: "'b list \<Rightarrow> 'c \<Rightarrow> bool"
    and wf :: "'c \<Rightarrow> bool" and bnd :: nat
  assumes init_repr: "wf c \<Longrightarrow> repr [] (init c)"
    and update_repr: "repr m c \<Longrightarrow> repr (m @ d) (update d c)"
    and finish_repr: "repr m c \<Longrightarrow> length m < bnd \<Longrightarrow> snd (finish c) = digest m"
    and repr_wf: "repr m c \<Longrightarrow> wf c"
begin

lemma chunks_repr: "repr m c \<Longrightarrow> repr (m @ concat ds) (fold update ds c)"
proof (induction ds arbitrary: m c)
  case Nil
  then show ?case by simp
next
  case (Cons d ds)
  from Cons.IH [OF update_repr [OF Cons.prems, of d]] show ?case by simp
qed

lemma chunks_digest:
  assumes "wf c" and "length (concat ds) < bnd"
  shows "snd (finish (fold update ds (init c))) = digest (concat ds)"
  using chunks_repr [OF init_repr, of c ds] assms by (simp add: finish_repr)

lemma chunking_irrelevant:
  assumes "wf c" and "wf c'" and "concat ds = concat es" and "length (concat ds) < bnd"
  shows "snd (finish (fold update ds (init c))) = snd (finish (fold update es (init c')))"
  using assms by (simp add: chunks_digest)

end

section \<open>The engine meets the contract\<close>

lemma fwupd_sha256_block_fips: "fwupd_sha256_block state blk = fips_compress state blk"
proof -
  have rot: "fwupd_rotr32 = rotr32"
    by (rule ext)+ (simp add: fwupd_rotr32_def rotr32_def)
  have k: "fwupd_sha256_k = sha256_k"
    by (simp add: fwupd_sha256_k_def sha256_k_def)
  show ?thesis
    unfolding sha256_transform_fips [symmetric] fwupd_sha256_block_def sha256_transform_def rot k ..
qed

lemma block_at_append:
  "64 * i + 64 \<le> length x \<Longrightarrow> block_at (x @ y) i = block_at x i"
  by (simp add: block_at_def)

lemma take_drop_append: "take n m @ drop n m @ ys = m @ ys"
  by (metis append_assoc append_take_drop_id)

lemma sha256_blocks_append1:
  assumes "length x = 64 * q" and "length y = 64"
  shows "sha256_blocks H (x @ y) = fips_compress (sha256_blocks H x) y"
proof -
  have "fold (\<lambda>i H. fips_compress H (block_at (x @ y) i)) [0..<q] H =
        fold (\<lambda>i H. fips_compress H (block_at x i)) [0..<q] H"
    using assms by (intro fold_cong) (auto simp: block_at_append)
  moreover have "block_at (x @ y) q = y"
    using assms by (simp add: block_at_def)
  ultimately show ?thesis
    using assms by (simp add: sha256_blocks_def)
qed

text \<open>What a context that has absorbed \<open>m\<close> holds.\<close>

definition sha_repr :: "u8 list \<Rightarrow> fwupd_sha256_ctx \<Rightarrow> bool" where
  "sha_repr m ctx \<longleftrightarrow>
     fx_state ctx = sha256_blocks sha256_H0 (take (64 * (length m div 64)) m) \<and>
     fx_buf_len ctx = length m mod 64 \<and>
     length (fx_buf ctx) = 64 \<and>
     take (length m mod 64) (fx_buf ctx) = drop (64 * (length m div 64)) m \<and>
     fx_total_len ctx = of_nat (length m)"

definition sha_wf :: "fwupd_sha256_ctx \<Rightarrow> bool" where
  "sha_wf ctx \<longleftrightarrow> length (fx_buf ctx) = 64"

lemma sha_repr_init: "sha_wf c \<Longrightarrow> sha_repr [] (fwupd_sha256_init c)"
  by (simp add: sha_repr_def sha_wf_def fwupd_sha256_init_def sha256_blocks_def sha256_H0_def)

lemma sha_repr_byte:
  assumes r: "sha_repr m c"
  shows "sha_repr (m @ [b]) ((fwupd_sha256_byte b c) \<lparr> fx_total_len := fx_total_len c + 1 \<rparr>)"
proof -
  define q where "q = length m div 64"
  define r where "r = length m mod 64"
  have len: "length m = 64 * q + r" and "r < 64"
    by (simp_all add: q_def r_def)
  have buf: "take (Suc r) ((fx_buf c)[r := b]) = drop (64 * q) m @ [b]"
    using r \<open>r < 64\<close> by (simp add: sha_repr_def q_def r_def take_Suc_conv_app_nth)
  show ?thesis
  proof (cases "r = 63")
    case True
    then have "Suc (length m) div 64 = q + 1" "Suc (length m) mod 64 = 0"
      using len by auto
    moreover have "(fx_buf c)[63 := b] = drop (64 * q) m @ [b]"
      using buf r True by (simp add: sha_repr_def)
    moreover have "sha256_blocks sha256_H0 (m @ [b]) =
        fips_compress (sha256_blocks sha256_H0 (take (64 * q) m)) (drop (64 * q) m @ [b])"
      using sha256_blocks_append1 [of "take (64 * q) m" q "drop (64 * q) m @ [b]"] len True
      by (simp add: take_drop_append)
    ultimately show ?thesis
      using r True len \<open>r < 64\<close>
      by (simp add: sha_repr_def fwupd_sha256_byte_def fwupd_sha256_block_fips q_def [symmetric]
          r_def [symmetric])
  next
    case False
    then have "r < 63"
      using \<open>r < 64\<close> by simp
    then have "(Suc r + 64 * q) div 64 = q" "(Suc r + 64 * q) mod 64 = Suc r"
      by (simp_all only: div_mult_self2 mod_mult_self2, simp_all)
    then have "Suc (length m) div 64 = q" "Suc (length m) mod 64 = Suc r"
      using len by (simp_all add: add.commute)
    then show ?thesis
      using r False buf len \<open>r < 64\<close>
      by (simp add: sha_repr_def fwupd_sha256_byte_def q_def [symmetric] r_def [symmetric])
  qed
qed

lemma byte_total_len [simp]:
  "fx_total_len (fwupd_sha256_byte b c) = fx_total_len c"
  "(fwupd_sha256_byte b c) \<lparr> fx_total_len := t \<rparr> = fwupd_sha256_byte b (c \<lparr> fx_total_len := t \<rparr>)"
  by (simp_all add: fwupd_sha256_byte_def Let_def)

lemma sha_repr_update: "sha_repr m c \<Longrightarrow> sha_repr (m @ d) (fwupd_sha256_update d c)"
proof (induction d arbitrary: m c)
  case Nil
  then show ?case by (simp add: fwupd_sha256_update_def)
next
  case (Cons b d)
  have "sha_repr ((m @ [b]) @ d) (fwupd_sha256_update d
      ((fwupd_sha256_byte b c) \<lparr> fx_total_len := fx_total_len c + 1 \<rparr>))"
    by (rule Cons.IH [OF sha_repr_byte [OF Cons.prems]])
  then show ?case
    by (simp add: fwupd_sha256_update_def ac_simps)
qed

text \<open>The two length words of the C code are the 64-bit big-endian bit length.\<close>

lemma be64_bit_len:
  "be64 (push_bit 3 (ucast (t :: u32))) = be32 (drop_bit 29 t) @ be32 (t * 8)"
proof -
  have "t * 8 = push_bit 3 t"
    by (simp add: push_bit_eq_mult)
  moreover have "[0..<8] = [0, 1, 2, 3, 4, 5, 6, 7 :: nat]"
    by code_simp
  moreover have "\<not> bit t (k + n)" if "32 \<le> k" for k n
    using that bit_imp_le_length [of t "k + n"] by auto
  ultimately show ?thesis
    by (auto simp: be64_def be32_def bit_simps intro!: bit_word_eqI)
qed

lemma be64_of_nat_bits:
  assumes "n < 2 ^ 32"
  shows "be64 (of_nat (8 * n)) = be32 (drop_bit 29 (of_nat n)) @ be32 (of_nat n * 8)"
proof -
  have "(ucast (of_nat n :: u32) :: u64) = of_nat n"
    using assms by (simp add: unsigned_of_nat take_bit_nat_eq_self)
  then have "(of_nat (8 * n) :: u64) = push_bit 3 (ucast (of_nat n :: u32))"
    by (simp add: push_bit_eq_mult)
  then show ?thesis by (simp only: be64_bit_len)
qed

lemma pad_zeros:
  fixes n :: nat
  assumes "n < 64"
  shows "(119 - n) mod 64 = (if n < 56 then 55 - n else (63 - n) + 56)"
proof (cases "n < 56")
  case True
  then have "119 - n = (55 - n) + 64"
    by simp
  then have "(119 - n) mod 64 = (55 - n) mod 64"
    by (simp only: mod_add_self2)
  with True show ?thesis by simp
next
  case False
  with assms show ?thesis by simp
qed

lemma sha256_pad_split:
  assumes "r = length m mod 64" and "q = length m div 64"
  shows "sha256_pad m = (if r < 56
      then take (64 * q) m @ (drop (64 * q) m @ [0x80] @ replicate (55 - r) 0 @ be64 (of_nat (8 * length m)))
      else take (64 * q) m @ (drop (64 * q) m @ [0x80] @ replicate (63 - r) 0) @
           (replicate 56 0 @ be64 (of_nat (8 * length m))))"
proof -
  have z: "(119 - length m mod 64) mod 64 = (if r < 56 then 55 - r else (63 - r) + 56)"
    using assms(1) pad_zeros [of r] by simp
  show ?thesis
    unfolding sha256_pad_def z by (simp add: replicate_add take_drop_append)
qed

lemma sha_repr_final:
  assumes r: "sha_repr m c" and len: "length m < 2 ^ 32"
  shows "snd (fwupd_sha256_final c) = sha256 m"
proof -
  define q where "q = length m div 64"
  define r where "r = length m mod 64"
  have lm: "length m = 64 * q + r" and r64: "r < 64"
    by (simp_all add: q_def r_def)
  let ?x = "take (64 * q) m" and ?t = "drop (64 * q) m" and ?L = "be64 (of_nat (8 * length m))"
  have st: "fx_state c = sha256_blocks sha256_H0 ?x" "fx_buf_len c = r" "take r (fx_buf c) = ?t"
      "fx_total_len c = of_nat (length m)"
    using r by (simp_all add: sha_repr_def q_def r_def)
  have x: "length ?x = 64 * q" "length ?t = r"
    using lm by simp_all
  have "64 - r = Suc (63 - r)"
    using r64 by simp
  then have "replicate (64 - r) (0 :: u8) = 0 # replicate (63 - r) 0"
    by (simp only: replicate_Suc)
  then have pad: "(blit 0 ?t (replicate 64 0)) [r := 0x80] = ?t @ [0x80] @ replicate (63 - r) 0"
    using x(2) r64 by (simp add: blit_def list_update_append)
  have be: "[ucast (drop_bit 24 (drop_bit 29 (fx_total_len c)) AND 0xff), ucast (drop_bit 16 (drop_bit 29 (fx_total_len c)) AND 0xff),
       ucast (drop_bit 8 (drop_bit 29 (fx_total_len c)) AND 0xff), ucast (drop_bit 29 (fx_total_len c) AND 0xff),
       ucast (drop_bit 24 (fx_total_len c * 8) AND 0xff), ucast (drop_bit 16 (fx_total_len c * 8) AND 0xff),
       ucast (drop_bit 8 (fx_total_len c * 8) AND 0xff), ucast (fx_total_len c * 8 AND 0xff)] = ?L"
    unfolding be64_of_nat_bits [OF len] st(4) be32_def by (simp only: append.simps)
  have blit56: "blit 56 ?L (?t @ [0x80] @ replicate (63 - r) 0) = ?t @ [0x80] @ replicate (55 - r) 0 @ ?L"
    if "r < 56" using that x(2) by (simp add: blit_def take_Cons' min_def)
  have blit56': "length L = 8 \<Longrightarrow> blit 56 L (replicate 64 0) = replicate 56 0 @ L" for L :: "u8 list"
    by (simp add: blit_def)
  have sp: "sha256_pad m = (if r < 56 then ?x @ (?t @ [0x80] @ replicate (55 - r) 0 @ ?L)
      else (?x @ (?t @ [0x80] @ replicate (63 - r) 0)) @ (replicate 56 0 @ ?L))"
    using sha256_pad_split [OF r_def q_def] by simp
  have "sha256_blocks sha256_H0 (sha256_pad m) = (if r < 56
      then fips_compress (sha256_blocks sha256_H0 ?x) (?t @ [0x80] @ replicate (55 - r) 0 @ ?L)
      else fips_compress (fips_compress (sha256_blocks sha256_H0 ?x) (?t @ [0x80] @ replicate (63 - r) 0))
             (replicate 56 0 @ ?L))"
    unfolding sp using x r64
    by (simp add: sha256_blocks_append1 [where q = q] sha256_blocks_append1 [where q = "q + 1"]
        del: append_assoc append_Cons append_Nil)
  then show ?thesis
    unfolding sha256_def sha256_out_def fwupd_sha256_final_def Let_def st(1-3) pad be
      fwupd_sha256_block_fips
    unfolding be32_digest
    by (cases "r < 56") (simp_all add: blit56 [simplified] blit56' del: upt_rec_numeral)
qed

interpretation fwsha: stream_hash fwupd_sha256_init fwupd_sha256_update fwupd_sha256_final
  sha256 sha_repr sha_wf "2 ^ 32"
  by unfold_locales (simp_all add: sha_repr_init sha_repr_update sha_repr_final, simp add: sha_repr_def sha_wf_def)

lemma sha_wf_ctx0 [simp]: "sha_wf fwupd_sha256_ctx0"
  by (simp add: sha_wf_def fwupd_sha256_ctx0_def)

lemma fwupd_sha256_eq: "length m < 2 ^ 32 \<Longrightarrow> fwupd_sha256 m = sha256 m"
  using fwsha.chunks_digest [of fwupd_sha256_ctx0 "[m]"] by (simp add: fwupd_sha256_def)

section \<open>Controller images\<close>

text \<open>Bytes of a C string literal or of a NUL-terminated argument.\<close>

definition cbytes :: "string \<Rightarrow> u8 list" where
  "cbytes s = map of_char s"

definition le16 :: "u16 \<Rightarrow> u8 list" where
  "le16 v = [ucast v, ucast (drop_bit 8 v)]"

definition le32 :: "u32 \<Rightarrow> u8 list" where
  "le32 v = [ucast v, ucast (drop_bit 8 v), ucast (drop_bit 16 v), ucast (drop_bit 24 v)]"

definition FWUPD_BIN_MAGIC :: u32 where "FWUPD_BIN_MAGIC = 0x4d574653"
definition FWUPD_ARM_RESET_VECTOR :: u32 where "FWUPD_ARM_RESET_VECTOR = 0xea000026"
definition FWUPD_HDR_INSPECT_LEN :: nat where "FWUPD_HDR_INSPECT_LEN = 256"
definition FWUPD_HDR_SIZE :: nat where "FWUPD_HDR_SIZE = 160"
definition FWUPD_DEFAULT_PAYLOAD_SIZE :: nat where "FWUPD_DEFAULT_PAYLOAD_SIZE = 1024"

text \<open>Fields of \<^verbatim>\<open>struct fwupd_bin_hdr\<close>, read from the bytes at their offsets.\<close>

definition hdr_magic :: "u8 list \<Rightarrow> u32" where
  "hdr_magic h = of_le32 (h ! 4) (h ! 5) (h ! 6) (h ! 7)"

definition hdr_code_len :: "u8 list \<Rightarrow> u32" where
  "hdr_code_len h = of_le32 (h ! 108) (h ! 109) (h ! 110) (h ! 111)"

definition hdr_code_sha256 :: "u8 list \<Rightarrow> u8 list" where
  "hdr_code_sha256 h = take 32 (drop 112 h)"

definition fwupd_build_microcode :: "u8 list \<Rightarrow> u8 list \<Rightarrow> nat \<Rightarrow> u8 list \<times> u8 list" where
  "fwupd_build_microcode device_id fw_version len =
     (let seed = 0x53495846;
          seed = fold (\<lambda>p seed. (seed * 131) XOR ucast p) device_id seed;
          seed = fold (\<lambda>p seed. (seed * 257) + ucast p) fw_version seed;
          (payload, seed) = fold (\<lambda>i (payload, seed :: u32).
              let seed = seed * 1664525 + 1013904223
              in (payload @ [ucast (drop_bit 16 seed XOR (of_nat i AND 0xff))], seed))
            [0..<len] ([], seed);
          payload = (if len \<ge> 64 then
              let b = take 60 (cbytes ''SIX-MICROCODE:'');
                  b = b @ take (60 - length b) device_id;
                  b = b @ cbytes '':'';
                  b = b @ take (62 - length b) fw_version;
                  b = b @ [0]
              in blit 0 b payload
            else payload)
      in (payload, fwupd_sha256 payload))"

text \<open>A string copied into a zeroed \<^verbatim>\<open>char\<close> field of \<open>n\<close> bytes, at most \<open>n - 1\<close> characters.\<close>

definition str_field :: "nat \<Rightarrow> u8 list \<Rightarrow> u8 list" where
  "str_field n s = (let t = take (n - 1) s in t @ replicate (n - length t) 0)"

definition fwupd_build_bin_image ::
  "u8 list \<Rightarrow> u8 list \<Rightarrow> u8 list \<Rightarrow> u8 list \<Rightarrow> u16 \<Rightarrow> u8 list \<times> u8 list" where
  "fwupd_build_bin_image plugin device_id guid fw_version flags =
     (let (code, code_sha) = fwupd_build_microcode device_id fw_version FWUPD_DEFAULT_PAYLOAD_SIZE;
          bin = le32 FWUPD_ARM_RESET_VECTOR @ le32 FWUPD_BIN_MAGIC @ le16 1 @ le16 flags @
                str_field 16 plugin @ str_field 24 device_id @ str_field 40 guid @
                str_field 16 fw_version @ le32 (of_nat FWUPD_DEFAULT_PAYLOAD_SIZE) @ code_sha @
                le32 1790517600 @ replicate 12 0 @ code
      in (bin, fwupd_sha256 bin))"

section \<open>Version detection\<close>

definition is_digit8 :: "u8 \<Rightarrow> bool" where
  "is_digit8 b \<longleftrightarrow> 0x30 \<le> b \<and> b \<le> 0x39"

definition fwupd_ver_run :: "u8 list \<Rightarrow> nat \<Rightarrow> nat \<Rightarrow> u8 list" where
  "fwupd_ver_run hdr max_ver_len i =
     take max_ver_len (takeWhile (\<lambda>b. is_digit8 b \<or> b = 0x2e) (drop i hdr))"

definition fwupd_ver_at :: "u8 list \<Rightarrow> nat \<Rightarrow> nat \<Rightarrow> bool" where
  "fwupd_ver_at hdr max_ver_len i \<longleftrightarrow>
     i + 3 < length hdr \<and> is_digit8 (hdr ! i) \<and> hdr ! (i + 1) = 0x2e \<and> is_digit8 (hdr ! (i + 2)) \<and>
     (let v = fwupd_ver_run hdr max_ver_len i in length v \<ge> 3 \<and> last v \<noteq> 0x2e)"

text \<open>
  \<open>hdr_buf\<close> has at least \<open>hdr_len\<close> bytes. The result is the string left in \<^verbatim>\<open>out_ver\<close>.
\<close>

definition fwupd_detect_bin_version :: "u8 list \<Rightarrow> nat \<Rightarrow> u8 list \<Rightarrow> nat \<Rightarrow> u8 list" where
  "fwupd_detect_bin_version hdr_buf hdr_len sha max_ver_len =
     (if hdr_len \<ge> FWUPD_HDR_SIZE \<and> hdr_magic hdr_buf = FWUPD_BIN_MAGIC \<and> hdr_buf ! 92 \<noteq> 0
      then take max_ver_len (takeWhile (\<lambda>b. b \<noteq> 0) (drop 92 hdr_buf))
      else if hdr_len \<ge> 16 \<and> take 4 hdr_buf = cbytes ''UFSH'' \<and> max_ver_len \<ge> 4 \<and>
              (hdr_buf ! 14 \<noteq> 0 \<or> hdr_buf ! 12 \<noteq> 0)
      then [0x30 + (drop_bit 4 (hdr_buf ! 14) AND 0x0f), 0x30 + (hdr_buf ! 14 AND 0x0f),
            0x30 + (drop_bit 4 (hdr_buf ! 12) AND 0x0f), 0x30 + (hdr_buf ! 12 AND 0x0f)]
      else case find_idx (fwupd_ver_at (take hdr_len hdr_buf) max_ver_len) hdr_len of
        Some i \<Rightarrow> fwupd_ver_run (take hdr_len hdr_buf) max_ver_len i
      | None \<Rightarrow>
          if max_ver_len \<ge> 6
          then [0x32, 0x2e, 0x30 + (sha ! 0 mod 10), 0x2e, 0x30 + (sha ! 1 mod 10)]
          else [0x32, 0x2e, 0x30 + (sha ! 0 mod 10), 0x30 + (sha ! 1 mod 10)])"

section \<open>The receiver\<close>

record fwupd_stream_state =
  fs_hdr_buf :: "u8 list"
  fs_hdr_captured :: u32
  fs_staged_len :: u32
  fs_nonzero_bytes :: u32
  fs_full_sha :: fwupd_sha256_ctx
  fs_code_sha :: fwupd_sha256_ctx

definition fwupd_stream_byte :: "u32 \<Rightarrow> u8 list \<Rightarrow> nat \<Rightarrow> fwupd_stream_state \<Rightarrow> fwupd_stream_state" where
  "fwupd_stream_byte offset data i st =
     (let pos = offset + of_nat i;
          st = (if pos < of_nat FWUPD_HDR_INSPECT_LEN
                then st \<lparr> fs_hdr_buf := (fs_hdr_buf st) [unat pos := data ! i],
                         fs_hdr_captured := (if pos + 1 > fs_hdr_captured st then pos + 1
                                             else fs_hdr_captured st) \<rparr>
                else st)
      in if data ! i \<noteq> 0 then st \<lparr> fs_nonzero_bytes := fs_nonzero_bytes st + 1 \<rparr> else st)"

text \<open>\<open>None\<close> is the return value -1.\<close>

definition fwupd_stream_write_chunk ::
  "fwupd_stream_state \<Rightarrow> u32 \<Rightarrow> u8 list \<Rightarrow> fwupd_stream_state option" where
  "fwupd_stream_write_chunk st offset data =
     (if data = [] then None
      else if offset \<noteq> 0 \<and> offset \<noteq> fs_staged_len st then None
      else
        let st = (if offset = 0
                  then st \<lparr> fs_hdr_buf := replicate FWUPD_HDR_INSPECT_LEN 0, fs_hdr_captured := 0,
                           fs_staged_len := 0, fs_nonzero_bytes := 0,
                           fs_full_sha := fwupd_sha256_init (fs_full_sha st),
                           fs_code_sha := fwupd_sha256_init (fs_code_sha st) \<rparr>
                  else st);
            st = fold (fwupd_stream_byte offset data) [0..<length data] st;
            st = st \<lparr> fs_full_sha := fwupd_sha256_update data (fs_full_sha st) \<rparr>;
            hdr_sz = of_nat FWUPD_HDR_SIZE;
            st = (if offset + of_nat (length data) > hdr_sz
                  then let code_start = (if offset \<ge> hdr_sz then 0 else hdr_sz - offset)
                       in st \<lparr> fs_code_sha :=
                            fwupd_sha256_update (drop (unat code_start) data) (fs_code_sha st) \<rparr>
                  else st)
        in Some (st \<lparr> fs_staged_len := fs_staged_len st + of_nat (length data) \<rparr>))"

text \<open>
  The device id comparison: two C strings, the first without its NUL, the second the bytes of the
  header from \<^verbatim>\<open>device_id\<close> on.
\<close>

fun fwupd_id_match :: "u8 list \<Rightarrow> u8 list \<Rightarrow> bool" where
  "fwupd_id_match [] hs = (hs = [] \<or> hd hs = 0)"
| "fwupd_id_match (e # es) [] = False"
| "fwupd_id_match (e # es) (h # hs) = (e = h \<and> fwupd_id_match es hs)"

text \<open>
  The result is the detected version and the digest of the image; \<open>None\<close> is -1. Finalising
  changes the digest contexts of the receiver, which are part of the returned state.
\<close>

definition fwupd_stream_validate_and_finalize ::
  "fwupd_stream_state \<Rightarrow> u8 list \<Rightarrow> nat \<Rightarrow> fwupd_stream_state \<times> (u8 list \<times> u8 list) option" where
  "fwupd_stream_validate_and_finalize st expected_device_id max_ver_len =
     (if fs_staged_len st < 64 \<or> fs_nonzero_bytes st < 16 then (st, None)
      else
        let (full_ctx, full) = fwupd_sha256_final (fs_full_sha st);
            st = st \<lparr> fs_full_sha := full_ctx \<rparr>;
            hdr = fs_hdr_buf st;
            ver = fwupd_detect_bin_version hdr (unat (fs_hdr_captured st)) full max_ver_len
        in if fs_hdr_captured st \<ge> of_nat FWUPD_HDR_SIZE \<and> hdr_magic hdr = FWUPD_BIN_MAGIC
           then if \<not> fwupd_id_match expected_device_id (drop 28 hdr) \<or> hdr_code_len hdr = 0 \<or>
                   of_nat FWUPD_HDR_SIZE + hdr_code_len hdr \<noteq> fs_staged_len st
                then (st, None)
                else
                  let (code_ctx, calc) = fwupd_sha256_final (fs_code_sha st);
                      st = st \<lparr> fs_code_sha := code_ctx \<rparr>
                  in if calc \<noteq> hdr_code_sha256 hdr then (st, None) else (st, Some (ver, full))
           else (st, Some (ver, full)))"

section \<open>The receiver holds the image\<close>

text \<open>What the receiver holds after the bytes \<open>m\<close>, whatever chunks they came in.\<close>

definition stream_repr :: "u8 list \<Rightarrow> fwupd_stream_state \<Rightarrow> bool" where
  "stream_repr m st \<longleftrightarrow>
     fs_hdr_buf st = take 256 m @ replicate (256 - length m) 0 \<and>
     fs_hdr_captured st = of_nat (min 256 (length m)) \<and>
     fs_staged_len st = of_nat (length m) \<and>
     fs_nonzero_bytes st = of_nat (length (filter (\<lambda>b. b \<noteq> 0) m)) \<and>
     sha_repr m (fs_full_sha st) \<and>
     sha_repr (drop 160 m) (fs_code_sha st)"

definition stream_wf :: "fwupd_stream_state \<Rightarrow> bool" where
  "stream_wf st \<longleftrightarrow> sha_wf (fs_full_sha st) \<and> sha_wf (fs_code_sha st)"

definition hdr_repr :: "u8 list \<Rightarrow> fwupd_stream_state \<Rightarrow> bool" where
  "hdr_repr m st \<longleftrightarrow>
     fs_hdr_buf st = take 256 m @ replicate (256 - length m) 0 \<and>
     fs_hdr_captured st = of_nat (min 256 (length m)) \<and>
     fs_nonzero_bytes st = of_nat (length (filter (\<lambda>b. b \<noteq> 0) m))"

lemma hdr_buf_snoc:
  assumes "length M < 256"
  shows "(M @ replicate (256 - length M) 0) [length M := b] = M @ b # replicate (255 - length M) (0 :: u8)"
proof -
  have "256 - length M = Suc (255 - length M)"
    using assms by simp
  then have "replicate (256 - length M) (0 :: u8) = 0 # replicate (255 - length M) 0"
    by (simp only: replicate_Suc)
  then show ?thesis
    using assms by (simp add: list_update_append)
qed

lemma hdr_repr_snoc:
  assumes h: "hdr_repr M st" and b: "d ! i = b" and off: "off + of_nat i = of_nat (length M)"
    and len: "length M + 1 < 2 ^ 32"
  shows "hdr_repr (M @ [b]) (fwupd_stream_byte off d i st)"
proof -
  have un: "unat (of_nat (length M) :: u32) = length M"
    using len by (intro unat_of_nat_u32) simp
  have lt: "(of_nat (length M) :: u32) < of_nat FWUPD_HDR_INSPECT_LEN \<longleftrightarrow> length M < 256"
    using len of_nat_less_u32 [of "length M" 256] by (simp add: FWUPD_HDR_INSPECT_LEN_def)
  have le: "of_nat (length M) < (of_nat (length M) + 1 :: u32)"
    using len of_nat_less_u32 [of "length M" "Suc (length M)"] by (simp add: add.commute)
  show ?thesis
  proof (cases "length M < 256")
    case True
    then have "min 256 (length M) = length M" "min 256 (length (M @ [b])) = Suc (length M)"
      by simp_all
    with True show ?thesis
      using h le unfolding hdr_repr_def fwupd_stream_byte_def Let_def off b lt un
      by (simp add: hdr_buf_snoc add.commute)
  next
    case False
    then show ?thesis
      using h unfolding hdr_repr_def fwupd_stream_byte_def Let_def off b lt un
      by (simp add: min_def)
  qed
qed

lemma hdr_repr_loop:
  assumes h: "hdr_repr m st" and n: "n \<le> length d" and len: "length m + length d < 2 ^ 32"
  shows "hdr_repr (m @ take n d) (fold (fwupd_stream_byte (of_nat (length m)) d) [0..<n] st)"
  using n
proof (induction n)
  case 0
  with h show ?case by simp
next
  case (Suc n)
  let ?M = "m @ take n d"
  have "hdr_repr (?M @ [d ! n]) (fwupd_stream_byte (of_nat (length m)) d n
      (fold (fwupd_stream_byte (of_nat (length m)) d) [0..<n] st))"
    using Suc len by (intro hdr_repr_snoc) (auto simp: min_def)
  with Suc.prems show ?case
    by (simp add: take_Suc_conv_app_nth)
qed

lemma stream_byte_frame [simp]:
  "fs_staged_len (fwupd_stream_byte off d i st) = fs_staged_len st"
  "fs_full_sha (fwupd_stream_byte off d i st) = fs_full_sha st"
  "fs_code_sha (fwupd_stream_byte off d i st) = fs_code_sha st"
  by (simp_all add: fwupd_stream_byte_def Let_def)

lemma stream_fold_frame [simp]:
  "fs_staged_len (fold (fwupd_stream_byte off d) xs st) = fs_staged_len st"
  "fs_full_sha (fold (fwupd_stream_byte off d) xs st) = fs_full_sha st"
  "fs_code_sha (fold (fwupd_stream_byte off d) xs st) = fs_code_sha st"
  by (induction xs arbitrary: st) simp_all


lemma stream_repr_hdr: "stream_repr m st \<longleftrightarrow> hdr_repr m st \<and> fs_staged_len st = of_nat (length m) \<and>
    sha_repr m (fs_full_sha st) \<and> sha_repr (drop 160 m) (fs_code_sha st)"
  by (auto simp: stream_repr_def hdr_repr_def)

lemma code_start:
  assumes "length m + length d < 2 ^ 32"
  shows "unat (if of_nat (length m) \<ge> (of_nat 160 :: u32) then 0 else of_nat 160 - of_nat (length m) :: u32)
    = 160 - length m"
proof (cases "160 \<le> length m")
  case True
  then show ?thesis
    using assms of_nat_le_u32 [of 160 "length m"] by simp
next
  case False
  then have "(of_nat 160 - of_nat (length m) :: u32) = of_nat (160 - length m)"
    by (simp only: of_nat_diff)
  then show ?thesis
    using False assms of_nat_le_u32 [of 160 "length m"] unat_of_nat_u32 [of "160 - length m"] by simp
qed

text \<open>The common part of both branches: a chunk appended to an image of which \<open>m\<close> has arrived.\<close>

lemma stream_append:
  assumes r: "stream_repr m st" and len: "length m + length d < 2 ^ 32"
  defines "st1 \<equiv> fold (fwupd_stream_byte (of_nat (length m)) d) [0..<length d] st"
  defines "st2 \<equiv> st1 \<lparr> fs_full_sha := fwupd_sha256_update d (fs_full_sha st1) \<rparr>"
  defines "st3 \<equiv> (if of_nat (length m) + of_nat (length d) > (of_nat 160 :: u32)
      then st2 \<lparr> fs_code_sha := fwupd_sha256_update
             (drop (unat (if of_nat (length m) \<ge> (of_nat 160 :: u32) then 0
                          else of_nat 160 - of_nat (length m) :: u32)) d) (fs_code_sha st2) \<rparr>
      else st2)"
  shows "stream_repr (m @ d) (st3 \<lparr> fs_staged_len := fs_staged_len st3 + of_nat (length d) \<rparr>)"
proof -
  have cond: "of_nat (length m) + of_nat (length d) > (of_nat 160 :: u32) \<longleftrightarrow> length m + length d > 160"
    using len of_nat_less_u32 [of 160 "length m + length d"] by simp
  have hdr: "hdr_repr (m @ d) st1"
    using hdr_repr_loop [of m st "length d" d] r len by (simp add: st1_def stream_repr_hdr)
  have full: "sha_repr (m @ d) (fwupd_sha256_update d (fs_full_sha st))"
    using r by (simp add: stream_repr_def sha_repr_update)
  have code: "sha_repr (drop 160 (m @ d)) (fwupd_sha256_update (drop (160 - length m) d) (fs_code_sha st))"
    using r by (simp add: stream_repr_def sha_repr_update)
  have "sha_repr (drop 160 (m @ d)) (fs_code_sha st)" if "length m + length d \<le> 160"
    using that r by (simp add: stream_repr_def)
  then show ?thesis
    using hdr full code r
    unfolding st3_def cond code_start [OF len] st2_def st1_def stream_repr_hdr
    by (simp add: hdr_repr_def)
qed

lemma stream_first:
  assumes "stream_wf st" and "d \<noteq> []" and "length d < 2 ^ 32"
  shows "\<exists>st'. fwupd_stream_write_chunk st 0 d = Some st' \<and> stream_repr d st'"
proof -
  let ?st0 = "st \<lparr> fs_hdr_buf := replicate FWUPD_HDR_INSPECT_LEN 0, fs_hdr_captured := 0,
      fs_staged_len := 0, fs_nonzero_bytes := 0,
      fs_full_sha := fwupd_sha256_init (fs_full_sha st),
      fs_code_sha := fwupd_sha256_init (fs_code_sha st) \<rparr>"
  have "stream_repr [] ?st0"
    using assms by (simp add: stream_repr_def stream_wf_def sha_repr_init FWUPD_HDR_INSPECT_LEN_def)
  from stream_append [OF this, of d] assms show ?thesis
    by (simp add: fwupd_stream_write_chunk_def Let_def FWUPD_HDR_SIZE_def cong: if_cong)
qed

lemma stream_next:
  assumes "stream_repr m st" and "m \<noteq> []" and "d \<noteq> []" and "length m + length d < 2 ^ 32"
  shows "\<exists>st'. fwupd_stream_write_chunk st (of_nat (length m)) d = Some st' \<and> stream_repr (m @ d) st'"
proof -
  have "(of_nat (length m) :: u32) \<noteq> 0"
    using assms of_nat_eq_u32 [of "length m" 0] by simp
  moreover have "fs_staged_len st = of_nat (length m)"
    using assms by (simp add: stream_repr_def)
  ultimately show ?thesis
    using stream_append [OF assms(1), of d] assms
    by (simp add: fwupd_stream_write_chunk_def Let_def FWUPD_HDR_SIZE_def cong: if_cong)
qed

section \<open>Whole images\<close>

text \<open>
  The host side of a transfer: consecutive chunks at consecutive offsets, as the NVMe firmware
  download and the SCSI \<^verbatim>\<open>WRITE BUFFER\<close> paths issue them.
\<close>

fun fwupd_send :: "fwupd_stream_state \<Rightarrow> nat \<Rightarrow> u8 list list \<Rightarrow> fwupd_stream_state option" where
  "fwupd_send st off [] = Some st"
| "fwupd_send st off (d # ds) =
     (case fwupd_stream_write_chunk st (of_nat off) d of
        None \<Rightarrow> None
      | Some st' \<Rightarrow> fwupd_send st' (off + length d) ds)"

lemma send_repr:
  assumes "stream_repr m st" and "m \<noteq> []" and "[] \<notin> set ds" and "length m + length (concat ds) < 2 ^ 32"
  shows "\<exists>st'. fwupd_send st (length m) ds = Some st' \<and> stream_repr (m @ concat ds) st'"
  using assms
proof (induction ds arbitrary: m st)
  case Nil
  then show ?case by simp
next
  case (Cons d ds)
  then obtain st1 where st1: "fwupd_stream_write_chunk st (of_nat (length m)) d = Some st1"
      "stream_repr (m @ d) st1"
    using stream_next [of m st d] by auto
  with Cons.IH [of "m @ d" st1] Cons.prems show ?case
    by simp
qed

lemma send_image:
  assumes "stream_wf st" and "ds \<noteq> []" and "[] \<notin> set ds" and "length (concat ds) < 2 ^ 32"
  shows "\<exists>st'. fwupd_send st 0 ds = Some st' \<and> stream_repr (concat ds) st'"
proof -
  obtain d es where ds: "ds = d # es"
    using assms(2) by (cases ds) auto
  then obtain st1 where st1: "fwupd_stream_write_chunk st 0 d = Some st1" "stream_repr d st1"
    using stream_first [of st d] assms by auto
  moreover have "d \<noteq> []"
    using ds assms(3) by auto
  ultimately show ?thesis
    using send_repr [of d st1 es] ds assms by simp
qed

lemma id_match_iff:
  "fwupd_id_match es hs \<longleftrightarrow> take (length es) hs = es \<and> (length hs = length es \<or> hs ! length es = 0)"
proof (induction es hs rule: fwupd_id_match.induct)
  case (1 hs)
  then show ?case by (cases hs) auto
next
  case (3 e es h hs)
  then show ?case by auto
qed simp

lemma hdr_buf_nth:
  "i < length m \<Longrightarrow> i < 256 \<Longrightarrow> (take 256 m @ replicate (256 - length m) (0 :: u8)) ! i = m ! i"
  by (simp add: nth_append)

lemma hdr_buf_slice:
  assumes "off + n \<le> length m" and "off + n \<le> 256"
  shows "take n (drop off (take 256 m @ replicate (256 - length m) (0 :: u8))) = take n (drop off m)"
  using assms by (auto simp: drop_take min_def)

lemma hdr_fields:
  assumes "160 \<le> length m"
  shows "hdr_magic (take 256 m @ replicate (256 - length m) 0) = hdr_magic m"
    and "hdr_code_len (take 256 m @ replicate (256 - length m) 0) = hdr_code_len m"
    and "hdr_code_sha256 (take 256 m @ replicate (256 - length m) 0) = hdr_code_sha256 m"
  using assms by (simp_all add: hdr_magic_def hdr_code_len_def hdr_code_sha256_def hdr_buf_nth hdr_buf_slice
      del: take_append drop_append)

lemma hdr_id_match:
  assumes "160 \<le> length m" and "length dev < 24"
  shows "fwupd_id_match dev (drop 28 (take 256 m @ replicate (256 - length m) 0)) \<longleftrightarrow>
         take (length dev) (drop 28 m) = dev \<and> m ! (28 + length dev) = 0"
proof -
  have "min (length m) 256 + (256 - length m) - 28 \<noteq> length dev"
    using assms by simp
  then show ?thesis
    using assms by (simp add: id_match_iff hdr_buf_slice hdr_buf_nth del: drop_append take_append)
qed

text \<open>What it means for an image to be the controller format with a consistent header.\<close>

definition bin_consistent :: "u8 list \<Rightarrow> u8 list \<Rightarrow> bool" where
  "bin_consistent dev img \<longleftrightarrow>
     take (length dev) (drop 28 img) = dev \<and> img ! (28 + length dev) = 0 \<and>
     length img = 160 + unat (hdr_code_len img) \<and> hdr_code_len img \<noteq> 0 \<and>
     sha256 (drop 160 img) = hdr_code_sha256 img"

lemma code_len_iff:
  assumes "160 \<le> n" and "n < 2 ^ 32"
  shows "of_nat 160 + cl = (of_nat n :: u32) \<longleftrightarrow> n = 160 + unat cl"
proof
  assume "of_nat 160 + cl = (of_nat n :: u32)"
  then have "cl = of_nat n - of_nat 160"
    by (simp only: eq_diff_eq add.commute)
  then have "cl = of_nat (n - 160)"
    using assms by (simp only: of_nat_diff)
  then have "unat cl = n - 160"
    using assms unat_of_nat_u32 [of "n - 160"] by (simp only:)
  then show "n = 160 + unat cl"
    using assms by simp
next
  assume "n = 160 + unat cl"
  then show "of_nat 160 + cl = (of_nat n :: u32)"
    by simp
qed

lemma validate_repr:
  assumes r: "stream_repr m st" and len: "length m < 2 ^ 32" and dev: "length dev < 24"
  shows "snd (fwupd_stream_validate_and_finalize st dev mx) =
    (if length m < 64 \<or> length (filter (\<lambda>b. b \<noteq> 0) m) < 16 \<or>
        160 \<le> length m \<and> hdr_magic m = FWUPD_BIN_MAGIC \<and> \<not> bin_consistent dev m
     then None
     else Some (fwupd_detect_bin_version (fs_hdr_buf st) (min 256 (length m)) (sha256 m) mx, sha256 m))"
proof -
  have nz: "length (filter (\<lambda>b. b \<noteq> 0) m) < 2 ^ 32"
    using len length_filter_le [of "\<lambda>b. b \<noteq> 0" m] by linarith
  have short: "fs_staged_len st < 64 \<longleftrightarrow> length m < 64" "fs_nonzero_bytes st < 16 \<longleftrightarrow> length (filter (\<lambda>b. b \<noteq> 0) m) < 16"
    using r len nz of_nat_less_u32 [of "length m" 64] of_nat_less_u32 [of _ 16, OF nz]
    by (simp_all add: stream_repr_def)
  have cap: "fs_hdr_captured st \<ge> of_nat FWUPD_HDR_SIZE \<longleftrightarrow> 160 \<le> length m"
    using r of_nat_le_u32 [of 160 "min 256 (length m)"] by (simp add: stream_repr_def FWUPD_HDR_SIZE_def)
  have un: "unat (fs_hdr_captured st) = min 256 (length m)"
    using r unat_of_nat_u32 [of "min 256 (length m)"] by (simp add: stream_repr_def)
  have full: "snd (fwupd_sha256_final (fs_full_sha st)) = sha256 m"
    using r len by (simp add: stream_repr_def sha_repr_final)
  have code: "snd (fwupd_sha256_final (fs_code_sha st)) = sha256 (drop 160 m)"
    using r len by (simp add: stream_repr_def sha_repr_final)
  have hb: "fs_hdr_buf st = take 256 m @ replicate (256 - length m) 0"
    using r by (simp add: stream_repr_def)
  have cl: "of_nat FWUPD_HDR_SIZE + hdr_code_len m = fs_staged_len st \<longleftrightarrow>
      length m = 160 + unat (hdr_code_len m)" if "160 \<le> length m"
    using r that len code_len_iff [of "length m" "hdr_code_len m"]
    by (simp add: stream_repr_def FWUPD_HDR_SIZE_def)
  show ?thesis
  proof (cases "160 \<le> length m")
    case True
    note f = hdr_fields [OF True, folded hb] hdr_id_match [OF True dev, folded hb]
    show ?thesis
      unfolding fwupd_stream_validate_and_finalize_def Let_def case_prod_unfold
      using True by (simp add: short cap full code un f bin_consistent_def cl)
  next
    case False
    then show ?thesis
      unfolding fwupd_stream_validate_and_finalize_def Let_def case_prod_unfold
      by (simp add: short cap full un)
  qed
qed

section \<open>Properties\<close>

definition fwupd_stream0 :: fwupd_stream_state where
  "fwupd_stream0 = \<lparr> fs_hdr_buf = replicate 256 0, fs_hdr_captured = 0, fs_staged_len = 0,
     fs_nonzero_bytes = 0, fs_full_sha = fwupd_sha256_ctx0, fs_code_sha = fwupd_sha256_ctx0 \<rparr>"

lemma stream_wf_stream0 [simp]: "stream_wf fwupd_stream0"
  by (simp add: stream_wf_def fwupd_stream0_def)

text \<open>
  C3. The streaming engine computes SHA-256: whatever bytes the context held before, and however
  the message is cut into update calls, the result is the FIPS digest of the message, for messages
  of less than 4 GiB (the byte counter has 32 bits).
\<close>

theorem fwupd_streaming_is_sha256:
  assumes "sha_wf ctx" and "length (concat ds) < 2 ^ 32"
  shows "snd (fwupd_sha256_final (fold fwupd_sha256_update ds (fwupd_sha256_init ctx))) = sha256 (concat ds)"
  using assms by (rule fwsha.chunks_digest)

theorem fwupd_streaming_is_sha256_witness:
  "snd (fwupd_sha256_final (fold fwupd_sha256_update [[1, 2], [], [3]] (fwupd_sha256_init fwupd_sha256_ctx0)))
     = sha256 [1, 2, 3]"
  using fwupd_streaming_is_sha256 [of fwupd_sha256_ctx0 "[[1, 2], [], [3]]"] by simp

text \<open>
  C4. The receiver's decision on a whole image, for any chunking. The chunks are all taken; the
  image is refused exactly when it is shorter than 64 bytes, has fewer than 16 non-zero bytes, or
  carries the controller magic with a header that does not match: another device id, a length
  field that is not the length of the rest, or a code digest that is not the SHA-256 of the rest.
  Otherwise the reported digest is the SHA-256 of the image.
\<close>

theorem fwupd_receiver_decision:
  assumes "stream_wf st" and "ds \<noteq> []" and "[] \<notin> set ds" and "length (concat ds) < 2 ^ 32"
    and "length dev < 24"
  shows "\<exists>st' ver. fwupd_send st 0 ds = Some st' \<and>
    snd (fwupd_stream_validate_and_finalize st' dev mx) =
      (if length (concat ds) < 64 \<or> length (filter (\<lambda>b. b \<noteq> 0) (concat ds)) < 16 \<or>
          160 \<le> length (concat ds) \<and> hdr_magic (concat ds) = FWUPD_BIN_MAGIC \<and>
          \<not> bin_consistent dev (concat ds)
       then None else Some (ver, sha256 (concat ds)))"
  using send_image [OF assms(1-4)] validate_repr [OF _ assms(4,5)] by blast

theorem fwupd_receiver_decision_witness:
  "\<exists>st'. fwupd_send fwupd_stream0 0 [[1, 2], [3]] = Some st' \<and>
     snd (fwupd_stream_validate_and_finalize st' (cbytes ''SIX-UFS-FLASH'') 4) = None"
  using fwupd_receiver_decision [of fwupd_stream0 "[[1, 2], [3]]" "cbytes ''SIX-UFS-FLASH''" 4]
  by (simp add: cbytes_def)

end
