(* ===== verification/Fwupd_Image.thy ===== *)
theory Fwupd_Image
  imports Fwupd
begin

text \<open>
  The image generator \<^verbatim>\<open>fwupd_build_bin_image\<close> against the receiver: the layout of a
  generated image, and that the receiver accepts it, in any chunking, with the version string it
  was built for.
\<close>

section \<open>Generated images are accepted\<close>

lemma of_le32_le32 [byte_simps]:
  "of_le32 (le32 v ! 0) (le32 v ! 1) (le32 v ! 2) (le32 v ! 3) = v"
proof (rule bit_word_eqI)
  fix n assume n: "n < LENGTH(32)"
  then consider "n < 8" | "8 \<le> n" "n < 16" | "16 \<le> n" "n < 24" | "24 \<le> n" "n < 32"
    by fastforce
  then show "bit (of_le32 (le32 v ! 0) (le32 v ! 1) (le32 v ! 2) (le32 v ! 3)) n = bit v n"
    by cases (auto simp: of_le32_def le32_def bit_simps)
qed

lemma len_fields [simp, len_simps]:
  "length (le32 v) = 4" "length (le16 w) = 2" "n > 0 \<Longrightarrow> length (str_field n s) = n"
  by (auto simp: le32_def le16_def str_field_def Let_def)

lemma le32_at:
  "length A = n \<Longrightarrow> of_le32 ((A @ le32 v @ B) ! n) ((A @ le32 v @ B) ! Suc n)
     ((A @ le32 v @ B) ! Suc (Suc n)) ((A @ le32 v @ B) ! Suc (Suc (Suc n))) = v"
  using of_le32_le32 [of v] by (simp add: nth_append)

lemma length_payload:
  "length (fst (fold (\<lambda>i (payload, seed :: u32).
      let seed = seed * 1664525 + 1013904223
      in (payload @ [ucast (drop_bit 16 seed XOR (of_nat i AND 0xff)) :: u8], seed)) xs (p, s))) =
   length p + length xs"
  by (induction xs arbitrary: p s) (simp_all add: Let_def)

lemma build_microcode_props:
  assumes "64 \<le> n" and "n < 2 ^ 32"
  obtains code where "fwupd_build_microcode dev ver n = (code, sha256 code)" "length code = n"
    "take 14 code = cbytes ''SIX-MICROCODE:''"
proof -
  let ?code = "fst (fwupd_build_microcode dev ver n)"
  have len: "length ?code = n" "take 14 ?code = cbytes ''SIX-MICROCODE:''"
    using assms
    unfolding fwupd_build_microcode_def Let_def case_prod_unfold fst_conv snd_conv
    by (simp_all add: length_payload [unfolded Let_def case_prod_unfold] blit_def cbytes_def min_def)
  moreover have "fwupd_build_microcode dev ver n = (?code, fwupd_sha256 ?code)"
    by (simp add: fwupd_build_microcode_def Let_def split: prod.splits)
  ultimately show ?thesis
    using that assms by (simp add: fwupd_sha256_eq)
qed

lemma str_field_short:
  "length s < n \<Longrightarrow> str_field n s = s @ 0 # replicate (n - Suc (length s)) 0"
proof -
  assume a: "length s < n"
  then have "n - length s = Suc (n - Suc (length s))"
    by simp
  with a show ?thesis
    by (simp add: str_field_def Let_def flip: replicate_Suc)
qed

lemma takeWhile_field:
  "0 \<notin> set s \<Longrightarrow> takeWhile (\<lambda>b. b \<noteq> 0) (s @ 0 # t) = (s :: u8 list)"
  by (induction s) auto

lemma nonzero_prefix:
  "length (filter (\<lambda>b. b \<noteq> 0) (le32 FWUPD_ARM_RESET_VECTOR @ le32 FWUPD_BIN_MAGIC)) = 6"
  by code_simp

lemma nonzero_banner: "length (filter (\<lambda>b. b \<noteq> 0) (cbytes ''SIX-MICROCODE:'')) = 14"
  by code_simp

text \<open>The layout of a generated image with microcode \<open>code\<close>.\<close>

definition bin_layout :: "u8 list \<Rightarrow> u8 list \<Rightarrow> u8 list \<Rightarrow> u8 list \<Rightarrow> u16 \<Rightarrow> u8 list \<Rightarrow> u8 list" where
  "bin_layout plugin dev guid ver flags code =
     le32 FWUPD_ARM_RESET_VECTOR @ le32 FWUPD_BIN_MAGIC @ le16 1 @ le16 flags @
     str_field 16 plugin @ str_field 24 dev @ str_field 40 guid @
     str_field 16 ver @ le32 1024 @ sha256 code @ le32 1790517600 @ replicate 12 0 @ code"

lemma length_bin_layout: "length code = 1024 \<Longrightarrow> length (bin_layout plugin dev guid ver flags code) = 1184"
  by (simp add: bin_layout_def)

lemma build_bin_image_layout:
  "\<exists>code. length code = 1024 \<and> take 14 code = cbytes ''SIX-MICROCODE:'' \<and>
     fwupd_build_bin_image plugin dev guid ver flags =
       (bin_layout plugin dev guid ver flags code, sha256 (bin_layout plugin dev guid ver flags code))"
proof -
  obtain code where c: "fwupd_build_microcode dev ver 1024 = (code, sha256 code)" "length code = 1024"
      "take 14 code = cbytes ''SIX-MICROCODE:''"
    using build_microcode_props [of 1024 dev ver] by auto
  have "fwupd_build_bin_image plugin dev guid ver flags =
      (bin_layout plugin dev guid ver flags code, fwupd_sha256 (bin_layout plugin dev guid ver flags code))"
    by (simp add: fwupd_build_bin_image_def FWUPD_DEFAULT_PAYLOAD_SIZE_def c(1) Let_def bin_layout_def)
  then show ?thesis
    using c length_bin_layout [OF c(2)] by (auto simp: fwupd_sha256_eq)
qed

lemma bin_layout_accepted:
  fixes plugin dev guid ver :: "u8 list" and flags :: u16
  assumes dev: "length dev < 24" and ver: "length ver < 16" "0 \<notin> set ver" "ver \<noteq> []"
    and code: "length code = 1024" "take 14 code = cbytes ''SIX-MICROCODE:''"
    and img: "img = bin_layout plugin dev guid ver flags code"
  shows "length img = 1184"
    and "hdr_magic img = FWUPD_BIN_MAGIC"
    and "bin_consistent dev img"
    and "16 \<le> length (filter (\<lambda>b. b \<noteq> 0) img)"
    and "takeWhile (\<lambda>b. b \<noteq> 0) (drop 92 img) = ver" and "img ! 92 \<noteq> 0"
proof -
  note img = img [unfolded bin_layout_def]
  let ?A = "le32 FWUPD_ARM_RESET_VECTOR @ le32 FWUPD_BIN_MAGIC @ le16 1 @ le16 flags @
        str_field 16 plugin @ str_field 24 dev @ str_field 40 guid @ str_field 16 ver"
  show len: "length img = 1184"
    by (simp add: img code)
  show "hdr_magic img = FWUPD_BIN_MAGIC"
    using le32_at [of "le32 FWUPD_ARM_RESET_VECTOR" 4 FWUPD_BIN_MAGIC] unfolding img hdr_magic_def by simp
  have cl: "hdr_code_len img = 1024"
    using le32_at [of ?A 108 1024] unfolding img hdr_code_len_def by simp
  have "take (length dev) (drop 28 img) = dev" "img ! (28 + length dev) = 0"
    using dev by (simp_all add: img str_field_short nth_append)
  moreover have "drop 160 img = code" "hdr_code_sha256 img = sha256 code"
    by (simp_all add: img hdr_code_sha256_def)
  ultimately show "bin_consistent dev img"
    using len cl by (simp add: bin_consistent_def)
  have "code = cbytes ''SIX-MICROCODE:'' @ drop 14 code"
    by (simp only: code(2) [symmetric] append_take_drop_id)
  from arg_cong [OF this, of "\<lambda>c. length (filter (\<lambda>b. b \<noteq> 0) c)"]
  have "length (filter (\<lambda>b. b \<noteq> 0) code) = 14 + length (filter (\<lambda>b. b \<noteq> 0) (drop 14 code))"
    by (simp only: nonzero_banner filter_append length_append)
  then show "16 \<le> length (filter (\<lambda>b. b \<noteq> 0) img)"
    using nonzero_prefix by (simp add: img)
  have d92: "drop 92 img = ver @ 0 # replicate (15 - length ver) 0 @ le32 1024 @ sha256 code @
      le32 1790517600 @ replicate 12 0 @ code"
    using ver by (simp add: img str_field_short)
  show "takeWhile (\<lambda>b. b \<noteq> 0) (drop 92 img) = ver"
    unfolding d92 by (rule takeWhile_field [OF ver(2)])
  have "img ! 92 = drop 92 img ! 0"
    using len by simp
  then have "img ! 92 = hd ver"
    unfolding d92 using ver(3) by (simp add: hd_conv_nth nth_append)
  then show "img ! 92 \<noteq> 0"
    using ver by (metis hd_in_set)
qed

lemma takeWhile_split:
  assumes "takeWhile (\<lambda>b. b \<noteq> (0 :: u8)) xs = v" and "length v < length xs"
  shows "\<exists>t. xs = v @ 0 # t \<and> 0 \<notin> set v"
proof -
  have xs: "xs = v @ dropWhile (\<lambda>b. b \<noteq> 0) xs"
    using takeWhile_dropWhile_id [of "\<lambda>b. b \<noteq> 0" xs] assms(1) by simp
  have ne: "dropWhile (\<lambda>b. b \<noteq> 0) xs \<noteq> []"
  proof
    assume "dropWhile (\<lambda>b. b \<noteq> 0) xs = []"
    with xs have "xs = v" by (simp only: append_Nil2)
    with assms(2) show False by simp
  qed
  then obtain t where "dropWhile (\<lambda>b. b \<noteq> 0) xs = 0 # t"
    using hd_dropWhile [OF ne] by (cases "dropWhile (\<lambda>b. b \<noteq> 0) xs") auto
  moreover have "0 \<notin> set v"
    using assms(1) set_takeWhileD by fastforce
  ultimately show ?thesis
    using xs by auto
qed

lemma detect_generated:
  assumes len: "length img \<ge> 160" and "hdr_magic img = FWUPD_BIN_MAGIC" and "img ! 92 \<noteq> 0"
    and tw: "takeWhile (\<lambda>b. b \<noteq> 0) (drop 92 img) = ver" and ver: "length ver < 16"
  shows "fwupd_detect_bin_version (take 256 img @ replicate (256 - length img) 0) (min 256 (length img)) sha mx
    = take mx ver"
proof -
  let ?h = "take 256 img @ replicate (256 - length img) 0"
  obtain t where t: "drop 92 img = ver @ 0 # t" "0 \<notin> set ver"
    using takeWhile_split [OF tw] len ver by fastforce
  have "drop 92 ?h = take 164 (drop 92 img) @ replicate (256 - length img) 0"
    using len by (simp add: drop_take)
  also have "\<dots> = ver @ 0 # take (163 - length ver) t @ replicate (256 - length img) 0"
    using ver by (simp add: t take_Cons')
  finally have "takeWhile (\<lambda>b. b \<noteq> 0) (drop 92 ?h) = ver"
    by (simp only: takeWhile_field [OF t(2)])
  then show ?thesis
    using assms by (simp add: fwupd_detect_bin_version_def FWUPD_HDR_SIZE_def hdr_fields hdr_buf_nth
        del: take_append drop_append)
qed

text \<open>
  C5. Round trip of the generator and the receiver: an image built for a device id and a version
  string, cut into non-empty chunks in any way and streamed in order, is accepted by the receiver
  of that device, which reports that version (up to the caller's buffer size) and the SHA-256 of
  the image.
\<close>

theorem fwupd_generated_image_accepted:
  fixes plugin dev guid ver :: "u8 list" and flags :: u16
  assumes "stream_wf st" and "[] \<notin> set ds"
    and "length dev < 24" and "length ver < 16" and "0 \<notin> set ver" and "ver \<noteq> []"
    and "fwupd_build_bin_image plugin dev guid ver flags = (concat ds, sha)"
  shows "\<exists>st'. fwupd_send st 0 ds = Some st' \<and>
    snd (fwupd_stream_validate_and_finalize st' dev mx) = Some (take mx ver, sha)"
proof -
  let ?img = "concat ds"
  obtain code where code: "length code = 1024" "take 14 code = cbytes ''SIX-MICROCODE:''"
      and img: "?img = bin_layout plugin dev guid ver flags code" and sha: "sha = sha256 ?img"
    using build_bin_image_layout [of plugin dev guid ver flags] assms(7) by auto
  note acc = bin_layout_accepted [OF assms(3-6) code img]
  have len: "length ?img < 2 ^ 32" and "ds \<noteq> []"
    using acc(1) by auto
  then obtain st' where st': "fwupd_send st 0 ds = Some st'" "stream_repr ?img st'"
    using send_image [OF assms(1) _ assms(2)] by blast
  have hb: "fs_hdr_buf st' = take 256 ?img @ replicate (256 - length ?img) 0"
    using st'(2) by (simp only: stream_repr_def)
  have "snd (fwupd_stream_validate_and_finalize st' dev mx) = Some (take mx ver, sha)"
    using validate_repr [OF st'(2) len assms(3), of mx] acc
      detect_generated [of ?img ver "sha256 ?img" mx] assms(4)
    unfolding hb sha by (simp only:) simp
  with st'(1) show ?thesis by blast
qed

theorem fwupd_generated_image_accepted_witness:
  "let (img, sha) = fwupd_build_bin_image (cbytes ''ufs'') (cbytes ''SIX-UFS-FLASH'')
                      (cbytes ''guid'') (cbytes ''4.10'') 1
   in \<exists>st'. fwupd_send fwupd_stream0 0 [take 512 img, drop 512 img] = Some st' \<and>
        snd (fwupd_stream_validate_and_finalize st' (cbytes ''SIX-UFS-FLASH'') 4) =
          Some (cbytes ''4.10'', sha)"
proof -
  obtain code where code: "length code = 1024"
      and b: "fwupd_build_bin_image (cbytes ''ufs'') (cbytes ''SIX-UFS-FLASH'') (cbytes ''guid'') (cbytes ''4.10'') 1 =
       (bin_layout (cbytes ''ufs'') (cbytes ''SIX-UFS-FLASH'') (cbytes ''guid'') (cbytes ''4.10'') 1 code,
        sha256 (bin_layout (cbytes ''ufs'') (cbytes ''SIX-UFS-FLASH'') (cbytes ''guid'') (cbytes ''4.10'') 1 code))"
    using build_bin_image_layout by blast
  define img where "img = bin_layout (cbytes ''ufs'') (cbytes ''SIX-UFS-FLASH'') (cbytes ''guid'') (cbytes ''4.10'') 1 code"
  have "length img = 1184"
    using length_bin_layout [OF code] by (simp only: img_def)
  then have ne: "[] \<notin> set [take 512 img, drop 512 img]"
    by auto
  have v: "length (cbytes ''4.10'') < 16" "0 \<notin> set (cbytes ''4.10'')" "cbytes ''4.10'' \<noteq> []"
      "length (cbytes ''SIX-UFS-FLASH'') < 24" "take 4 (cbytes ''4.10'') = cbytes ''4.10''"
    by (simp_all add: cbytes_def)
  have "fwupd_build_bin_image (cbytes ''ufs'') (cbytes ''SIX-UFS-FLASH'') (cbytes ''guid'') (cbytes ''4.10'') 1 =
      (concat [take 512 img, drop 512 img], sha256 img)"
    by (simp add: b img_def)
  from fwupd_generated_image_accepted [OF stream_wf_stream0 ne v(4) v(1-3) this, of 4]
  show ?thesis
    by (simp only: b v(5) Let_def prod.case img_def)
qed

end
