(* ===== verification/Kernel_Lib.thy ===== *)
theory Kernel_Lib
  imports Six_Prelude
begin

text \<open>
  Text and number helpers of the kernel: \<^verbatim>\<open>simple_strtoul\<close> (\<^verbatim>\<open>lib/vsprintf.c\<close>) with
  the character classes it uses (\<^verbatim>\<open>lib/ctype.c\<close>, ASCII part), and decimal printing
  (\<^verbatim>\<open>%lu\<close> of \<^verbatim>\<open>sprintf\<close>), which is its inverse on base 10.
\<close>

section \<open>Characters\<close>

abbreviation ord :: "char \<Rightarrow> nat" where
  "ord c \<equiv> of_char c"

definition isdigit :: "char \<Rightarrow> bool" where
  "isdigit c \<longleftrightarrow> 48 \<le> ord c \<and> ord c \<le> 57"

definition isxdigit :: "char \<Rightarrow> bool" where
  "isxdigit c \<longleftrightarrow> isdigit c \<or> 65 \<le> ord c \<and> ord c \<le> 70 \<or> 97 \<le> ord c \<and> ord c \<le> 102"

definition islower :: "char \<Rightarrow> bool" where
  "islower c \<longleftrightarrow> 97 \<le> ord c \<and> ord c \<le> 122"

definition toupper :: "char \<Rightarrow> nat" where
  "toupper c = (if islower c then ord c - 32 else ord c)"

section \<open>Reading numbers\<close>

definition xdigit_value :: "char \<Rightarrow> nat" where
  "xdigit_value c = (if isdigit c then ord c - 48 else toupper c - 65 + 10)"

fun strtoul_loop :: "nat \<Rightarrow> u32 \<Rightarrow> string \<Rightarrow> u32 \<times> string" where
  "strtoul_loop base result [] = (result, [])"
| "strtoul_loop base result (c # cp) =
     (if isxdigit c \<and> xdigit_value c < base
      then strtoul_loop base (result * of_nat base + of_nat (xdigit_value c)) cp
      else (result, c # cp))"

text \<open>The value and the rest of the string (\<^verbatim>\<open>*endp\<close>).\<close>

definition simple_strtoul :: "string \<Rightarrow> nat \<Rightarrow> u32 \<times> string" where
  "simple_strtoul cp base =
     (if base = 0
      then (case cp of
              [] \<Rightarrow> strtoul_loop 10 0 cp
            | c # cp1 \<Rightarrow>
                if c = CHR ''0''
                then (case cp1 of
                        x # d # _ \<Rightarrow> if x = CHR ''x'' \<and> isxdigit d then strtoul_loop 16 0 (tl cp1)
                                     else strtoul_loop 8 0 cp1
                      | _ \<Rightarrow> strtoul_loop 8 0 cp1)
                else strtoul_loop 10 0 cp)
      else strtoul_loop base 0 cp)"

section \<open>Printing numbers\<close>

definition digit_char :: "nat \<Rightarrow> char" where
  "digit_char d = char_of (48 + d)"

fun dec :: "nat \<Rightarrow> string" where
  "dec n = (if n < 10 then [digit_char n] else dec (n div 10) @ [digit_char (n mod 10)])"

declare dec.simps [simp del]

lemma digit_char_props:
  assumes "d < 10"
  shows "isdigit (digit_char d)" and "isxdigit (digit_char d)" and "xdigit_value (digit_char d) = d"
  using assms by (simp_all add: isdigit_def isxdigit_def digit_char_def xdigit_value_def)

lemma dec_digits: "c \<in> set (dec n) \<Longrightarrow> isdigit c"
proof (induction n rule: dec.induct)
  case (1 n)
  then show ?case
    by (subst (asm) (2) dec.simps) (auto simp: digit_char_props split: if_splits)
qed

lemma dec_not_Nil [simp]: "dec n \<noteq> []"
  by (subst dec.simps) simp

lemma isdigit_not_special:
  "isdigit c \<Longrightarrow> c \<noteq> nul \<and> c \<noteq> CHR '' '' \<and> c \<noteq> CHR 0x09 \<and> c \<noteq> CHR 0x0A \<and> c \<noteq> CHR 0x0D"
  by (auto simp: isdigit_def)

lemma strtoul_loop_dec:
  "strtoul_loop 10 r (dec n @ rest) = strtoul_loop 10 (r * 10 ^ length (dec n) + of_nat n) rest"
proof (induction n arbitrary: rest rule: dec.induct)
  case (1 n)
  show ?case
  proof (cases "n < 10")
    case True
    then show ?thesis
      by (subst (1 2) dec.simps) (simp add: digit_char_props)
  next
    case False
    have n: "(of_nat n :: u32) = of_nat (n div 10) * 10 + of_nat (n mod 10)"
      by (metis div_mult_mod_eq of_nat_add of_nat_mult of_nat_numeral)
    have d: "dec n = dec (n div 10) @ [digit_char (n mod 10)]"
      using False by (subst dec.simps) simp
    have "strtoul_loop 10 r (dec n @ rest) =
        strtoul_loop 10 ((r * 10 ^ length (dec (n div 10)) + of_nat (n div 10)) * 10 + of_nat (n mod 10)) rest"
      using 1 [OF False] by (simp add: d digit_char_props)
    also have "(r * 10 ^ length (dec (n div 10)) + of_nat (n div 10)) * 10 + of_nat (n mod 10) =
        r * 10 ^ length (dec n) + of_nat n"
      by (simp add: d n algebra_simps)
    finally show ?thesis .
  qed
qed

lemma simple_strtoul_dec:
  assumes "rest = [] \<or> \<not> isxdigit (hd rest)"
  shows "simple_strtoul (dec n @ rest) 10 = (of_nat n, rest)"
  using assms strtoul_loop_dec [of 0 n rest] by (cases rest) (simp_all add: simple_strtoul_def)

lemma length_dec: "n < 10 ^ Suc k \<Longrightarrow> length (dec n) \<le> Suc k"
proof (induction k arbitrary: n)
  case 0
  then show ?case by (subst dec.simps) simp
next
  case (Suc k)
  then have "n div 10 < 10 ^ Suc k"
    by (simp add: less_mult_imp_div_less)
  with Suc.IH [of "n div 10"] show ?case
    by (subst dec.simps) simp
qed

lemma length_dec_u32: "length (dec (unat (v :: u32))) \<le> 10"
proof -
  have "unat v < 2 ^ 32"
    by (rule unat_u32_less)
  then have "unat v < 10 ^ Suc 9"
    by simp
  then show ?thesis
    using length_dec [of "unat v" 9] by simp
qed

end
