(* ===== verification/Power_Dev.thy ===== *)
theory Power_Dev
  imports Kernel_Lib
begin

text \<open>
  Power management: wakelocks, opportunistic suspend and the \<^verbatim>\<open>/sys/power\<close> files
  (\<^verbatim>\<open>drivers/char/power_dev.c\<close>). The driver's static variables are the record
  \<open>pm_st\<close>; everything it reads from the rest of the kernel and from the host (the tick
  counter, the task list, the host sleep) is the record \<open>pm_env\<close>. Console messages are not
  modelled.
\<close>

section \<open>State\<close>

record six_wakelock =
  wl_in_use :: bool
  wl_name :: string
  wl_active :: bool
  wl_count :: u32
  wl_expire_count :: u32
  wl_wake_count :: u32
  wl_active_since :: u32
  wl_total_time_ms :: u32
  wl_max_time_ms :: u32
  wl_last_change :: u32

record six_suspend_stats =
  ss_success :: u32
  ss_fail :: u32
  ss_failed_freeze :: u32
  ss_failed_suspend :: u32
  ss_last_sleep_time_ms :: u32
  ss_total_sleep_time_ms :: u32
  ss_last_failed_step :: string
  ss_last_wakeup_reason :: string

record pm_st =
  wl_table :: "six_wakelock list"
  pm_stats :: six_suspend_stats
  pm_wakeup_event_count :: u32
  pm_saved_wakeup_count :: u32
  pm_events_check_enabled :: bool
  pm_autosuspend_enabled :: bool
  pm_in_suspend :: bool
  pm_wakealarm_ms :: u32
  xt_sec :: int
  xt_usec :: int

text \<open>
  A task as the freezer sees it. \<open>pe_sleep\<close> is the host sleep for a given alarm: the wakeup
  reason and the milliseconds slept. \<open>pe_tick_ms\<close> is \<^verbatim>\<open>1000UL / HZ\<close>. \<open>pe_uaccess\<close> tells
  whether \<^verbatim>\<open>verify_area\<close> accepts the caller's buffer.
\<close>

record pm_task =
  pt_pid :: nat
  pt_comm :: string
  pt_uninterruptible :: bool

record pm_env =
  pe_jiffies :: u32
  pe_tick_ms :: u32
  pe_tasks :: "pm_task list"
  pe_current :: nat
  pe_sleep :: "u32 \<Rightarrow> string \<times> u32"
  pe_uaccess :: bool

definition MAX_WAKELOCKS :: nat where "MAX_WAKELOCKS = 32"

definition empty_wakelock :: six_wakelock where
  "empty_wakelock = \<lparr> wl_in_use = False, wl_name = [], wl_active = False, wl_count = 0,
     wl_expire_count = 0, wl_wake_count = 0, wl_active_since = 0, wl_total_time_ms = 0,
     wl_max_time_ms = 0, wl_last_change = 0 \<rparr>"

abbreviation display :: string where
  "display \<equiv> ''PowerManagerService.Display''"

section \<open>Wakelock table\<close>

text \<open>The index of the entry, and the table, which changes when an entry is allocated.\<close>

definition find_or_alloc_wakelock :: "six_wakelock list \<Rightarrow> string \<Rightarrow> bool \<Rightarrow> nat option \<times> six_wakelock list" where
  "find_or_alloc_wakelock tab name create =
     (case find_idx (\<lambda>i. wl_in_use (tab ! i) \<and> wl_name (tab ! i) = name) MAX_WAKELOCKS of
        Some i \<Rightarrow> (Some i, tab)
      | None \<Rightarrow>
          (case find_idx (\<lambda>i. \<not> wl_in_use (tab ! i)) MAX_WAKELOCKS of
             None \<Rightarrow> (None, tab)
           | Some free_idx \<Rightarrow>
               if \<not> create then (None, tab)
               else (Some free_idx,
                     tab [free_idx := empty_wakelock \<lparr> wl_in_use := True, wl_name := strncpy_z 47 name \<rparr>])))"

definition pm_first_active_wakelock :: "pm_st \<Rightarrow> string option" where
  "pm_first_active_wakelock s =
     map_option (\<lambda>i. wl_name (wl_table s ! i))
       (find_idx (\<lambda>i. wl_in_use (wl_table s ! i) \<and> wl_active (wl_table s ! i)) MAX_WAKELOCKS)"

definition pm_first_active_non_display_wakelock :: "pm_st \<Rightarrow> string option" where
  "pm_first_active_non_display_wakelock s =
     map_option (\<lambda>i. wl_name (wl_table s ! i))
       (find_idx (\<lambda>i. wl_in_use (wl_table s ! i) \<and> wl_active (wl_table s ! i) \<and>
                      wl_name (wl_table s ! i) \<noteq> display) MAX_WAKELOCKS)"

definition pm_wake_lock :: "pm_env \<Rightarrow> string \<Rightarrow> pm_st \<Rightarrow> unit res \<times> pm_st" where
  "pm_wake_lock e name s =
     (if name = [] then (Inl EINVAL, s)
      else case find_or_alloc_wakelock (wl_table s) name True of
        (None, _) \<Rightarrow> (Inl ENOMEM, s)
      | (Some i, tab) \<Rightarrow>
          let wl = tab ! i;
              wl = (if \<not> wl_active wl
                    then wl \<lparr> wl_active := True, wl_count := wl_count wl + 1, wl_active_since := pe_jiffies e \<rparr>
                    else wl);
              wl = wl \<lparr> wl_last_change := pe_jiffies e \<rparr>;
              s = s \<lparr> wl_table := tab [i := wl] \<rparr>;
              s = (if name = display then s \<lparr> pm_autosuspend_enabled := False \<rparr> else s)
          in (Inr (), s))"

text \<open>Closing the accounting of an active wakelock, as unlock and suspend both do.\<close>

definition wl_release :: "pm_env \<Rightarrow> six_wakelock \<Rightarrow> six_wakelock" where
  "wl_release e wl =
     (let held_ms = (pe_jiffies e - wl_active_since wl) * pe_tick_ms e;
          held_ms = (if held_ms = 0 then 1 else held_ms)
      in wl \<lparr> wl_total_time_ms := wl_total_time_ms wl + held_ms,
             wl_max_time_ms := (if held_ms > wl_max_time_ms wl then held_ms else wl_max_time_ms wl),
             wl_active := False, wl_active_since := 0, wl_wake_count := wl_wake_count wl + 1 \<rparr>)"

section \<open>Suspend\<close>

definition pm_fail :: "string \<Rightarrow> pm_st \<Rightarrow> pm_st" where
  "pm_fail step s = s \<lparr> pm_stats := (pm_stats s) \<lparr> ss_fail := ss_fail (pm_stats s) + 1,
                                                 ss_last_failed_step := step \<rparr> \<rparr>"

definition pm_d_tasks :: "pm_env \<Rightarrow> pm_task list" where
  "pm_d_tasks e = filter (\<lambda>p. pt_pid p \<noteq> pe_current e \<and> pt_pid p > 1 \<and> pt_uninterruptible p) (pe_tasks e)"

definition pm_add_time :: "u32 \<Rightarrow> pm_st \<Rightarrow> pm_st" where
  "pm_add_time slept s =
     (let sec = xt_sec s + int (unat slept div 1000);
          usec = xt_usec s + int (unat slept mod 1000) * 1000
      in if usec \<ge> 1000000
         then s \<lparr> xt_sec := sec + usec div 1000000, xt_usec := usec mod 1000000 \<rparr>
         else s \<lparr> xt_sec := sec, xt_usec := usec \<rparr>)"

definition pm_enter_suspend :: "pm_env \<Rightarrow> pm_st \<Rightarrow> unit res \<times> pm_st" where
  "pm_enter_suspend e s =
     (case pm_first_active_non_display_wakelock s of
        Some active_wl \<Rightarrow> (Inl EBUSY, pm_fail (''wakeup_source_active('' @ active_wl @ '')'') s)
      | None \<Rightarrow>
        if pm_events_check_enabled s \<and> pm_wakeup_event_count s \<noteq> pm_saved_wakeup_count s
        then (Inl EBUSY, (pm_fail ''wakeup_count_mismatch'' s) \<lparr> pm_events_check_enabled := False \<rparr>)
        else
          let s = s \<lparr> pm_events_check_enabled := False, pm_in_suspend := True \<rparr>;
              s = (case find_or_alloc_wakelock (wl_table s) display False of
                     (Some i, tab) \<Rightarrow>
                       if wl_active (tab ! i) then s \<lparr> wl_table := tab [i := wl_release e (tab ! i)] \<rparr> else s
                   | (None, _) \<Rightarrow> s)
          in case pm_d_tasks e of
               first_d # _ \<Rightarrow>
                 let s = pm_fail (''freeze('' @ pt_comm first_d @ '':'' @ dec (pt_pid first_d) @ '' in D-state)'') s;
                     s = s \<lparr> pm_stats := (pm_stats s) \<lparr> ss_failed_freeze := ss_failed_freeze (pm_stats s) + 1 \<rparr> \<rparr>
                 in (Inl EBUSY, s \<lparr> pm_in_suspend := False \<rparr>)
             | [] \<Rightarrow>
                 let (wake_reason, slept_ms) = pe_sleep e (pm_wakealarm_ms s);
                     s = pm_add_time slept_ms s;
                     st = pm_stats s;
                     s = s \<lparr> pm_stats := st \<lparr> ss_success := ss_success st + 1,
                                ss_last_sleep_time_ms := slept_ms,
                                ss_total_sleep_time_ms := ss_total_sleep_time_ms st + slept_ms,
                                ss_last_wakeup_reason := strncpy_z 63 wake_reason \<rparr>,
                            pm_wakeup_event_count := pm_wakeup_event_count s + 1,
                            pm_in_suspend := False, pm_autosuspend_enabled := False,
                            pm_wakealarm_ms := 0 \<rparr>
                 in (Inr (), snd (pm_wake_lock e display s)))"

text \<open>The first half of an unlock, up to the autosuspend decision; \<open>i\<close> is the entry found.\<close>

definition pm_unlocked :: "pm_env \<Rightarrow> nat \<Rightarrow> bool \<Rightarrow> pm_st \<Rightarrow> pm_st" where
  "pm_unlocked e i is_display_unlock s =
     (let s = (if is_display_unlock then s \<lparr> pm_autosuspend_enabled := True \<rparr> else s);
          wl = wl_table s ! i;
          was_active = wl_active wl;
          wl = (if was_active then wl_release e wl else wl);
          s = (if was_active then s \<lparr> pm_wakeup_event_count := pm_wakeup_event_count s + 1 \<rparr> else s)
      in s \<lparr> wl_table := (wl_table s) [i := wl \<lparr> wl_last_change := pe_jiffies e \<rparr>] \<rparr>)"

definition pm_wake_unlock :: "pm_env \<Rightarrow> string \<Rightarrow> pm_st \<Rightarrow> unit res \<times> pm_st" where
  "pm_wake_unlock e name s =
     (if name = [] then (Inl EINVAL, s)
      else case find_or_alloc_wakelock (wl_table s) name False of
        (None, _) \<Rightarrow> (Inl ENOENT, s)
      | (Some i, _) \<Rightarrow>
          let is_display_unlock = (name = display);
              s = pm_unlocked e i is_display_unlock s
          in (Inr (),
              if \<not> pm_in_suspend s \<and> pm_autosuspend_enabled s
              then (case pm_first_active_wakelock s of
                      None \<Rightarrow> snd (pm_enter_suspend e
                                (s \<lparr> pm_saved_wakeup_count := pm_wakeup_event_count s,
                                     pm_events_check_enabled := True \<rparr>))
                    | Some _ \<Rightarrow> if is_display_unlock then snd (pm_enter_suspend e s) else s)
              else s))"

definition pm_get_total_sleep_ms :: "pm_st \<Rightarrow> u32" where
  "pm_get_total_sleep_ms s = ss_total_sleep_time_ms (pm_stats s)"

definition pm_notify_d_state_cleared :: "pm_env \<Rightarrow> pm_st \<Rightarrow> pm_st" where
  "pm_notify_d_state_cleared e s =
     (if \<not> pm_in_suspend s \<and> pm_autosuspend_enabled s \<and> pm_first_active_wakelock s = None
      then snd (pm_enter_suspend e
             (s \<lparr> pm_saved_wakeup_count := pm_wakeup_event_count s, pm_events_check_enabled := True \<rparr>))
      else s)"

section \<open>The \<open>/sys/power\<close> files\<close>

definition PM_MINOR_STATE :: nat where "PM_MINOR_STATE = 0"
definition PM_MINOR_WAKE_LOCK :: nat where "PM_MINOR_WAKE_LOCK = 1"
definition PM_MINOR_WAKE_UNLOCK :: nat where "PM_MINOR_WAKE_UNLOCK = 2"
definition PM_MINOR_WAKEUP_COUNT :: nat where "PM_MINOR_WAKEUP_COUNT = 3"
definition PM_MINOR_SUSPEND_STATS :: nat where "PM_MINOR_SUSPEND_STATS = 4"
definition PM_MINOR_WAKEALARM :: nat where "PM_MINOR_WAKEALARM = 5"

lemmas pm_minors = PM_MINOR_STATE_def PM_MINOR_WAKE_LOCK_def PM_MINOR_WAKE_UNLOCK_def
  PM_MINOR_WAKEUP_COUNT_def PM_MINOR_SUSPEND_STATS_def PM_MINOR_WAKEALARM_def

definition nl :: string where "nl = [CHR 0x0A]"

text \<open>Names separated by a space; an empty accumulator takes no separator.\<close>

definition join_names :: "six_wakelock list \<Rightarrow> string" where
  "join_names wls = fold (\<lambda>wl k. k @ (if k \<noteq> [] then '' '' else []) @ wl_name wl) wls []"

definition signed_dec :: "u32 \<Rightarrow> string" where
  "signed_dec v = (if sint v < 0 then ''-'' @ dec (nat (- sint v)) else dec (nat (sint v)))"

definition power_text :: "pm_env \<Rightarrow> pm_st \<Rightarrow> nat \<Rightarrow> string res" where
  "power_text e s minor =
     (if minor = PM_MINOR_STATE then Inr (''freeze mem on'' @ nl)
      else if minor = PM_MINOR_WAKE_LOCK then
        Inr (join_names (filter (\<lambda>wl. wl_in_use wl \<and> wl_active wl) (wl_table s)) @ nl)
      else if minor = PM_MINOR_WAKE_UNLOCK then
        Inr (join_names (filter (\<lambda>wl. wl_in_use wl \<and> \<not> wl_active wl) (wl_table s)) @ nl)
      else if minor = PM_MINOR_WAKEUP_COUNT then
        (if pm_first_active_non_display_wakelock s \<noteq> None then Inl EBUSY
         else Inr (dec (unat (pm_wakeup_event_count s)) @ nl))
      else if minor = PM_MINOR_SUSPEND_STATS then
        (let st = pm_stats s; mono_ms = pe_jiffies e * pe_tick_ms e;
             boot_ms = mono_ms + ss_total_sleep_time_ms st
         in Inr (''success: '' @ dec (unat (ss_success st)) @ nl @
                 ''fail: '' @ dec (unat (ss_fail st)) @ nl @
                 ''failed_freeze: '' @ dec (unat (ss_failed_freeze st)) @ nl @
                 ''failed_suspend: '' @ dec (unat (ss_failed_suspend st)) @ nl @
                 ''last_failed_step: '' @ ss_last_failed_step st @ nl @
                 ''last_wakeup_reason: '' @ ss_last_wakeup_reason st @ nl @
                 ''last_sleep_time_ms: '' @ dec (unat (ss_last_sleep_time_ms st)) @ nl @
                 ''total_sleep_time_ms: '' @ dec (unat (ss_total_sleep_time_ms st)) @ nl @
                 ''clock_monotonic_ms: '' @ dec (unat mono_ms) @ nl @
                 ''clock_boottime_ms: '' @ dec (unat boot_ms) @ nl @
                 ''wakeup_count: '' @ dec (unat (pm_wakeup_event_count s)) @ nl @
                 ''autosuspend: '' @ (if pm_autosuspend_enabled s then ''armed (screen_off)''
                                      else ''interactive (screen_on)'') @ nl))
      else if minor = PM_MINOR_WAKEALARM then Inr (signed_dec (pm_wakealarm_ms s) @ ''ms'' @ nl)
      else Inl EINVAL)"

text \<open>Result: the bytes copied to the caller and the new file position.\<close>

definition power_read :: "pm_env \<Rightarrow> pm_st \<Rightarrow> nat \<Rightarrow> nat \<Rightarrow> nat \<Rightarrow> (string \<times> nat) res" where
  "power_read e s minor f_pos count =
     (if f_pos > 0 then Inr ([], f_pos)
      else case power_text e s minor of
        Inl err \<Rightarrow> Inl err
      | Inr kbuf \<Rightarrow>
          if length kbuf - f_pos = 0 then Inr ([], f_pos)
          else let rem = min count (length kbuf - f_pos)
               in if \<not> pe_uaccess e then Inl EFAULT
                  else Inr (take rem (drop f_pos kbuf), f_pos + rem))"

definition is_blank :: "char \<Rightarrow> bool" where
  "is_blank c \<longleftrightarrow> c = CHR '' '' \<or> c = CHR 0x09"

definition is_stop :: "char \<Rightarrow> bool" where
  "is_stop c \<longleftrightarrow> c = CHR 0x0D \<or> c = CHR 0x0A \<or> c = CHR '' '' \<or> c = CHR 0x09"

text \<open>The word that the write handlers look at: the first one in the first 127 bytes.\<close>

definition power_word :: "string \<Rightarrow> nat \<Rightarrow> string" where
  "power_word buf count =
     (let kbuf = take (min count 127) buf
      in takeWhile (\<lambda>c. \<not> is_stop c) (c_str (dropWhile is_blank kbuf)))"

definition power_write :: "pm_env \<Rightarrow> nat \<Rightarrow> string \<Rightarrow> nat \<Rightarrow> pm_st \<Rightarrow> nat res \<times> pm_st" where
  "power_write e minor buf count s =
     (if count = 0 then (Inr 0, s)
      else if \<not> pe_uaccess e then (Inl EFAULT, s)
      else
        let p = power_word buf count;
            ret = (\<lambda>(r, s'). (case r of Inl err \<Rightarrow> Inl err | Inr () \<Rightarrow> Inr count, s'))
        in if p = [] then (Inr count, s)
           else if minor = PM_MINOR_STATE then
             (if p = ''on'' then (Inr count, snd (pm_wake_lock e display (s \<lparr> pm_events_check_enabled := False \<rparr>)))
              else if p = ''autosuspend'' then ret (pm_wake_unlock e display s)
              else if p = ''mem'' \<or> p = ''freeze'' \<or> p = ''standby'' then ret (pm_enter_suspend e s)
              else (Inl EINVAL, s))
           else if minor = PM_MINOR_WAKE_LOCK then ret (pm_wake_lock e p s)
           else if minor = PM_MINOR_WAKE_UNLOCK then ret (pm_wake_unlock e p s)
           else if minor = PM_MINOR_WAKEUP_COUNT then
             (let val = fst (simple_strtoul p 10)
              in if pm_first_active_non_display_wakelock s \<noteq> None \<or> val \<noteq> pm_wakeup_event_count s
                 then (Inl EINVAL, pm_fail ''wakeup_count_race'' s)
                 else (Inr count, s \<lparr> pm_saved_wakeup_count := val, pm_events_check_enabled := True \<rparr>))
           else if minor = PM_MINOR_WAKEALARM then
             (let (val, endp) = simple_strtoul p 10;
                  ms = (if endp = ''ms'' \<or> endp = ''MS'' then val else val * 1000);
                  ms = (if sint ms \<le> 0 then 50 else ms)
              in (Inr count, s \<lparr> pm_wakealarm_ms := ms \<rparr>))
           else (Inl EINVAL, s))"

definition wakelock_line :: "pm_env \<Rightarrow> six_wakelock \<Rightarrow> string" where
  "wakelock_line e wl =
     (let active_ms = (if wl_active wl
            then let a = (pe_jiffies e - wl_active_since wl) * pe_tick_ms e in if a = 0 then 1 else a
            else 0);
          tab = [CHR 0x09]; q = [CHR 0x22]
      in q @ wl_name wl @ q @ tab @ dec (unat (wl_count wl)) @ tab @ dec (unat (wl_expire_count wl)) @ tab @
         dec (unat (wl_wake_count wl)) @ tab @ dec (unat active_ms) @ tab @
         dec (unat (wl_total_time_ms wl + active_ms)) @ tab @ ''0'' @ tab @
         dec (unat (wl_max_time_ms wl)) @ tab @ dec (unat (wl_last_change wl)) @ nl)"

definition get_wakelocks_info :: "pm_env \<Rightarrow> pm_st \<Rightarrow> string" where
  "get_wakelocks_info e s =
     (let tab = [CHR 0x09]
      in ''name'' @ tab @ ''count'' @ tab @ ''expire_count'' @ tab @ ''wake_count'' @ tab @
         ''active_since'' @ tab @ ''total_time'' @ tab @ ''sleep_time'' @ tab @ ''max_time'' @ tab @
         ''last_change'' @ nl @
         concat (map (wakelock_line e) (filter wl_in_use (wl_table s))))"

text \<open>\<open>reg_ok\<close> is the outcome of \<^verbatim>\<open>register_chrdev\<close>.\<close>

definition power_dev_init :: "pm_env \<Rightarrow> bool \<Rightarrow> pm_st \<Rightarrow> unit res \<times> pm_st" where
  "power_dev_init e reg_ok s =
     (let s = s \<lparr> wl_table := replicate MAX_WAKELOCKS empty_wakelock \<rparr>
      in if \<not> reg_ok then (Inl EIO, s)
         else let s = snd (pm_wake_lock e display s);
                  s = snd (pm_wake_lock e ''PowerManagerService.WakeLocks'' s);
                  s = snd (pm_wake_unlock e ''PowerManagerService.WakeLocks'' s)
              in (Inr (), s))"

end
