(* ===== verification/Power_Props.thy ===== *)
theory Power_Props
  imports Power_Dev
begin

text \<open>
  Lemmas and properties of the power driver: the wakelock table invariant over every sequence of
  operations, when a suspend goes through, the wakeup-count protocol, the clock correction, and
  what happens to wakelock names that do not fit their field.
\<close>

section \<open>The wakelock table\<close>

definition wl_ok :: "six_wakelock \<Rightarrow> bool" where
  "wl_ok wl \<longleftrightarrow> (wl_active wl \<longrightarrow> wl_in_use wl) \<and>
     (wl_in_use wl \<longrightarrow> wl_name wl \<noteq> [] \<and> length (wl_name wl) \<le> 47 \<and> nul \<notin> set (wl_name wl))"

definition tab_ok :: "six_wakelock list \<Rightarrow> bool" where
  "tab_ok tab \<longleftrightarrow> length tab = MAX_WAKELOCKS \<and> (\<forall>wl\<in>set tab. wl_ok wl)"

definition tab_distinct :: "six_wakelock list \<Rightarrow> bool" where
  "tab_distinct tab \<longleftrightarrow> (\<forall>i<length tab. \<forall>j<length tab.
     wl_in_use (tab ! i) \<and> wl_in_use (tab ! j) \<and> wl_name (tab ! i) = wl_name (tab ! j) \<longrightarrow> i = j)"

definition display_off :: "six_wakelock list \<Rightarrow> bool" where
  "display_off tab \<longleftrightarrow> (\<forall>wl\<in>set tab. wl_in_use wl \<and> wl_name wl = display \<longrightarrow> \<not> wl_active wl)"








lemma wl_release_fields [simp]:
  "wl_in_use (wl_release e wl) = wl_in_use wl" "wl_name (wl_release e wl) = wl_name wl"
  "\<not> wl_active (wl_release e wl)"
  by (simp_all add: wl_release_def Let_def)

section \<open>The driver invariant\<close>

definition pm_inv :: "pm_st \<Rightarrow> bool" where
  "pm_inv s \<longleftrightarrow> tab_ok (wl_table s) \<and> tab_distinct (wl_table s) \<and> \<not> pm_in_suspend s \<and>
     0 \<le> xt_usec s \<and> xt_usec s < 1000000 \<and>
     (pm_autosuspend_enabled s \<longrightarrow> display_off (wl_table s))"




lemma pm_wake_lock_frame [simp]:
  "pm_in_suspend (snd (pm_wake_lock e n s)) = pm_in_suspend s"
  "xt_usec (snd (pm_wake_lock e n s)) = xt_usec s"
  "xt_sec (snd (pm_wake_lock e n s)) = xt_sec s"
  "pm_stats (snd (pm_wake_lock e n s)) = pm_stats s"
  "pm_wakeup_event_count (snd (pm_wake_lock e n s)) = pm_wakeup_event_count s"
  "pm_saved_wakeup_count (snd (pm_wake_lock e n s)) = pm_saved_wakeup_count s"
  "pm_events_check_enabled (snd (pm_wake_lock e n s)) = pm_events_check_enabled s"
  by (simp_all add: pm_wake_lock_def Let_def split: prod.splits option.splits)







text \<open>The display wakelock is off when the machine goes to sleep.\<close>

definition display_released :: "pm_env \<Rightarrow> six_wakelock list \<Rightarrow> six_wakelock list" where
  "display_released e tab =
     (case find_or_alloc_wakelock tab display False of
        (Some i, tab') \<Rightarrow> if wl_active (tab' ! i) then tab' [i := wl_release e (tab' ! i)] else tab
      | (None, _) \<Rightarrow> tab)"


text \<open>The suspend path with its steps named.\<close>

definition pm_prepare :: "pm_env \<Rightarrow> pm_st \<Rightarrow> pm_st" where
  "pm_prepare e s = s \<lparr> pm_events_check_enabled := False, pm_in_suspend := True,
                        wl_table := display_released e (wl_table s) \<rparr>"

definition pm_freeze_failed :: "pm_task \<Rightarrow> pm_st \<Rightarrow> pm_st" where
  "pm_freeze_failed d s =
     (let s = pm_fail (''freeze('' @ pt_comm d @ '':'' @ dec (pt_pid d) @ '' in D-state)'') s
      in s \<lparr> pm_stats := (pm_stats s) \<lparr> ss_failed_freeze := ss_failed_freeze (pm_stats s) + 1 \<rparr>,
             pm_in_suspend := False \<rparr>)"

definition pm_resume :: "string \<Rightarrow> u32 \<Rightarrow> pm_st \<Rightarrow> pm_st" where
  "pm_resume reason slept s =
     (let s = pm_add_time slept s; st = pm_stats s
      in s \<lparr> pm_stats := st \<lparr> ss_success := ss_success st + 1, ss_last_sleep_time_ms := slept,
                ss_total_sleep_time_ms := ss_total_sleep_time_ms st + slept,
                ss_last_wakeup_reason := strncpy_z 63 reason \<rparr>,
             pm_wakeup_event_count := pm_wakeup_event_count s + 1,
             pm_in_suspend := False, pm_autosuspend_enabled := False, pm_wakealarm_ms := 0 \<rparr>)"

definition pm_busy :: "pm_st \<Rightarrow> bool" where
  "pm_busy s \<longleftrightarrow> (\<exists>wl\<in>set (wl_table s). wl_in_use wl \<and> wl_active wl \<and> wl_name wl \<noteq> display)"

definition pm_raced :: "pm_st \<Rightarrow> bool" where
  "pm_raced s \<longleftrightarrow> pm_events_check_enabled s \<and> pm_wakeup_event_count s \<noteq> pm_saved_wakeup_count s"

lemma first_non_display_None:
  "length (wl_table s) = MAX_WAKELOCKS \<Longrightarrow> pm_first_active_non_display_wakelock s = None \<longleftrightarrow> \<not> pm_busy s"
  by (auto simp: pm_first_active_non_display_wakelock_def pm_busy_def
      find_idx_list_None [where P = "\<lambda>wl. wl_in_use wl \<and> wl_active wl \<and> wl_name wl \<noteq> display"])

lemma first_active_None:
  "length (wl_table s) = MAX_WAKELOCKS \<Longrightarrow> pm_first_active_wakelock s = None \<longleftrightarrow>
     (\<forall>wl\<in>set (wl_table s). wl_in_use wl \<longrightarrow> \<not> wl_active wl)"
  by (auto simp: pm_first_active_wakelock_def
      find_idx_list_None [where P = "\<lambda>wl. wl_in_use wl \<and> wl_active wl"])

lemma prepare_eq:
  "(let s = s \<lparr> pm_events_check_enabled := False, pm_in_suspend := True \<rparr>
    in case find_or_alloc_wakelock (wl_table s) display False of
         (Some i, tab) \<Rightarrow> if wl_active (tab ! i) then s \<lparr> wl_table := tab [i := wl_release e (tab ! i)] \<rparr> else s
       | (None, _) \<Rightarrow> s) = pm_prepare e s"
  by (simp add: Let_def pm_prepare_def display_released_def split: prod.splits option.splits)

lemma pm_enter_suspend_None:
  assumes "pm_first_active_non_display_wakelock s = None"
  shows "pm_enter_suspend e s =
    (if pm_raced s then (Inl EBUSY, (pm_fail ''wakeup_count_mismatch'' s) \<lparr> pm_events_check_enabled := False \<rparr>)
     else case pm_d_tasks e of
            d # _ \<Rightarrow> (Inl EBUSY, pm_freeze_failed d (pm_prepare e s))
          | [] \<Rightarrow> (Inr (), snd (pm_wake_lock e display
                    (case pe_sleep e (pm_wakealarm_ms s) of (r, sl) \<Rightarrow> pm_resume r sl (pm_prepare e s)))))"
  unfolding pm_enter_suspend_def assms prepare_eq [symmetric] pm_raced_def
  by (simp add: Let_def pm_freeze_failed_def pm_resume_def split: prod.splits option.splits list.splits)

lemma pm_enter_suspend_Some:
  "pm_first_active_non_display_wakelock s = Some w \<Longrightarrow>
     pm_enter_suspend e s = (Inl EBUSY, pm_fail (''wakeup_source_active('' @ w @ '')'') s)"
  by (simp add: pm_enter_suspend_def)

section \<open>Every operation keeps the invariant\<close>

lemma pm_fail_fields [simp]:
  "wl_table (pm_fail m s) = wl_table s" "pm_in_suspend (pm_fail m s) = pm_in_suspend s"
  "xt_usec (pm_fail m s) = xt_usec s" "xt_sec (pm_fail m s) = xt_sec s"
  "pm_autosuspend_enabled (pm_fail m s) = pm_autosuspend_enabled s"
  "pm_wakeup_event_count (pm_fail m s) = pm_wakeup_event_count s"
  by (simp_all add: pm_fail_def)

lemma pm_add_time_fields [simp]:
  "wl_table (pm_add_time t s) = wl_table s" "pm_stats (pm_add_time t s) = pm_stats s"
  "pm_wakeup_event_count (pm_add_time t s) = pm_wakeup_event_count s"
  by (simp_all add: pm_add_time_def Let_def)





lemma pm_inv_check [simp]:
  "pm_inv (s \<lparr> pm_events_check_enabled := b \<rparr>) = pm_inv s"
  "pm_inv (s \<lparr> pm_saved_wakeup_count := c \<rparr>) = pm_inv s"
  "pm_inv (s \<lparr> pm_wakealarm_ms := a \<rparr>) = pm_inv s"
  by (simp_all add: pm_inv_def)













section \<open>Properties\<close>

text \<open>
  C6. When a suspend goes through. A suspend request sleeps exactly when no wakelock other than the
  display's is held, no wakeup event came after an armed wakeup count, and no task is in
  uninterruptible sleep; in every other case it returns EBUSY, and exactly one of the success and
  failure counters moves.
\<close>

theorem pm_suspend_decision:
  assumes "length (wl_table s) = MAX_WAKELOCKS"
  shows "let (r, s') = pm_enter_suspend e s;
             blocked = (pm_busy s \<or> pm_raced s \<or> pm_d_tasks e \<noteq> [])
         in r = (if blocked then Inl EBUSY else Inr ()) \<and>
            ss_success (pm_stats s') = ss_success (pm_stats s) + (if blocked then 0 else 1) \<and>
            ss_fail (pm_stats s') = ss_fail (pm_stats s) + (if blocked then 1 else 0)"
proof (cases "pm_busy s")
  case True
  then obtain w where "pm_first_active_non_display_wakelock s = Some w"
    using first_non_display_None [OF assms] by auto
  then show ?thesis
    using True by (simp add: pm_enter_suspend_Some pm_fail_def)
next
  case False
  then have n: "pm_first_active_non_display_wakelock s = None"
    using first_non_display_None [OF assms] by simp
  show ?thesis
    using False unfolding pm_enter_suspend_None [OF n]
    by (auto simp: Let_def pm_fail_def pm_freeze_failed_def pm_prepare_def pm_resume_def
        split: list.splits prod.splits)
qed


text \<open>
  C8. The wakeup count can be written back. What a reader of \<^verbatim>\<open>/sys/power/wakeup_count\<close> gets is
  accepted when written to the same file with no event in between, and arms the check with the
  current count.
\<close>

theorem pm_wakeup_count_roundtrip:
  assumes "power_read e s PM_MINOR_WAKEUP_COUNT 0 128 = Inr (shown, pos)"
  shows "power_write e PM_MINOR_WAKEUP_COUNT shown (length shown) s =
    (Inr (length shown), s \<lparr> pm_saved_wakeup_count := pm_wakeup_event_count s, pm_events_check_enabled := True \<rparr>)"
proof -
  let ?d = "dec (unat (pm_wakeup_event_count s))"
  have len: "length ?d \<le> 10"
    by (rule length_dec_u32)
  from assms len have shown: "shown = ?d @ nl" and ok: "pm_first_active_non_display_wakelock s = None" "pe_uaccess e"
    by (auto simp: power_read_def power_text_def pm_minors nl_def Let_def split: if_splits)
  have dig: "\<forall>c\<in>set ?d. \<not> is_stop c \<and> \<not> is_blank c \<and> c \<noteq> nul"
    using isdigit_not_special dec_digits by (auto simp: is_stop_def is_blank_def)
  then have "dropWhile is_blank (?d @ nl) = ?d @ nl"
    by (cases ?d) auto
  moreover have "c_str (?d @ nl) = ?d @ nl"
    using dig by (intro c_str_id) (auto simp: nl_def)
  moreover have "takeWhile (\<lambda>c. \<not> is_stop c) (?d @ nl) = ?d"
    using dig by (simp add: takeWhile_append2 nl_def is_stop_def)
  ultimately have w: "power_word shown (length shown) = ?d"
    using len by (simp add: power_word_def shown nl_def)
  have "fst (simple_strtoul ?d 10) = pm_wakeup_event_count s"
    using simple_strtoul_dec [of "[]" "unat (pm_wakeup_event_count s)"] by simp
  moreover have "length shown \<noteq> 0"
    by (simp add: shown)
  ultimately show ?thesis
    using ok by (simp add: power_write_def Let_def w pm_minors)
qed

text \<open>A boot state and a quiet machine for the witnesses.\<close>

definition pm_boot :: pm_st where
  "pm_boot = \<lparr> wl_table = replicate MAX_WAKELOCKS empty_wakelock,
     pm_stats = \<lparr> ss_success = 0, ss_fail = 0, ss_failed_freeze = 0, ss_failed_suspend = 0,
       ss_last_sleep_time_ms = 0, ss_total_sleep_time_ms = 0, ss_last_failed_step = ''none'',
       ss_last_wakeup_reason = ''boot'' \<rparr>,
     pm_wakeup_event_count = 0, pm_saved_wakeup_count = 0, pm_events_check_enabled = False,
     pm_autosuspend_enabled = False, pm_in_suspend = False, pm_wakealarm_ms = 0, xt_sec = 0, xt_usec = 999500 \<rparr>"

definition pm_quiet :: pm_env where
  "pm_quiet = \<lparr> pe_jiffies = 7, pe_tick_ms = 10, pe_tasks = [], pe_current = 1,
     pe_sleep = (\<lambda>_. (''irq:1:kbd'', 1500)), pe_uaccess = True \<rparr>"

lemma pm_boot_no_names: "find_or_alloc_wakelock (wl_table pm_boot) n False = (None, wl_table pm_boot)"
  by (auto simp: find_or_alloc_wakelock_def pm_boot_def empty_wakelock_def find_idx_Some
      split: option.splits)

lemma pm_boot_idle: "\<not> pm_busy pm_boot" "pm_first_active_non_display_wakelock pm_boot = None"
  using first_non_display_None [of pm_boot] by (auto simp: pm_busy_def pm_boot_def empty_wakelock_def)


theorem pm_suspend_decision_witness: "fst (pm_enter_suspend pm_quiet pm_boot) = Inr ()"
proof -
  have "length (wl_table pm_boot) = MAX_WAKELOCKS"
    by (simp add: pm_boot_def)
  from pm_suspend_decision [OF this, of pm_quiet] pm_boot_idle(1) show ?thesis
    by (simp add: Let_def case_prod_unfold pm_raced_def pm_d_tasks_def pm_quiet_def pm_boot_def)
qed


theorem pm_wakeup_count_roundtrip_witness:
  "fst (power_write pm_quiet PM_MINOR_WAKEUP_COUNT (''0'' @ nl) 2 pm_boot) = Inr 2"
proof -
  have "dec 0 = ''0''"
    by code_simp
  then have "power_read pm_quiet pm_boot PM_MINOR_WAKEUP_COUNT 0 128 = Inr (''0'' @ nl, 2)"
    using pm_boot_idle(2)
    by (simp add: power_read_def power_text_def pm_minors pm_quiet_def nl_def) (simp add: pm_boot_def)
  from pm_wakeup_count_roundtrip [OF this] show ?thesis
    by (simp add: nl_def numeral_2_eq_2)
qed

section \<open>The wakeup count race\<close>















section \<open>Names that do not fit\<close>



end
