(* ===== verification/Binder.thy ===== *)
theory Binder
  imports Kernel_Lib
begin

text \<open>
  The Binder IPC driver (\<^verbatim>\<open>drivers/char/binder.c\<close>, \<^verbatim>\<open>include/linux/binder.h\<close>).

  A \<^verbatim>\<open>struct binder_proc *\<close> is the index of its slot in \<^verbatim>\<open>binder_procs\<close>. Transactions are
  heap objects that the sleeping caller and the target's queues share; they live in an explicit
  store from addresses to \<open>binder_txn\<close>, and the queues \<^verbatim>\<open>todo\<close> and \<^verbatim>\<open>in_flight\<close> are lists
  of addresses. A call that sleeps is split where it sleeps: the first part ends with the value
  \<open>Ret_sleep\<close>, and what the caller does when it runs again is a function of its own
  (\<open>binder_transact_wake\<close>). What the driver asks of the rest of the kernel (the calling task,
  the SELinux hooks, the USB disk, memory) is the record \<open>binder_env\<close>.
\<close>

section \<open>Data\<close>

definition BINDER_MAX_DATA_SIZE :: nat where "BINDER_MAX_DATA_SIZE = 2048"
definition BINDER_MAX_NAME_LEN :: nat where "BINDER_MAX_NAME_LEN = 64"
definition BINDER_MAX_DESC_LEN :: nat where "BINDER_MAX_DESC_LEN = 64"
definition BINDER_MAX_SERVICES :: nat where "BINDER_MAX_SERVICES = 32"
definition BINDER_MAX_PROCS :: nat where "BINDER_MAX_PROCS = 32"
definition BINDER_UEVENT_RING_SIZE :: nat where "BINDER_UEVENT_RING_SIZE = 8"
definition TF_ONE_WAY :: u32 where "TF_ONE_WAY = 0x01"
definition SVC_MGR_GET_SERVICE :: u32 where "SVC_MGR_GET_SERVICE = 1"
definition SVC_MGR_CHECK_SERVICE :: u32 where "SVC_MGR_CHECK_SERVICE = 2"
definition SVC_MGR_ADD_SERVICE :: u32 where "SVC_MGR_ADD_SERVICE = 3"
definition SVC_MGR_LIST_SERVICES :: u32 where "SVC_MGR_LIST_SERVICES = 4"
definition BINDER_CURRENT_PROTOCOL_VERSION :: int where "BINDER_CURRENT_PROTOCOL_VERSION = 8"

text \<open>The status of a transaction whose target died: \<^verbatim>\<open>-EPIPE\<close>.\<close>

definition minus_EPIPE :: int where "minus_EPIPE = -32"

record binder_ipc_msg =
  bm_target_handle :: int
  bm_code :: u32
  bm_flags :: u32
  bm_sender_pid :: int
  bm_sender_euid :: int
  bm_sender_secontext :: string
  bm_status :: int
  bm_reply_handle :: int
  bm_txn_id :: u32
  bm_interface_token :: string
  bm_data_size :: u32
  bm_data :: string

record binder_service_info =
  bi_handle :: int
  bi_owner_pid :: int
  bi_owner_uid :: int
  bi_owner_secontext :: string
  bi_txn_count :: u32
  bi_name :: string
  bi_descriptor :: string

record binder_uevent_msg =
  ue_action :: string
  ue_subsystem :: string
  ue_devpath :: string
  ue_devname :: string
  ue_major :: int
  ue_minor :: int
  ue_fstype :: string
  ue_uuid :: string
  ue_label :: string
  ue_seqnum :: u32
  ue_sectors :: u32
  ue_online :: int
  ue_raw_env :: string

record binder_txn =
  tx_txn_id :: u32
  tx_sender_proc :: nat
  tx_target_proc :: nat
  tx_msg :: binder_ipc_msg
  tx_done :: bool
  tx_delivered :: bool

record binder_proc =
  bp_in_use :: bool
  bp_pid :: int
  bp_uid :: int
  bp_comm :: string
  bp_max_threads :: int
  bp_is_context_mgr :: bool
  bp_txns_sent :: u32
  bp_txns_received :: u32
  bp_last_uevent_seq :: u32
  bp_todo :: "nat list"
  bp_in_flight :: "nat list"

record binder_svc_entry =
  sv_in_use :: bool
  sv_handle :: int
  sv_owner_pid :: int
  sv_owner_uid :: int
  sv_owner_secontext :: string
  sv_owner_proc :: "nat option"
  sv_txn_count :: u32
  sv_name :: string
  sv_descriptor :: string

text \<open>The static variables, and the store. \<open>b_brk\<close> is an address no transaction has had yet.\<close>

record binder_st =
  b_procs :: "binder_proc list"
  b_svcs :: "binder_svc_entry list"
  b_context_mgr :: "nat option"
  b_next_txn_id :: u32
  b_next_svc_handle :: int
  b_total_txns :: u32
  b_sync_txns :: u32
  b_oneway_txns :: u32
  b_replies :: u32
  b_uevent_ring :: "binder_uevent_msg list"
  b_uevent_seq :: u32
  b_heap :: "nat \<rightharpoonup> binder_txn"
  b_brk :: nat

text \<open>
  The calling task and the services of the kernel. A \<open>None\<close> of a check is a zero return;
  \<open>be_task_exists\<close> is the search of the task table; \<open>be_usb_meta\<close> is what
  \<^verbatim>\<open>usb_sd_get_meta\<close> returns (online, label, uuid, fstype, sectors).
\<close>

record binder_env =
  be_pid :: int
  be_euid :: int
  be_comm :: string
  be_secontext :: string
  be_signal :: bool
  be_uaccess :: bool
  be_kmalloc :: bool
  be_service_check :: "string \<Rightarrow> string \<Rightarrow> errno option"
  be_binder_transaction :: "int \<Rightarrow> errno option"
  be_set_context_mgr :: "errno option"
  be_task_exists :: "int \<Rightarrow> bool"
  be_usb_meta :: "int \<times> string \<times> string \<times> string \<times> u32"

definition empty_proc :: binder_proc where
  "empty_proc = \<lparr> bp_in_use = False, bp_pid = 0, bp_uid = 0, bp_comm = [], bp_max_threads = 0,
     bp_is_context_mgr = False, bp_txns_sent = 0, bp_txns_received = 0, bp_last_uevent_seq = 0,
     bp_todo = [], bp_in_flight = [] \<rparr>"

definition empty_svc :: binder_svc_entry where
  "empty_svc = \<lparr> sv_in_use = False, sv_handle = 0, sv_owner_pid = 0, sv_owner_uid = 0,
     sv_owner_secontext = [], sv_owner_proc = None, sv_txn_count = 0, sv_name = [], sv_descriptor = [] \<rparr>"

definition upd_proc :: "nat \<Rightarrow> (binder_proc \<Rightarrow> binder_proc) \<Rightarrow> binder_st \<Rightarrow> binder_st" where
  "upd_proc p f s = s \<lparr> b_procs := (b_procs s) [p := f (b_procs s ! p)] \<rparr>"

definition upd_svc :: "nat \<Rightarrow> (binder_svc_entry \<Rightarrow> binder_svc_entry) \<Rightarrow> binder_st \<Rightarrow> binder_st" where
  "upd_svc i f s = s \<lparr> b_svcs := (b_svcs s) [i := f (b_svcs s ! i)] \<rparr>"

definition upd_txn :: "nat \<Rightarrow> (binder_txn \<Rightarrow> binder_txn) \<Rightarrow> binder_st \<Rightarrow> binder_st" where
  "upd_txn a f s = s \<lparr> b_heap := (b_heap s) (a := map_option f (b_heap s a)) \<rparr>"

definition kfree_txn :: "nat \<Rightarrow> binder_st \<Rightarrow> binder_st" where
  "kfree_txn a s = s \<lparr> b_heap := (b_heap s) (a := None) \<rparr>"

definition one_way :: "binder_ipc_msg \<Rightarrow> bool" where
  "one_way m \<longleftrightarrow> bm_flags m AND TF_ONE_WAY \<noteq> 0"

section \<open>Services\<close>

definition binder_find_svc_by_name :: "binder_st \<Rightarrow> string \<Rightarrow> nat option" where
  "binder_find_svc_by_name s name =
     (if c_str name = [] then None
      else find_idx (\<lambda>i. sv_in_use (b_svcs s ! i) \<and> strcmp_eq (sv_name (b_svcs s ! i)) name) BINDER_MAX_SERVICES)"

definition binder_find_svc_by_handle :: "binder_st \<Rightarrow> int \<Rightarrow> nat option" where
  "binder_find_svc_by_handle s handle =
     (if handle \<le> 0 then None
      else find_idx (\<lambda>i. sv_in_use (b_svcs s ! i) \<and> sv_handle (b_svcs s ! i) = handle) BINDER_MAX_SERVICES)"

definition binder_register_service_internal ::
  "binder_env \<Rightarrow> nat \<Rightarrow> string \<Rightarrow> string \<Rightarrow> int \<Rightarrow> int \<Rightarrow> binder_st \<Rightarrow> int res \<times> binder_st" where
  "binder_register_service_internal e proc name descriptor owner_pid owner_uid s =
     (if c_str name = [] then (Inl EINVAL, s)
      else
        let cur_ctx = strncpy_z 63 (be_secontext e);
            o_pid = (if owner_pid \<noteq> 0 then owner_pid else bp_pid (b_procs s ! proc));
            o_uid = (if owner_uid \<noteq> 0 then owner_uid else bp_uid (b_procs s ! proc))
        in case binder_find_svc_by_name s name of
             Some i \<Rightarrow>
               (Inr (sv_handle (b_svcs s ! i)),
                upd_svc i (\<lambda>svc. svc \<lparr> sv_owner_pid := o_pid, sv_owner_uid := o_uid,
                   sv_owner_secontext := cur_ctx, sv_owner_proc := Some proc,
                   sv_descriptor := (if c_str descriptor \<noteq> [] then strncpy_z 63 descriptor
                                     else sv_descriptor svc) \<rparr>) s)
           | None \<Rightarrow>
               (case find_idx (\<lambda>i. \<not> sv_in_use (b_svcs s ! i)) BINDER_MAX_SERVICES of
                  None \<Rightarrow> (Inl ENOMEM, s)
                | Some i \<Rightarrow>
                    let h = b_next_svc_handle s;
                        s = s \<lparr> b_next_svc_handle := h + 1 \<rparr>
                    in (Inr h,
                        upd_svc i (\<lambda>_. empty_svc \<lparr> sv_in_use := True, sv_handle := h,
                           sv_owner_pid := o_pid, sv_owner_uid := o_uid, sv_owner_secontext := cur_ctx,
                           sv_owner_proc := Some proc, sv_name := strncpy_z 63 name,
                           sv_descriptor := (if c_str descriptor \<noteq> [] then strncpy_z 63 descriptor
                                             else ''android.os.IBinder'') \<rparr>) s)))"

definition binder_find_proc_by_pid :: "binder_st \<Rightarrow> int \<Rightarrow> nat option" where
  "binder_find_proc_by_pid s pid =
     find_idx (\<lambda>i. bp_in_use (b_procs s ! i) \<and> bp_pid (b_procs s ! i) = pid) BINDER_MAX_PROCS"

section \<open>Open and release\<close>

definition binder_open :: "binder_env \<Rightarrow> nat \<Rightarrow> binder_st \<Rightarrow> nat res \<times> binder_st" where
  "binder_open e minor s =
     (if minor \<noteq> 0 then (Inl ENXIO, s)
      else case find_idx (\<lambda>i. \<not> bp_in_use (b_procs s ! i)) BINDER_MAX_PROCS of
        None \<Rightarrow> (Inl ENOMEM, s)
      | Some p \<Rightarrow>
          (Inr p, upd_proc p (\<lambda>_. empty_proc \<lparr> bp_in_use := True, bp_pid := be_pid e, bp_uid := be_euid e,
             bp_comm := strncpy_z 15 (be_comm e), bp_max_threads := 15,
             bp_last_uevent_seq := b_uevent_seq s \<rparr>) s))"

text \<open>A transaction on a queue of a dying process.\<close>

definition binder_fail_txn :: "nat \<Rightarrow> binder_st \<Rightarrow> binder_st" where
  "binder_fail_txn a = upd_txn a (\<lambda>t. t \<lparr> tx_msg := (tx_msg t) \<lparr> bm_status := minus_EPIPE \<rparr>, tx_done := True \<rparr>)"

definition binder_release :: "nat \<Rightarrow> binder_st \<Rightarrow> binder_st" where
  "binder_release p s =
     (let s = (if b_context_mgr s = Some p then s \<lparr> b_context_mgr := None \<rparr> else s);
          s = fold (\<lambda>a s. case b_heap s a of
                 Some t \<Rightarrow> if one_way (tx_msg t) then kfree_txn a s else binder_fail_txn a s
               | None \<Rightarrow> s) (bp_todo (b_procs s ! p)) s;
          s = upd_proc p (\<lambda>pr. pr \<lparr> bp_todo := [] \<rparr>) s;
          s = fold binder_fail_txn (bp_in_flight (b_procs s ! p)) s;
          s = upd_proc p (\<lambda>pr. pr \<lparr> bp_in_flight := [] \<rparr>) s;
          s = s \<lparr> b_svcs := map (\<lambda>svc. if sv_in_use svc \<and> sv_owner_proc svc = Some p
                                      then svc \<lparr> sv_in_use := False, sv_owner_proc := None \<rparr> else svc) (b_svcs s) \<rparr>
      in upd_proc p (\<lambda>pr. pr \<lparr> bp_in_use := False \<rparr>) s)"

definition binder_select :: "nat \<Rightarrow> bool \<Rightarrow> binder_st \<Rightarrow> bool" where
  "binder_select p sel_in s \<longleftrightarrow> sel_in \<and> bp_todo (b_procs s ! p) \<noteq> []"

section \<open>Transactions\<close>

definition binder_enqueue_txn :: "nat \<Rightarrow> nat \<Rightarrow> binder_st \<Rightarrow> binder_st" where
  "binder_enqueue_txn target a = upd_proc target (\<lambda>pr. pr \<lparr> bp_todo := bp_todo pr @ [a] \<rparr>)"

datatype binder_ret =
    Ret_err errno
  | Ret_msg int binder_ipc_msg
  | Ret_sleep nat nat
  | Ret_info binder_service_info
  | Ret_uevent binder_uevent_msg
  | Ret_int int
  | Ret_ok
  | Ret_recv_sleep
  | Ret_wait_uevent binder_uevent_msg
  | Ret_wait_txn binder_ipc_msg
  | Ret_write_read "binder_ipc_msg option" "binder_ipc_msg option"

text \<open>The kernel's stamp on a message: the caller's identity and a cleared status.\<close>

definition binder_stamp :: "binder_env \<Rightarrow> binder_ipc_msg \<Rightarrow> binder_ipc_msg" where
  "binder_stamp e m = m \<lparr> bm_sender_pid := be_pid e, bm_sender_euid := be_euid e,
     bm_sender_secontext := be_secontext e, bm_status := 0 \<rparr>"

text \<open>The part of the call that finds the target: the handle is looked up, or the service manager's own requests are handled.\<close>

definition binder_resolve_target ::
  "binder_env \<Rightarrow> nat \<Rightarrow> binder_ipc_msg \<Rightarrow> binder_st \<Rightarrow> (binder_ipc_msg \<times> nat option) res \<times> binder_st" where
  "binder_resolve_target e sender kmsg s =
     (if bm_target_handle kmsg = 0 then
        let target = b_context_mgr s
        in if bm_code kmsg = SVC_MGR_ADD_SERVICE \<and> bm_data_size kmsg > 0 then
             (case be_service_check e (bm_data kmsg) ''add'' of
                Some err \<Rightarrow> (Inl err, s)
              | None \<Rightarrow>
                  let (h, s) = binder_register_service_internal e sender (bm_data kmsg)
                        (bm_interface_token kmsg) (bm_sender_pid kmsg) (bm_sender_euid kmsg) s
                  in (Inr (case h of Inr n \<Rightarrow> if n > 0 then kmsg \<lparr> bm_reply_handle := n \<rparr> else kmsg
                           | Inl _ \<Rightarrow> kmsg, target), s))
           else if (bm_code kmsg = SVC_MGR_GET_SERVICE \<or> bm_code kmsg = SVC_MGR_CHECK_SERVICE) \<and>
                   bm_data_size kmsg > 0 then
             (case be_service_check e (bm_data kmsg) ''find'' of
                Some err \<Rightarrow> (Inl err, s) | None \<Rightarrow> (Inr (kmsg, target), s))
           else if bm_code kmsg = SVC_MGR_LIST_SERVICES then
             (case be_service_check e ''*'' ''list'' of
                Some err \<Rightarrow> (Inl err, s) | None \<Rightarrow> (Inr (kmsg, target), s))
           else (Inr (kmsg, target), s)
      else case binder_find_svc_by_handle s (bm_target_handle kmsg) of
        None \<Rightarrow> (Inl ENOENT, s)
      | Some i \<Rightarrow>
          let s = upd_svc i (\<lambda>svc. svc \<lparr> sv_txn_count := sv_txn_count svc + 1 \<rparr>) s;
              svc = b_svcs s ! i;
              target = (case sv_owner_proc svc of
                          Some p \<Rightarrow> Some p
                        | None \<Rightarrow> if sv_owner_pid svc > 0 then binder_find_proc_by_pid s (sv_owner_pid svc) else None)
          in (Inr (kmsg, target), s))"

text \<open>The transaction is allocated, numbered, counted and put on the target's queue.\<close>

definition binder_queue_txn :: "nat \<Rightarrow> nat \<Rightarrow> binder_ipc_msg \<Rightarrow> binder_st \<Rightarrow> binder_ret \<times> binder_st" where
  "binder_queue_txn sender target kmsg s =
     (let a = b_brk s;
          id = b_next_txn_id s;
          kmsg = kmsg \<lparr> bm_txn_id := id \<rparr>;
          txn = \<lparr> tx_txn_id = id, tx_sender_proc = sender, tx_target_proc = target,
                  tx_msg = kmsg, tx_done = False, tx_delivered = False \<rparr>;
          s = s \<lparr> b_brk := a + 1, b_next_txn_id := id + 1,
                  b_heap := (b_heap s) (a \<mapsto> txn), b_total_txns := b_total_txns s + 1 \<rparr>;
          s = upd_proc sender (\<lambda>pr. pr \<lparr> bp_txns_sent := bp_txns_sent pr + 1 \<rparr>) s;
          s = upd_proc target (\<lambda>pr. pr \<lparr> bp_txns_received := bp_txns_received pr + 1 \<rparr>) s
      in if one_way kmsg
         then (Ret_msg 0 kmsg, binder_enqueue_txn target a (s \<lparr> b_oneway_txns := b_oneway_txns s + 1 \<rparr>))
         else (Ret_sleep a target, binder_enqueue_txn target a (s \<lparr> b_sync_txns := b_sync_txns s + 1 \<rparr>)))"

definition binder_do_transact :: "binder_env \<Rightarrow> nat \<Rightarrow> binder_ipc_msg \<Rightarrow> binder_st \<Rightarrow> binder_ret \<times> binder_st" where
  "binder_do_transact e sender umsg s =
     (if \<not> be_uaccess e then (Ret_err EFAULT, s)
      else case binder_resolve_target e sender (binder_stamp e umsg) s of
        (Inl err, s) \<Rightarrow> (Ret_err err, s)
      | (Inr (kmsg, None), s) \<Rightarrow> (Ret_err ECONNREFUSED, s)
      | (Inr (kmsg, Some target), s) \<Rightarrow>
          if \<not> bp_in_use (b_procs s ! target) then (Ret_err ECONNREFUSED, s)
          else if target = sender \<and> \<not> one_way kmsg then (Ret_err EDEADLK, s)
          else case (if be_task_exists e (bp_pid (b_procs s ! target))
                     then be_binder_transaction e (bp_pid (b_procs s ! target)) else None) of
            Some err \<Rightarrow> (Ret_err err, s)
          | None \<Rightarrow>
              if \<not> be_kmalloc e then (Ret_err ENOMEM, s)
              else binder_queue_txn sender target kmsg s)"

text \<open>
  What a sleeping caller does when it runs: \<open>None\<close> means it goes back to sleep.
\<close>

definition binder_transact_wake :: "nat \<Rightarrow> nat \<Rightarrow> binder_st \<Rightarrow> (binder_ret \<times> binder_st) option" where
  "binder_transact_wake a target s =
     (case b_heap s a of
        None \<Rightarrow> None
      | Some txn \<Rightarrow>
          if \<not> tx_done txn \<and> bp_in_use (b_procs s ! target) then None
          else if \<not> tx_done txn then
            let s = upd_proc target (\<lambda>pr. pr \<lparr> bp_todo := remove1 a (bp_todo pr),
                                              bp_in_flight := remove1 a (bp_in_flight pr) \<rparr>) s
            in Some (Ret_err EPIPE, kfree_txn a s)
          else Some (Ret_msg (bm_status (tx_msg txn)) (tx_msg txn), kfree_txn a s))"

text \<open>Taking the first transaction off the queue, as \<^verbatim>\<open>recv\<close> and \<^verbatim>\<open>wait_event\<close> do.\<close>

definition binder_deliver :: "nat \<Rightarrow> nat \<Rightarrow> binder_st \<Rightarrow> binder_st" where
  "binder_deliver p a s =
     (let s = upd_proc p (\<lambda>pr. pr \<lparr> bp_todo := tl (bp_todo pr) \<rparr>) s;
          s = upd_txn a (\<lambda>t. t \<lparr> tx_delivered := True \<rparr>) s
      in if one_way (tx_msg (the (b_heap s a))) then kfree_txn a s
         else upd_proc p (\<lambda>pr. pr \<lparr> bp_in_flight := a # bp_in_flight pr \<rparr>) s)"

definition binder_do_recv :: "binder_env \<Rightarrow> nat \<Rightarrow> bool \<Rightarrow> binder_st \<Rightarrow> binder_ret \<times> binder_st" where
  "binder_do_recv e p nonblock s =
     (if \<not> be_uaccess e then (Ret_err EFAULT, s)
      else case bp_todo (b_procs s ! p) of
        [] \<Rightarrow> (if nonblock then Ret_err EAGAIN
               else if be_signal e then Ret_err ERESTARTSYS else Ret_recv_sleep, s)
      | a # _ \<Rightarrow> (Ret_msg 0 (tx_msg (the (b_heap s a))), binder_deliver p a s))"

text \<open>The reply written into the caller's transaction.\<close>

definition binder_reply_txn :: "binder_ipc_msg \<Rightarrow> binder_txn \<Rightarrow> binder_txn" where
  "binder_reply_txn kmsg t =
     (let n = unat (bm_data_size kmsg)
      in t \<lparr> tx_msg := (tx_msg t) \<lparr> bm_status := bm_status kmsg,
               bm_reply_handle := bm_reply_handle kmsg, bm_data_size := bm_data_size kmsg,
               bm_data := (if 0 < n \<and> n \<le> BINDER_MAX_DATA_SIZE
                           then take n (bm_data kmsg) @ drop n (bm_data (tx_msg t))
                           else bm_data (tx_msg t)) \<rparr>,
             tx_done := True \<rparr>)"

definition binder_do_reply :: "binder_env \<Rightarrow> nat \<Rightarrow> binder_ipc_msg \<Rightarrow> binder_st \<Rightarrow> binder_ret \<times> binder_st" where
  "binder_do_reply e p kmsg s =
     (if \<not> be_uaccess e then (Ret_err EFAULT, s)
      else case List.find (\<lambda>a. tx_txn_id (the (b_heap s a)) = bm_txn_id kmsg \<or> bm_txn_id kmsg = 0)
                  (bp_in_flight (b_procs s ! p)) of
        None \<Rightarrow> (Ret_err ENOENT, s)
      | Some a \<Rightarrow>
          let s = upd_proc p (\<lambda>pr. pr \<lparr> bp_in_flight := remove1 a (bp_in_flight pr) \<rparr>) s;
              s = upd_txn a (binder_reply_txn kmsg) s
          in (Ret_ok, s \<lparr> b_replies := b_replies s + 1 \<rparr>))"

section \<open>The ioctl interface\<close>

definition svc_info :: "binder_svc_entry \<Rightarrow> binder_service_info" where
  "svc_info svc = \<lparr> bi_handle = sv_handle svc, bi_owner_pid = sv_owner_pid svc, bi_owner_uid = sv_owner_uid svc,
     bi_owner_secontext = sv_owner_secontext svc, bi_txn_count = sv_txn_count svc,
     bi_name = sv_name svc, bi_descriptor = sv_descriptor svc \<rparr>"

definition binder_set_context_mgr :: "binder_env \<Rightarrow> nat \<Rightarrow> binder_st \<Rightarrow> binder_ret \<times> binder_st" where
  "binder_set_context_mgr e p s =
     (if be_euid e \<noteq> 0 then (Ret_err EPERM, s)
      else case be_set_context_mgr e of
        Some err \<Rightarrow> (Ret_err err, s)
      | None \<Rightarrow>
          if b_context_mgr s \<noteq> None \<and> b_context_mgr s \<noteq> Some p then (Ret_err EBUSY, s)
          else (Ret_ok, upd_proc p (\<lambda>pr. pr \<lparr> bp_is_context_mgr := True \<rparr>) (s \<lparr> b_context_mgr := Some p \<rparr>)))"

definition binder_register_svc :: "binder_env \<Rightarrow> nat \<Rightarrow> binder_service_info \<Rightarrow> binder_st \<Rightarrow> binder_ret \<times> binder_st" where
  "binder_register_svc e p info s =
     (if \<not> be_uaccess e then (Ret_err EFAULT, s)
      else case be_service_check e (bi_name info) ''add'' of
        Some err \<Rightarrow> (Ret_err err, s)
      | None \<Rightarrow>
          (case (case b_context_mgr s of
                   Some m \<Rightarrow> if m \<noteq> p \<and> be_task_exists e (bp_pid (b_procs s ! m))
                              then be_binder_transaction e (bp_pid (b_procs s ! m)) else None
                 | None \<Rightarrow> None) of
             Some err \<Rightarrow> (Ret_err err, s)
           | None \<Rightarrow>
               (case binder_register_service_internal e p (bi_name info) (bi_descriptor info) (be_pid e) (be_euid e) s of
                  (Inl err, s) \<Rightarrow> (Ret_err err, s)
                | (Inr h, s) \<Rightarrow>
                    (Ret_info (info \<lparr> bi_handle := h, bi_owner_pid := be_pid e, bi_owner_uid := be_euid e,
                                      bi_owner_secontext := be_secontext e \<rparr>), s))))"

definition binder_lookup_svc :: "binder_env \<Rightarrow> binder_service_info \<Rightarrow> binder_st \<Rightarrow> binder_ret" where
  "binder_lookup_svc e info s =
     (if \<not> be_uaccess e then Ret_err EFAULT
      else case (if c_str (bi_name info) \<noteq> [] then binder_find_svc_by_name s (bi_name info)
                 else binder_find_svc_by_handle s (bi_handle info)) of
        None \<Rightarrow> Ret_err ENOENT
      | Some i \<Rightarrow>
          (case be_service_check e (sv_name (b_svcs s ! i)) ''find'' of
             Some err \<Rightarrow> Ret_err err
           | None \<Rightarrow> Ret_info (svc_info (b_svcs s ! i))))"

text \<open>The caller passes a 0-based position among the registered services in \<^verbatim>\<open>handle\<close>.\<close>

definition binder_list_svcs :: "binder_env \<Rightarrow> binder_service_info \<Rightarrow> binder_st \<Rightarrow> binder_ret" where
  "binder_list_svcs e info s =
     (if \<not> be_uaccess e then Ret_err EFAULT
      else case be_service_check e ''*'' ''list'' of
        Some err \<Rightarrow> Ret_err err
      | None \<Rightarrow>
          if bi_handle info < 0 then Ret_err EINVAL
          else let used = filter sv_in_use (b_svcs s); idx = nat (bi_handle info)
               in if idx < length used then Ret_info (svc_info (used ! idx)) else Ret_err ENOENT)"

definition binder_read_part :: "binder_env \<Rightarrow> nat \<Rightarrow> bool \<Rightarrow> binder_ipc_msg option \<Rightarrow> binder_st \<Rightarrow> binder_ret \<times> binder_st" where
  "binder_read_part e p rd w s =
     (if rd then (case binder_do_recv e p True s of
                    (Ret_msg _ m, s) \<Rightarrow> (Ret_write_read w (Some m), s)
                  | (_, s) \<Rightarrow> (Ret_write_read w None, s))
      else (Ret_write_read w None, s))"

text \<open>
  \<^verbatim>\<open>BINDER_WRITE_READ\<close>: an optional call, then an optional non-blocking receive. A synchronous
  call sleeps in between; \<open>binder_write_read_wake\<close> is the rest of the ioctl.
\<close>

definition binder_write_read ::
  "binder_env \<Rightarrow> nat \<Rightarrow> binder_ipc_msg option \<Rightarrow> bool \<Rightarrow> binder_st \<Rightarrow> binder_ret \<times> binder_st" where
  "binder_write_read e p w rd s =
     (if \<not> be_uaccess e then (Ret_err EFAULT, s)
      else case w of
        None \<Rightarrow> binder_read_part e p rd None s
      | Some m \<Rightarrow>
          (case binder_do_transact e p m s of
             (Ret_msg st m', s) \<Rightarrow> if st = 0 then binder_read_part e p rd (Some m') s else (Ret_msg st m', s)
           | (r, s) \<Rightarrow> (r, s)))"

definition binder_write_read_wake ::
  "binder_env \<Rightarrow> nat \<Rightarrow> nat \<Rightarrow> nat \<Rightarrow> bool \<Rightarrow> binder_st \<Rightarrow> (binder_ret \<times> binder_st) option" where
  "binder_write_read_wake e p a target rd s =
     (case binder_transact_wake a target s of
        None \<Rightarrow> None
      | Some (Ret_msg st m, s) \<Rightarrow>
          Some (if st = 0 then binder_read_part e p rd (Some m) s else (Ret_msg st m, s))
      | Some (r, s) \<Rightarrow> Some (r, s))"

subsection \<open>Uevents\<close>

text \<open>What the driver asks of the USB disk driver while it handles an event.\<close>

datatype usb_cmd = Usb_online string string string | Usb_offline

definition dflt :: "string \<Rightarrow> string \<Rightarrow> string" where
  "dflt v d = (if c_str v = [] then d else c_str v)"

definition int_dec :: "int \<Rightarrow> string" where
  "int_dec i = (if i < 0 then ''-'' @ dec (nat (- i)) else dec (nat i))"

definition uevent_env :: "binder_uevent_msg \<Rightarrow> string" where
  "uevent_env k =
     (let n = [CHR 0x0A]
      in c_str (ue_action k) @ ''@'' @ ue_devpath k @ n @ ''ACTION='' @ c_str (ue_action k) @ n @
         ''DEVPATH='' @ ue_devpath k @ n @ ''SUBSYSTEM='' @ ue_subsystem k @ n @
         ''DEVNAME='' @ ue_devname k @ n @ ''MAJOR='' @ int_dec (ue_major k) @ n @
         ''MINOR='' @ int_dec (ue_minor k) @ n @ ''ID_FS_TYPE='' @ ue_fstype k @ n @
         ''ID_FS_UUID='' @ ue_uuid k @ n @ ''ID_FS_LABEL='' @ ue_label k @ n @
         ''SEQNUM='' @ dec (unat (ue_seqnum k)) @ n)"

definition binder_uevent_emit ::
  "binder_env \<Rightarrow> binder_uevent_msg \<Rightarrow> binder_st \<Rightarrow> binder_ret \<times> usb_cmd option \<times> binder_st" where
  "binder_uevent_emit e kev s =
     (if \<not> be_uaccess e then (Ret_err EFAULT, None, s)
      else
        let kev = kev \<lparr> ue_subsystem := dflt (ue_subsystem kev) ''block'',
                        ue_devpath := dflt (ue_devpath kev) ''/devices/pci0000:00/usb1/1-1/block/sda/sda1'',
                        ue_devname := dflt (ue_devname kev) ''sda1'',
                        ue_major := (if ue_major kev \<le> 0 then 8 else ue_major kev),
                        ue_minor := (if ue_minor kev \<le> 0 then 1 else ue_minor kev),
                        ue_fstype := dflt (ue_fstype kev) ''ext2'',
                        ue_uuid := dflt (ue_uuid kev) ''4A8F-9C21'',
                        ue_label := dflt (ue_label kev) ''SAN_DISK_USB'' \<rparr>;
            act = c_str (ue_action kev);
            on_cmd = Usb_online (ue_label kev) (ue_uuid kev) (ue_fstype kev)
        in if act = ''prepare'' then (Ret_uevent (kev \<lparr> ue_online := 1, ue_sectors := 4096 \<rparr>), Some on_cmd, s)
           else
             let (kev, cmd) =
                   (if act = ''add'' then (kev \<lparr> ue_online := 1, ue_sectors := 4096 \<rparr>, Some on_cmd)
                    else if act = ''remove'' then (kev \<lparr> ue_online := 0, ue_sectors := 0 \<rparr>, Some Usb_offline)
                    else case be_usb_meta e of (online, label, uuid, fstype, sectors) \<Rightarrow>
                      (kev \<lparr> ue_online := online, ue_label := label, ue_uuid := uuid, ue_fstype := fstype,
                             ue_sectors := sectors \<rparr>, None));
                 seq = b_uevent_seq s + 1;
                 kev = kev \<lparr> ue_seqnum := seq \<rparr>;
                 kev = kev \<lparr> ue_raw_env := uevent_env kev \<rparr>
             in (Ret_uevent kev, cmd,
                 s \<lparr> b_uevent_seq := seq,
                     b_uevent_ring := (b_uevent_ring s) [unat seq mod BINDER_UEVENT_RING_SIZE := kev] \<rparr>))"

text \<open>The next event for a process that has some pending, as poll and wait\_event compute it.\<close>

definition binder_next_uevent :: "nat \<Rightarrow> binder_st \<Rightarrow> binder_uevent_msg \<times> binder_st" where
  "binder_next_uevent p s =
     (let last = bp_last_uevent_seq (b_procs s ! p) + 1;
          last = (if b_uevent_seq s - last \<ge> of_nat BINDER_UEVENT_RING_SIZE then b_uevent_seq s else last)
      in (b_uevent_ring s ! (unat last mod BINDER_UEVENT_RING_SIZE),
          upd_proc p (\<lambda>pr. pr \<lparr> bp_last_uevent_seq := last \<rparr>) s))"

definition binder_uevent_poll :: "binder_env \<Rightarrow> nat \<Rightarrow> binder_st \<Rightarrow> binder_ret \<times> binder_st" where
  "binder_uevent_poll e p s =
     (if \<not> be_uaccess e then (Ret_err EFAULT, s)
      else if bp_last_uevent_seq (b_procs s ! p) \<ge> b_uevent_seq s then (Ret_err EAGAIN, s)
      else let (kev, s) = binder_next_uevent p s in (Ret_uevent kev, s))"

definition binder_usb_status :: "binder_env \<Rightarrow> binder_st \<Rightarrow> binder_ret" where
  "binder_usb_status e s =
     (if \<not> be_uaccess e then Ret_err EFAULT
      else case be_usb_meta e of (online, label, uuid, fstype, sectors) \<Rightarrow>
        Ret_uevent \<lparr> ue_action = [], ue_subsystem = ''block'',
          ue_devpath = ''/devices/pci0000:00/usb1/1-1/block/sda/sda1'', ue_devname = ''sda1'',
          ue_major = 8, ue_minor = 1, ue_fstype = fstype, ue_uuid = uuid, ue_label = label,
          ue_seqnum = b_uevent_seq s, ue_sectors = sectors, ue_online = online, ue_raw_env = [] \<rparr>)"

definition binder_wait_event :: "binder_env \<Rightarrow> nat \<Rightarrow> binder_st \<Rightarrow> binder_ret \<times> binder_st" where
  "binder_wait_event e p s =
     (if \<not> be_uaccess e then (Ret_err EFAULT, s)
      else if bp_last_uevent_seq (b_procs s ! p) < b_uevent_seq s then
        (let (kev, s) = binder_next_uevent p s in (Ret_wait_uevent kev, s))
      else case bp_todo (b_procs s ! p) of
        [] \<Rightarrow> (if be_signal e then Ret_err ERESTARTSYS else Ret_recv_sleep, s)
      | a # _ \<Rightarrow> (Ret_wait_txn (tx_msg (the (b_heap s a))), binder_deliver p a s))"

subsection \<open>Dispatch\<close>

datatype binder_cmd =
    BINDER_VERSION
  | BINDER_SET_MAX_THREADS "int option"
  | BINDER_SET_CONTEXT_MGR
  | BINDER_IOC_TRANSACT binder_ipc_msg
  | BINDER_IOC_RECV bool
  | BINDER_IOC_REPLY binder_ipc_msg
  | BINDER_IOC_REGISTER_SVC binder_service_info
  | BINDER_IOC_LOOKUP_SVC binder_service_info
  | BINDER_IOC_LIST_SVCS binder_service_info
  | BINDER_WRITE_READ "binder_ipc_msg option" bool
  | BINDER_IOC_RECV_NONBLOCK
  | BINDER_IOC_UEVENT_EMIT binder_uevent_msg
  | BINDER_IOC_UEVENT_POLL
  | BINDER_IOC_USB_STATUS
  | BINDER_IOC_WAIT_EVENT
  | BINDER_IOC_UNKNOWN

fun binder_ioctl :: "binder_env \<Rightarrow> nat \<Rightarrow> binder_cmd \<Rightarrow> binder_st \<Rightarrow> binder_ret \<times> binder_st" where
  "binder_ioctl e p BINDER_VERSION s =
     (if \<not> be_uaccess e then Ret_err EFAULT else Ret_int BINDER_CURRENT_PROTOCOL_VERSION, s)"
| "binder_ioctl e p (BINDER_SET_MAX_THREADS arg) s =
     (Ret_ok, upd_proc p (\<lambda>pr. pr \<lparr> bp_max_threads :=
        (case arg of Some n \<Rightarrow> if be_uaccess e then n else 15 | None \<Rightarrow> 15) \<rparr>) s)"
| "binder_ioctl e p BINDER_SET_CONTEXT_MGR s = binder_set_context_mgr e p s"
| "binder_ioctl e p (BINDER_IOC_TRANSACT m) s = binder_do_transact e p m s"
| "binder_ioctl e p (BINDER_IOC_RECV nb) s = binder_do_recv e p nb s"
| "binder_ioctl e p (BINDER_IOC_REPLY m) s = binder_do_reply e p m s"
| "binder_ioctl e p (BINDER_IOC_REGISTER_SVC info) s = binder_register_svc e p info s"
| "binder_ioctl e p (BINDER_IOC_LOOKUP_SVC info) s = (binder_lookup_svc e info s, s)"
| "binder_ioctl e p (BINDER_IOC_LIST_SVCS info) s = (binder_list_svcs e info s, s)"
| "binder_ioctl e p (BINDER_WRITE_READ w rd) s = binder_write_read e p w rd s"
| "binder_ioctl e p BINDER_IOC_RECV_NONBLOCK s = binder_do_recv e p True s"
| "binder_ioctl e p (BINDER_IOC_UEVENT_EMIT k) s = (case binder_uevent_emit e k s of (r, _, s) \<Rightarrow> (r, s))"
| "binder_ioctl e p BINDER_IOC_UEVENT_POLL s = binder_uevent_poll e p s"
| "binder_ioctl e p BINDER_IOC_USB_STATUS s = (binder_usb_status e s, s)"
| "binder_ioctl e p BINDER_IOC_WAIT_EVENT s = binder_wait_event e p s"
| "binder_ioctl e p BINDER_IOC_UNKNOWN s = (Ret_err EINVAL, s)"

end
