(* ===== verification/Binder_IPC.thy ===== *)
theory Binder_IPC
  imports Binder_Run
begin

text \<open>
  What users of the Binder driver rely on: callers are never stranded, a dead target is reported,
  sender identity cannot be forged, calls to one service arrive in order, a reply reaches the call
  it answers, a registered service is found, and a uevent reaches a polling process.
\<close>

section \<open>A small run, for the concrete instances\<close>

text \<open>Two processes open the device; the first becomes the context manager and the second calls it.\<close>

definition demo_env :: "int \<Rightarrow> binder_env" where
  "demo_env pid = \<lparr> be_pid = pid, be_euid = 0, be_comm = ''app'', be_secontext = ''u:r:app'', be_signal = False,
     be_uaccess = True, be_kmalloc = True, be_service_check = (\<lambda>_ _. None), be_binder_transaction = (\<lambda>_. None),
     be_set_context_mgr = None, be_task_exists = (\<lambda>_. True), be_usb_meta = (0, [], [], [], 0) \<rparr>"

definition demo_msg :: binder_ipc_msg where
  "demo_msg = \<lparr> bm_target_handle = 0, bm_code = 9, bm_flags = 0, bm_sender_pid = 0, bm_sender_euid = 0,
     bm_sender_secontext = [], bm_status = 0, bm_reply_handle = 0, bm_txn_id = 0, bm_interface_token = [],
     bm_data_size = 0, bm_data = [] \<rparr>"

definition demo_info :: binder_service_info where
  "demo_info = \<lparr> bi_handle = 0, bi_owner_pid = 0, bi_owner_uid = 0, bi_owner_secontext = [], bi_txn_count = 0,
     bi_name = ''media'', bi_descriptor = [] \<rparr>"

definition demo2 :: binder_st where
  "demo2 = snd (binder_open (demo_env 20) 0 (snd (binder_open (demo_env 10) 0 binder_boot)))"

definition demo3 :: binder_st where
  "demo3 = snd (binder_ioctl (demo_env 10) 0 BINDER_SET_CONTEXT_MGR demo2)"

definition demo4 :: binder_st where
  "demo4 = snd (binder_ioctl (demo_env 20) 1 (BINDER_IOC_TRANSACT demo_msg) demo3)"

definition demo5 :: binder_st where
  "demo5 = snd (binder_ioctl (demo_env 10) 0 (BINDER_IOC_REGISTER_SVC demo_info) demo2)"

lemma demo_use: "inuse demo2 0" "inuse demo2 1" "inuse demo3 0" "inuse demo3 1" "inuse demo4 0" "inuse demo5 0" "inuse demo5 1"
  by code_simp+

lemma demo_todo: "bp_todo (b_procs demo4 ! 0) = [0]" "bp_todo (b_procs demo3 ! 0) = []" "bp_todo (b_procs demo5 ! 0) = []"
  by code_simp+


lemma demo_heap: "b_heap demo4 0 = Some (the (b_heap demo4 0))" "\<not> tx_done (the (b_heap demo4 0))"
    "tx_target_proc (the (b_heap demo4 0)) = 0" "\<not> one_way (tx_msg (the (b_heap demo4 0)))"
  by code_simp+


lemma demo_reach: "binder_reach demo2" "binder_reach demo3" "binder_reach demo4" "binder_reach demo5"
proof -
  show r2: "binder_reach demo2"
    unfolding demo2_def by (rule br_step [OF br_step [OF br_boot st_open] st_open])
  show r3: "binder_reach demo3"
    unfolding demo3_def by (rule br_step [OF r2 st_ioctl [OF demo_use(1)]])
  show "binder_reach demo4"
    unfolding demo4_def by (rule br_step [OF r3 st_ioctl [OF demo_use(4)]])
  show "binder_reach demo5"
    unfolding demo5_def by (rule br_step [OF r2 st_ioctl [OF demo_use(1)]])
qed

section \<open>Callers and queues\<close>





text \<open>
  C14. Death of a target. After a process closes the device it owns no service, it is not the
  context manager, and its queues are empty; every synchronous call that was pending at it returns
  \<^verbatim>\<open>-EPIPE\<close> when the caller runs next, every one-way call queued at it is freed, and
  calls pending at other processes are untouched.
\<close>

theorem binder_release_reports_death:
  assumes "binder_reach s" and "inuse s p"
  shows "(\<forall>i<BINDER_MAX_SERVICES. sv_in_use (b_svcs (binder_release p s) ! i) \<longrightarrow>
        sv_owner_proc (b_svcs (binder_release p s) ! i) \<noteq> Some p) \<and>
    b_context_mgr (binder_release p s) \<noteq> Some p \<and> \<not> inuse (binder_release p s) p \<and>
    (\<forall>a t. b_heap s a = Some t \<and> \<not> tx_done t \<longrightarrow>
       (if tx_target_proc t \<noteq> p then b_heap (binder_release p s) a = Some t
        else if one_way (tx_msg t) then b_heap (binder_release p s) a = None
        else \<exists>m s'. binder_transact_wake a p (binder_release p s) = Some (Ret_msg minus_EPIPE m, s')))"
proof -
  note i = reach_inv [OF assms(1)]
  note ti = binder_inv_tinv [OF i]
  note eff = release_effect [OF i inuse_nth [OF assms(2), THEN conjunct1]]
  have len: "length (b_svcs s) = BINDER_MAX_SERVICES"
    using i by (simp add: binder_inv_def sinv_def)
  have "if tx_target_proc t \<noteq> p then b_heap (binder_release p s) a = Some t
        else if one_way (tx_msg t) then b_heap (binder_release p s) a = None
        else \<exists>m s'. binder_transact_wake a p (binder_release p s) = Some (Ret_msg minus_EPIPE m, s')"
    if h: "b_heap s a = Some t" "\<not> tx_done t" for a t
  proof (cases "tx_target_proc t = p")
    case False
    then have "a \<notin> set (todo s p)" "a \<notin> set (flight s p)"
      using tinv_dest(4) [OF ti, of a p] h by auto
    with False show ?thesis
      using h by (simp add: eff(4) release_heap_def)
  next
    case True
    then have "a \<in> set (todo s p) \<or> a \<in> set (flight s p)"
      using tinv_dest(7) [OF ti h] by simp
    moreover have "\<not> one_way (tx_msg t)" if "a \<in> set (flight s p)"
      using tinv_dest(5) [OF ti that h(1)] .
    ultimately have "b_heap (binder_release p s) a = (if one_way (tx_msg t) then None else Some (fail_txn t))"
      using h by (auto simp: eff(4) release_heap_def)
    with True show ?thesis
      by (simp add: binder_transact_wake_def fail_txn_def)
  qed
  then show ?thesis
    using eff(1,6,7) len by (auto simp: drop_svcs_def)
qed

theorem binder_release_reports_death_witness:
  "\<exists>m s'. binder_transact_wake 0 0 (binder_release 0 demo4) = Some (Ret_msg minus_EPIPE m, s')"
  using binder_release_reports_death [OF demo_reach(3) demo_use(5)] demo_heap by metis

section \<open>Identity\<close>





section \<open>Order of delivery\<close>

text \<open>
  A queue as its users see it: \<open>put\<close> appends an item, \<open>get\<close> takes the oldest one. \<open>drain\<close> takes
  \<open>n\<close> items.
\<close>

primrec drain :: "('q \<Rightarrow> 'b \<times> 'q) \<Rightarrow> nat \<Rightarrow> 'q \<Rightarrow> 'b list \<times> 'q" where
  "drain get 0 q = ([], q)"
| "drain get (Suc n) q = (case get q of (x, q) \<Rightarrow> case drain get n q of (xs, q) \<Rightarrow> (x # xs, q))"

locale fifo =
  fixes ok :: "'q \<Rightarrow> bool" and content :: "'q \<Rightarrow> 'b list" and item :: "'a \<Rightarrow> 'b"
    and put :: "'a \<Rightarrow> 'q \<Rightarrow> 'q" and get :: "'q \<Rightarrow> 'b option \<times> 'q"
  assumes put_ok: "ok q \<Longrightarrow> ok (put x q)"
    and put_content: "ok q \<Longrightarrow> content (put x q) = content q @ [item x]"
    and get_ok: "ok q \<Longrightarrow> ok (snd (get q))"
    and get_content: "ok q \<Longrightarrow> content q = y # ys \<Longrightarrow> fst (get q) = Some y \<and> content (snd (get q)) = ys"
begin

lemma puts: "ok q \<Longrightarrow> ok (fold put xs q) \<and> content (fold put xs q) = content q @ map item xs"
  by (induction xs arbitrary: q) (simp_all add: put_ok put_content)

lemma drain_all: "ok q \<Longrightarrow> content q = ys \<Longrightarrow> fst (drain get (length ys) q) = map Some ys"
proof (induction ys arbitrary: q)
  case (Cons y ys)
  from get_content [OF Cons.prems] Cons.IH [OF get_ok [OF Cons.prems(1)]] show ?case
    by (auto split: prod.splits)
qed simp

lemma in_order:
  assumes "ok q" and "content q = []"
  shows "fst (drain get (length xs) (fold put xs q)) = map (Some \<circ> item) xs"
  using drain_all [of "fold put xs q" "map item xs"] puts [OF assms(1), of xs] assms(2) by simp

end

definition permits :: "binder_env \<Rightarrow> bool" where
  "permits e \<longleftrightarrow> be_uaccess e \<and> be_kmalloc e \<and> (\<forall>pid. be_binder_transaction e pid = None)"

text \<open>A message as the receiver sees it, up to the number the driver gives it.\<close>

definition plain :: "binder_ipc_msg \<Rightarrow> binder_ipc_msg" where
  "plain m = m \<lparr> bm_txn_id := 0 \<rparr>"

text \<open>Calls to the service with handle \<open>h\<close>, and receiving at its owner.\<close>

definition call_handle :: "binder_env \<Rightarrow> nat \<Rightarrow> int \<Rightarrow> binder_ipc_msg \<Rightarrow> binder_st \<Rightarrow> binder_st" where
  "call_handle e q h m s = snd (binder_do_transact e q (m \<lparr> bm_target_handle := h \<rparr>) s)"

definition take_txn :: "binder_env \<Rightarrow> nat \<Rightarrow> binder_st \<Rightarrow> binder_ipc_msg option \<times> binder_st" where
  "take_txn e p s = (case binder_do_recv e p True s of
     (Ret_msg _ m, s) \<Rightarrow> (Some (plain m), s) | (_, s) \<Rightarrow> (None, s))"

definition serves :: "nat \<Rightarrow> nat \<Rightarrow> int \<Rightarrow> binder_st \<Rightarrow> bool" where
  "serves p q h s \<longleftrightarrow> binder_inv s \<and> inuse s p \<and> inuse s q \<and> p \<noteq> q \<and> h \<noteq> 0 \<and>
     (\<exists>i. binder_find_svc_by_handle s h = Some i \<and> sv_owner_proc (b_svcs s ! i) = Some p)"

definition waiting :: "nat \<Rightarrow> binder_st \<Rightarrow> binder_ipc_msg list" where
  "waiting p s = map (\<lambda>a. plain (tx_msg (the (b_heap s a)))) (todo s p)"

lemma call_effect:
  assumes "serves p q h s" and "permits e"
  obtains t s1 where "serves p q h (call_handle e q h m s)"
    and "todo (call_handle e q h m s) = (todo s) (p := todo s p @ [b_brk s])"
    and "b_heap (call_handle e q h m s) = (b_heap s) (b_brk s \<mapsto> t)"
    and "plain (tx_msg t) = plain (binder_stamp e (m \<lparr> bm_target_handle := h \<rparr>))"
proof -
  from assms(1) obtain i where f: "binder_find_svc_by_handle s h = Some i" "sv_owner_proc (b_svcs s ! i) = Some p"
    by (auto simp: serves_def)
  have i: "binder_inv s" "inuse s p" "inuse s q" "p \<noteq> q" "h \<noteq> 0"
    using assms(1) by (auto simp: serves_def)
  let ?m = "m \<lparr> bm_target_handle := h \<rparr>"
  let ?s1 = "upd_svc i (\<lambda>svc. svc \<lparr> sv_txn_count := sv_txn_count svc + 1 \<rparr>) s"
  have il: "i < length (b_svcs s)"
    using find_svc_by_handle_Some [OF f(1)] i(1) by (simp add: binder_inv_def sinv_def)
  have res: "binder_resolve_target e q (binder_stamp e ?m) s = (Inr (binder_stamp e ?m, Some p), ?s1)"
    using f i(5) il by (simp add: binder_resolve_target_def binder_stamp_def Let_def)
  obtain r s' where q: "binder_queue_txn q p (binder_stamp e ?m) ?s1 = (r, s')"
    by (cases "binder_queue_txn q p (binder_stamp e ?m) ?s1")
  have tr: "binder_do_transact e q ?m s = (r, s')"
    using res q assms(2) i by (simp add: binder_do_transact_def permits_def inuse_def)
  have pq: "p < length (b_procs ?s1)" "q < length (b_procs ?s1)"
    using i by (simp_all add: inuse_def)
  note eff = queue_txn_effect [OF q pq]
  have v: "inuse ?s1 = inuse s" "todo ?s1 = todo s"
    by (rule view_cong, simp)+
  have c: "call_handle e q h m s = s'"
    by (simp add: call_handle_def tr)
  have same: "sv_in_use (b_svcs s' ! j) = sv_in_use (b_svcs s ! j)" "sv_handle (b_svcs s' ! j) = sv_handle (b_svcs s ! j)"
      "sv_owner_proc (b_svcs s' ! j) = sv_owner_proc (b_svcs s ! j)" for j
    using eff(5) il by (auto simp: nth_list_update)
  have "binder_find_svc_by_handle s' h = Some i"
    using f(1) by (simp add: binder_find_svc_by_handle_def same split: if_splits)
  then have "serves p q h s'"
    using transact_inv [OF i(1,3) tr] eff(1) i f(2) v by (simp add: serves_def same)
  moreover obtain t where "b_heap s' = (b_heap s) (b_brk s \<mapsto> t)"
      "tx_msg t = binder_stamp e ?m \<lparr> bm_txn_id := b_next_txn_id s \<rparr>"
    using eff(10) by auto
  moreover have "todo s' = (todo s) (p := todo s p @ [b_brk s])"
    using eff(3) v by simp
  ultimately show ?thesis
    using that [of t] by (simp add: c plain_def)
qed

lemma call_waiting:
  assumes "serves p q h s" and "permits e"
  shows "waiting p (call_handle e q h m s) = waiting p s @ [plain (binder_stamp e (m \<lparr> bm_target_handle := h \<rparr>))]"
proof -
  obtain t where t: "todo (call_handle e q h m s) = (todo s) (p := todo s p @ [b_brk s])"
    "b_heap (call_handle e q h m s) = (b_heap s) (b_brk s \<mapsto> t)"
    "plain (tx_msg t) = plain (binder_stamp e (m \<lparr> bm_target_handle := h \<rparr>))"
    using call_effect [OF assms, of m] by metis
  have "b_brk s \<notin> set (todo s p)"
    using assms(1) tinv_fresh(2) [OF binder_inv_tinv] by (simp add: serves_def)
  then show ?thesis
    unfolding waiting_def t(1,2) by (auto simp: t(3))
qed

lemma take_effect:
  assumes "serves p q h s" and "be_uaccess e"
  shows "serves p q h (snd (take_txn e p s))"
    and "waiting p s = y # ys \<Longrightarrow> fst (take_txn e p s) = Some y \<and> waiting p (snd (take_txn e p s)) = ys"
proof -
  have i: "binder_inv s" "inuse s p" and pl: "p < length (b_procs s)"
    using assms(1) by (auto simp: serves_def inuse_def)
  have tk: "take_txn e p s = (case todo s p of [] \<Rightarrow> (None, s)
      | a # _ \<Rightarrow> (Some (plain (tx_msg (the (b_heap s a)))), binder_deliver p a s))"
    using assms(2) pl by (simp add: take_txn_def binder_do_recv_def todo_def split: list.splits)
  have d: "inuse (binder_deliver p a s) = inuse s" "b_svcs (binder_deliver p a s) = b_svcs s"
      "binder_inv (binder_deliver p a s)" "waiting p (binder_deliver p a s) = map (\<lambda>a. plain (tx_msg (the (b_heap s a)))) as"
    if T: "todo s p = a # as" for a as
  proof -
    obtain t where h: "b_heap s a = Some t"
      using tinv_dest(4) [OF binder_inv_tinv [OF i(1)], of a p] T by auto
    note eff = deliver_effect [OF pl T h]
    show "inuse (binder_deliver p a s) = inuse s" "b_svcs (binder_deliver p a s) = b_svcs s"
      by (rule eff)+
    show "binder_inv (binder_deliver p a s)"
      by (rule deliver_inv [OF i]) (use T pl in \<open>simp add: todo_def\<close>)
    have "a \<notin> set as"
      using tinv_dest(1) [OF binder_inv_tinv [OF i(1)], of p] T by auto
    then have "b_heap (binder_deliver p a s) x = b_heap s x" if "x \<in> set as" for x
      using that by (auto simp: eff(4))
    then show "waiting p (binder_deliver p a s) = map (\<lambda>a. plain (tx_msg (the (b_heap s a)))) as"
      by (simp add: waiting_def eff(2))
  qed
  show "serves p q h (snd (take_txn e p s))"
  proof (cases "todo s p")
    case (Cons a as)
    show ?thesis
      using assms(1) d [OF Cons] Cons by (auto simp: tk serves_def binder_find_svc_by_handle_def split: if_splits)
  qed (simp add: tk assms(1))
  show "fst (take_txn e p s) = Some y \<and> waiting p (snd (take_txn e p s)) = ys" if "waiting p s = y # ys"
    using that d(4) by (auto simp: tk waiting_def Cons_eq_map_conv)
qed

interpretation bq: fifo "\<lambda>s. serves p q h s \<and> permits e \<and> be_uaccess e'" "waiting p"
  "\<lambda>m. plain (binder_stamp e (m \<lparr> bm_target_handle := h \<rparr>))" "call_handle e q h" "take_txn e' p"
  for p q h e e'
proof unfold_locales
  fix s m assume a: "serves p q h s \<and> permits e \<and> be_uaccess e'"
  show "serves p q h (call_handle e q h m s) \<and> permits e \<and> be_uaccess e'"
    using a call_effect [of p q h s e m] by blast
  show "waiting p (call_handle e q h m s) = waiting p s @ [plain (binder_stamp e (m \<lparr> bm_target_handle := h \<rparr>))]"
    using a call_waiting by simp
  show "serves p q h (snd (take_txn e' p s)) \<and> permits e \<and> be_uaccess e'"
    using a take_effect(1) by simp
  fix y ys assume "waiting p s = y # ys"
  then show "fst (take_txn e' p s) = Some y \<and> waiting p (snd (take_txn e' p s)) = ys"
    using a take_effect(2) by blast
qed

text \<open>
  C16. Calls to one service are delivered in the order they were made: when a process with an empty
  queue owns the handle, and another process makes any number of calls to it, one-way or
  synchronous, then that many receives return exactly these calls, in order, with the caller's
  identity stamped on (the driver's transaction number aside).
\<close>

theorem binder_fifo_delivery:
  assumes "binder_reach s" and "inuse s p" and "inuse s q" and "p \<noteq> q" and "permits e" and "be_uaccess e'"
    and "binder_find_svc_by_handle s h = Some i" and "sv_owner_proc (b_svcs s ! i) = Some p"
    and "bp_todo (b_procs s ! p) = []"
  shows "fst (drain (take_txn e' p) (length ms) (fold (call_handle e q h) ms s)) =
    map (\<lambda>m. Some (plain (binder_stamp e (m \<lparr> bm_target_handle := h \<rparr>)))) ms"
proof -
  have "h \<noteq> 0"
    using assms(7) by (auto simp: binder_find_svc_by_handle_def split: if_splits)
  then have "serves p q h s"
    using assms reach_inv [OF assms(1)] by (auto simp: serves_def)
  moreover have "waiting p s = []"
    using assms(9) by (simp add: waiting_def todo_def)
  ultimately show ?thesis
    using bq.in_order [of p q h s e e' ms] assms(5,6) by (simp add: comp_def)
qed

lemma demo_svc: "binder_find_svc_by_handle demo5 1 = Some 0" "sv_owner_proc (b_svcs demo5 ! 0) = Some 0"
  by code_simp+

theorem binder_fifo_delivery_witness:
  "fst (drain (take_txn (demo_env 10) 0) 2
      (fold (call_handle (demo_env 20) 1 1) [demo_msg, demo_msg \<lparr> bm_flags := 1 \<rparr>] demo5)) =
   [Some (plain (binder_stamp (demo_env 20) (demo_msg \<lparr> bm_target_handle := 1 \<rparr>))),
    Some (plain (binder_stamp (demo_env 20) (demo_msg \<lparr> bm_flags := 1, bm_target_handle := 1 \<rparr>)))]"
proof -
  have e: "permits (demo_env 20)" "be_uaccess (demo_env 10)"
    by (simp_all add: permits_def demo_env_def)
  have "(0::nat) \<noteq> 1" by simp
  from binder_fifo_delivery [OF demo_reach(4) demo_use(6,7) this e demo_svc demo_todo(3),
      of "[demo_msg, demo_msg \<lparr> bm_flags := 1 \<rparr>]"]
  show ?thesis by (simp add: numeral_2_eq_2)
qed

section \<open>Calls and replies\<close>





section \<open>Services\<close>





section \<open>Uevents\<close>





end
