(* ===== verification/Tmpfs.thy ===== *)
theory Tmpfs
  imports Kernel_Lib
begin

text \<open>
  The in-memory file system (\<^verbatim>\<open>fs/tmpfs/inode.c\<close>) with the part of the inode cache it
  works through (\<^verbatim>\<open>iget\<close>, \<^verbatim>\<open>iput\<close>, attribute changes in \<^verbatim>\<open>fs/inode.c\<close>).

  A node pointer is the inode number of the node in the list \<open>tb_nodes\<close>; in-core inodes are a
  map from inode numbers, with the attribute copies the code keeps in them. A page table is a list
  of optional pages: \<^verbatim>\<open>cap_pages\<close> is its length and the null table is the empty list. Checks for
  null inode arguments and locks are left out, and an in-core inode is never a mount point. What an
  operation asks of the rest of the kernel (credentials, time, memory, user memory access) is the
  record \<open>tm_env\<close>.
\<close>

section \<open>Data\<close>

definition PAGE_SIZE :: nat where "PAGE_SIZE = 4096"
definition TMPFS_SUPER_MAGIC :: u32 where "TMPFS_SUPER_MAGIC = 0x01021994"
definition TMPFS_ROOT_INO :: u32 where "TMPFS_ROOT_INO = 1"
definition TMPFS_DEFAULT_MAX_BYTES :: u32 where "TMPFS_DEFAULT_MAX_BYTES = 16 * 1024 * 1024"
definition TMPFS_DEFAULT_INODES :: u32 where "TMPFS_DEFAULT_INODES = 4096"
definition TMPFS_MAX_FILE_PAGES :: nat where "TMPFS_MAX_FILE_PAGES = 4096"
definition TMPFS_NAME_LEN :: nat where "TMPFS_NAME_LEN = 255"

definition S_IFMT :: u16 where "S_IFMT = 0xF000"
definition S_IFLNK :: u16 where "S_IFLNK = 0xA000"
definition S_IFREG :: u16 where "S_IFREG = 0x8000"
definition S_IFBLK :: u16 where "S_IFBLK = 0x6000"
definition S_IFDIR :: u16 where "S_IFDIR = 0x4000"
definition S_IFCHR :: u16 where "S_IFCHR = 0x2000"
definition S_IFIFO :: u16 where "S_IFIFO = 0x1000"
definition S_ISGID :: u16 where "S_ISGID = 0x0400"
definition S_ISVTX :: u16 where "S_ISVTX = 0x0200"

definition S_ISLNK :: "u16 \<Rightarrow> bool" where "S_ISLNK m \<longleftrightarrow> m AND S_IFMT = S_IFLNK"
definition S_ISREG :: "u16 \<Rightarrow> bool" where "S_ISREG m \<longleftrightarrow> m AND S_IFMT = S_IFREG"
definition S_ISDIR :: "u16 \<Rightarrow> bool" where "S_ISDIR m \<longleftrightarrow> m AND S_IFMT = S_IFDIR"
definition S_ISCHR :: "u16 \<Rightarrow> bool" where "S_ISCHR m \<longleftrightarrow> m AND S_IFMT = S_IFCHR"
definition S_ISBLK :: "u16 \<Rightarrow> bool" where "S_ISBLK m \<longleftrightarrow> m AND S_IFMT = S_IFBLK"
definition S_ISFIFO :: "u16 \<Rightarrow> bool" where "S_ISFIFO m \<longleftrightarrow> m AND S_IFMT = S_IFIFO"

text \<open>Signed 32-bit arithmetic of \<^verbatim>\<open>off_t\<close>, as the compiled code wraps it.\<close>

definition s32 :: "int \<Rightarrow> int" where
  "s32 x = signed_take_bit 31 x"

record tmpfs_dirent =
  de_ino :: u32
  de_name :: string

record tmpfs_node =
  tn_ino :: u32
  tn_parent_ino :: u32
  tn_mode :: u16
  tn_uid :: u16
  tn_gid :: u16
  tn_nlink :: u16
  tn_rdev :: u16
  tn_size :: int
  tn_atime :: int
  tn_mtime :: int
  tn_ctime :: int
  tn_pages :: "u8 list option list"
  tn_nr_pages :: u32
  tn_symlink_target :: "string option"
  tn_entries :: "tmpfs_dirent list"

record tmpfs_sb =
  tb_max_bytes :: u32
  tb_bytes_used :: u32
  tb_max_inodes :: u32
  tb_nr_inodes :: u32
  tb_next_ino :: u32
  tb_root_mode :: u16
  tb_nodes :: "tmpfs_node list"

datatype inode_op = Iop_file | Iop_dir | Iop_symlink | Iop_chrdev | Iop_blkdev | Iop_fifo | Iop_none

record inode =
  i_count :: nat
  i_mode :: u16
  i_uid :: u16
  i_gid :: u16
  i_nlink :: u16
  i_rdev :: u16
  i_size :: int
  i_atime :: int
  i_mtime :: int
  i_ctime :: int
  i_blocks :: u32
  i_dirt :: bool
  i_op :: inode_op

record tmpfs_st =
  fs_sb :: tmpfs_sb
  fs_ic :: "u32 \<rightharpoonup> inode"

record file_st =
  f_pos :: int
  f_append :: bool

text \<open>
  The calling task, the time, and the answers of the allocators: one for the node, the directory
  entry and the link target an operation may allocate, and one per page index for the page table
  and the page that a write needs.
\<close>

record tm_env =
  te_fsuid :: u16
  te_fsgid :: u16
  te_suser :: bool
  te_in_group :: "u16 \<Rightarrow> bool"
  te_now :: int
  te_kmalloc_node :: bool
  te_kmalloc_dirent :: bool
  te_kmalloc_target :: bool
  te_kmalloc_table :: "nat \<Rightarrow> bool"
  te_free_page :: "nat \<Rightarrow> bool"
  te_iget :: bool
  te_uaccess :: bool

section \<open>Nodes\<close>

definition tmpfs_find_node :: "tmpfs_sb \<Rightarrow> u32 \<Rightarrow> tmpfs_node option" where
  "tmpfs_find_node b ino = List.find (\<lambda>n. tn_ino n = ino) (tb_nodes b)"

text \<open>A store through a node pointer.\<close>

definition upd_node :: "u32 \<Rightarrow> (tmpfs_node \<Rightarrow> tmpfs_node) \<Rightarrow> tmpfs_sb \<Rightarrow> tmpfs_sb" where
  "upd_node ino f b = b \<lparr> tb_nodes := map (\<lambda>n. if tn_ino n = ino then f n else n) (tb_nodes b) \<rparr>"

definition upd_inode :: "u32 \<Rightarrow> (inode \<Rightarrow> inode) \<Rightarrow> tmpfs_st \<Rightarrow> tmpfs_st" where
  "upd_inode ino f s = s \<lparr> fs_ic := (fs_ic s) (ino := map_option f (fs_ic s ino)) \<rparr>"

definition on_sb :: "(tmpfs_sb \<Rightarrow> tmpfs_sb) \<Rightarrow> tmpfs_st \<Rightarrow> tmpfs_st" where
  "on_sb f s = s \<lparr> fs_sb := f (fs_sb s) \<rparr>"

definition blocks_of :: "tmpfs_node \<Rightarrow> u32" where
  "blocks_of n = tn_nr_pages n * 8"

definition tmpfs_sync_inode_from_node :: "tmpfs_node \<Rightarrow> inode \<Rightarrow> inode" where
  "tmpfs_sync_inode_from_node n i =
     i \<lparr> i_mode := tn_mode n, i_uid := tn_uid n, i_gid := tn_gid n, i_nlink := tn_nlink n,
         i_rdev := tn_rdev n, i_size := tn_size n, i_atime := tn_atime n, i_mtime := tn_mtime n,
         i_ctime := tn_ctime n, i_blocks := blocks_of n,
         i_op := (if S_ISREG (tn_mode n) then Iop_file
                  else if S_ISDIR (tn_mode n) then Iop_dir
                  else if S_ISLNK (tn_mode n) then Iop_symlink
                  else if S_ISCHR (tn_mode n) then Iop_chrdev
                  else if S_ISBLK (tn_mode n) then Iop_blkdev
                  else if S_ISFIFO (tn_mode n) then Iop_fifo else Iop_none) \<rparr>"

definition tmpfs_sync_node_from_inode :: "u32 \<Rightarrow> inode \<Rightarrow> tmpfs_sb \<Rightarrow> tmpfs_sb" where
  "tmpfs_sync_node_from_inode ino i =
     upd_node ino (\<lambda>n. n \<lparr> tn_mode := i_mode i, tn_uid := i_uid i, tn_gid := i_gid i, tn_nlink := i_nlink i,
       tn_rdev := i_rdev i, tn_size := i_size i, tn_atime := i_atime i, tn_mtime := i_mtime i,
       tn_ctime := i_ctime i \<rparr>)"

definition tmpfs_alloc_node :: "tm_env \<Rightarrow> u16 \<Rightarrow> u16 \<Rightarrow> tmpfs_sb \<Rightarrow> (u32 \<times> tmpfs_sb) option" where
  "tmpfs_alloc_node e mode rdev b =
     (if tb_nr_inodes b \<ge> tb_max_inodes b then None
      else if \<not> te_kmalloc_node e then None
      else
        let n = \<lparr> tn_ino = tb_next_ino b, tn_parent_ino = TMPFS_ROOT_INO, tn_mode = mode,
                  tn_uid = te_fsuid e, tn_gid = te_fsgid e, tn_nlink = (if S_ISDIR mode then 2 else 1),
                  tn_rdev = rdev, tn_size = (if S_ISDIR mode then 64 else 0),
                  tn_atime = te_now e, tn_mtime = te_now e, tn_ctime = te_now e,
                  tn_pages = [], tn_nr_pages = 0, tn_symlink_target = None, tn_entries = [] \<rparr>
        in Some (tn_ino n, b \<lparr> tb_next_ino := tb_next_ino b + 1, tb_nodes := n # tb_nodes b,
                               tb_nr_inodes := tb_nr_inodes b + 1 \<rparr>))"

definition tmpfs_free_page :: "nat \<Rightarrow> tmpfs_node \<times> tmpfs_sb \<Rightarrow> tmpfs_node \<times> tmpfs_sb" where
  "tmpfs_free_page i = (\<lambda>(n, b).
     if tn_pages n ! i = None then (n, b)
     else (n \<lparr> tn_pages := (tn_pages n) [i := None],
               tn_nr_pages := (if tn_nr_pages n > 0 then tn_nr_pages n - 1 else tn_nr_pages n) \<rparr>,
           if tb_bytes_used b \<ge> of_nat PAGE_SIZE
           then b \<lparr> tb_bytes_used := tb_bytes_used b - of_nat PAGE_SIZE \<rparr> else b))"

definition tmpfs_free_node_pages :: "nat \<Rightarrow> tmpfs_node \<times> tmpfs_sb \<Rightarrow> tmpfs_node \<times> tmpfs_sb" where
  "tmpfs_free_node_pages from_page nb =
     (if tn_pages (fst nb) = [] then nb
      else case fold tmpfs_free_page [from_page..<length (tn_pages (fst nb))] nb of
        (n, b) \<Rightarrow> (if from_page = 0 then n \<lparr> tn_pages := [], tn_nr_pages := 0 \<rparr> else n, b))"

definition tmpfs_destroy_node :: "u32 \<Rightarrow> tmpfs_sb \<Rightarrow> tmpfs_sb" where
  "tmpfs_destroy_node ino b =
     (case tmpfs_find_node b ino of
        None \<Rightarrow> b
      | Some n \<Rightarrow>
          let b = b \<lparr> tb_nodes := filter (\<lambda>n. tn_ino n \<noteq> ino) (tb_nodes b) \<rparr>;
              b = snd (tmpfs_free_node_pages 0 (n, b))
          in b \<lparr> tb_nr_inodes := (if tb_nr_inodes b > 0 then tb_nr_inodes b - 1 else tb_nr_inodes b) \<rparr>)"

text \<open>The page table grows by factors of four, from 64 entries, up to the largest file.\<close>

function tmpfs_grow_cap :: "nat \<Rightarrow> nat \<Rightarrow> nat" where
  "tmpfs_grow_cap page_idx cap =
     (if 0 < cap \<and> cap \<le> page_idx \<and> cap < TMPFS_MAX_FILE_PAGES
      then tmpfs_grow_cap page_idx (cap * 4) else cap)"
  by auto
termination
  by (relation "measure (\<lambda>(p, cap). TMPFS_MAX_FILE_PAGES - cap)") auto

declare tmpfs_grow_cap.simps [simp del]

definition tmpfs_ensure_page_table :: "tm_env \<Rightarrow> tmpfs_node \<Rightarrow> nat \<Rightarrow> tmpfs_node res" where
  "tmpfs_ensure_page_table e n page_idx =
     (if page_idx \<ge> TMPFS_MAX_FILE_PAGES then Inl EFBIG
      else if page_idx < length (tn_pages n) then Inr n
      else
        let new_cap = min TMPFS_MAX_FILE_PAGES
              (tmpfs_grow_cap page_idx (if tn_pages n = [] then 64 else length (tn_pages n)))
        in if \<not> te_kmalloc_table e page_idx then Inl ENOMEM
           else Inr (n \<lparr> tn_pages := tn_pages n @ replicate (new_cap - length (tn_pages n)) None \<rparr>))"

definition tmpfs_check_sticky :: "tm_env \<Rightarrow> tmpfs_node \<Rightarrow> tmpfs_node \<Rightarrow> errno option" where
  "tmpfs_check_sticky e dir victim =
     (if tn_mode dir AND S_ISVTX = 0 then None
      else if te_suser e then None
      else if te_fsuid e = tn_uid victim \<or> te_fsuid e = tn_uid dir then None
      else Some EPERM)"

section \<open>Regular files\<close>

text \<open>\<^verbatim>\<open>(unsigned int)(pos >> PAGE_SHIFT)\<close> and \<^verbatim>\<open>pos & ~PAGE_MASK\<close>.\<close>

definition page_of :: "int \<Rightarrow> nat" where
  "page_of pos = nat (take_bit 32 (pos div int PAGE_SIZE))"

definition off_of :: "int \<Rightarrow> nat" where
  "off_of pos = nat (pos mod int PAGE_SIZE)"

definition tmpfs_file_lseek :: "inode \<Rightarrow> file_st \<Rightarrow> int \<Rightarrow> nat \<Rightarrow> int res \<times> file_st" where
  "tmpfs_file_lseek i f offset origin =
     (let pos = (if origin = 0 then Some offset
                 else if origin = 1 then Some (s32 (f_pos f + offset))
                 else if origin = 2 then Some (s32 (i_size i + offset)) else None)
      in case pos of
           None \<Rightarrow> (Inl EINVAL, f)
         | Some pos \<Rightarrow> if pos < 0 then (Inl EINVAL, f) else (Inr pos, f \<lparr> f_pos := pos \<rparr>))"

text \<open>The bytes of a page that a read copies out; a hole reads as zeroes.\<close>

definition page_bytes :: "tmpfs_node \<Rightarrow> nat \<Rightarrow> nat \<Rightarrow> nat \<Rightarrow> u8 list" where
  "page_bytes n pidx poff chunk =
     (if pidx < length (tn_pages n) then
        (case tn_pages n ! pidx of Some pg \<Rightarrow> take chunk (drop poff pg) | None \<Rightarrow> replicate chunk 0)
      else replicate chunk 0)"

lemma off_of_less: "off_of pos < PAGE_SIZE"
  by (simp add: off_of_def PAGE_SIZE_def nat_less_iff)

function tmpfs_read_loop :: "tmpfs_node \<Rightarrow> int \<Rightarrow> nat \<Rightarrow> u8 list" where
  "tmpfs_read_loop n pos count =
     (if count = 0 then []
      else
        let chunk = min (PAGE_SIZE - off_of pos) count
        in page_bytes n (page_of pos) (off_of pos) chunk @ tmpfs_read_loop n (s32 (pos + int chunk)) (count - chunk))"
  by auto
termination
  by (relation "measure (\<lambda>(n, pos, count). count)") (use off_of_less in \<open>auto simp: Let_def\<close>)

declare tmpfs_read_loop.simps [simp del]

definition tmpfs_file_read ::
  "tm_env \<Rightarrow> u32 \<Rightarrow> file_st \<Rightarrow> int \<Rightarrow> tmpfs_st \<Rightarrow> (u8 list) res \<times> file_st \<times> tmpfs_st" where
  "tmpfs_file_read e ino f count s =
     (case tmpfs_find_node (fs_sb s) ino of
        None \<Rightarrow> (Inl EINVAL, f, s)
      | Some n \<Rightarrow>
          if count \<le> 0 then (Inr [], f, s)
          else if \<not> te_uaccess e then (Inl EFAULT, f, s)
          else if f_pos f \<ge> tn_size n then (Inr [], f, s)
          else
            let count = (if s32 (f_pos f + count) > tn_size n then tn_size n - f_pos f else count);
                data = tmpfs_read_loop n (f_pos f) (nat count);
                s = on_sb (upd_node ino (\<lambda>n. n \<lparr> tn_atime := te_now e \<rparr>)) s;
                s = upd_inode ino (\<lambda>i. i \<lparr> i_atime := te_now e \<rparr>) s
            in (Inr data, f \<lparr> f_pos := s32 (f_pos f + count) \<rparr>, s))"

text \<open>A page for index \<open>pidx\<close>, if it is not there yet.\<close>

definition tmpfs_get_page :: "tm_env \<Rightarrow> nat \<Rightarrow> tmpfs_node \<times> tmpfs_sb \<Rightarrow> (tmpfs_node \<times> tmpfs_sb) res" where
  "tmpfs_get_page e pidx = (\<lambda>(n, b).
     if tn_pages n ! pidx \<noteq> None then Inr (n, b)
     else if tb_bytes_used b + of_nat PAGE_SIZE > tb_max_bytes b then Inl ENOSPC
     else if \<not> te_free_page e pidx then Inl ENOMEM
     else Inr (n \<lparr> tn_pages := (tn_pages n) [pidx := Some (replicate PAGE_SIZE 0)],
                   tn_nr_pages := tn_nr_pages n + 1 \<rparr>,
               b \<lparr> tb_bytes_used := tb_bytes_used b + of_nat PAGE_SIZE \<rparr>))"

text \<open>
  The loop of a write: the bytes still to be written, and the number written so far. The result has
  the error that ended the loop, if any, the final position and the number of bytes written. The
  accounting of the superblock is in \<open>b\<close>; the node is a working copy.
\<close>

function tmpfs_write_loop ::
  "tm_env \<Rightarrow> int \<Rightarrow> u8 list \<Rightarrow> nat \<Rightarrow> tmpfs_node \<times> tmpfs_sb \<Rightarrow> errno option \<times> int \<times> nat \<times> tmpfs_node \<times> tmpfs_sb" where
  "tmpfs_write_loop e pos data written nb =
     (if data = [] then (None, pos, written, fst nb, snd nb)
      else
        let pidx = page_of pos;
            chunk = min (PAGE_SIZE - off_of pos) (length data)
        in case tmpfs_ensure_page_table e (fst nb) pidx of
             Inl err \<Rightarrow> (Some err, pos, written, fst nb, snd nb)
           | Inr n \<Rightarrow>
               (case tmpfs_get_page e pidx (n, snd nb) of
                  Inl err \<Rightarrow> (Some err, pos, written, n, snd nb)
                | Inr (n, b) \<Rightarrow>
                    let pg = the (tn_pages n ! pidx);
                        n = n \<lparr> tn_pages := (tn_pages n) [pidx := Some (blit (off_of pos) (take chunk data) pg)],
                                tn_size := (if pos + int chunk > tn_size n then pos + int chunk else tn_size n) \<rparr>
                    in tmpfs_write_loop e (pos + int chunk) (drop chunk data) (written + chunk) (n, b)))"
  by auto
termination
  by (relation "measure (\<lambda>(e, pos, data, w, nb). length data)") (use off_of_less in \<open>auto simp: Let_def\<close>)

declare tmpfs_write_loop.simps [simp del]

definition tmpfs_file_write ::
  "tm_env \<Rightarrow> u32 \<Rightarrow> file_st \<Rightarrow> u8 list \<Rightarrow> tmpfs_st \<Rightarrow> nat res \<times> file_st \<times> tmpfs_st" where
  "tmpfs_file_write e ino f buf s =
     (case tmpfs_find_node (fs_sb s) ino of
        None \<Rightarrow> (Inl EINVAL, f, s)
      | Some n \<Rightarrow>
          if buf = [] then (Inr 0, f, s)
          else if \<not> te_uaccess e then (Inl EFAULT, f, s)
          else
            (case tmpfs_write_loop e (if f_append f then tn_size n else f_pos f) buf 0 (n, fs_sb s) of
               (err, pos, written, n, b) \<Rightarrow>
                 let s = on_sb (\<lambda>_. upd_node ino (\<lambda>_. n) b) s
                 in if 0 < written then
                      let s = on_sb (upd_node ino (\<lambda>n. n \<lparr> tn_mtime := te_now e, tn_ctime := te_now e \<rparr>)) s;
                          s = upd_inode ino (\<lambda>i. i \<lparr> i_size := tn_size n, i_blocks := blocks_of n,
                                i_mtime := te_now e, i_ctime := te_now e \<rparr>) s
                      in (Inr written, f \<lparr> f_pos := pos \<rparr>, s)
                    else (case err of Some err \<Rightarrow> (Inl err, f, s) | None \<Rightarrow> (Inr 0, f, s))))"

text \<open>The node's part of a truncation to \<open>sz\<close>.\<close>

definition tmpfs_cut :: "int \<Rightarrow> tmpfs_node \<times> tmpfs_sb \<Rightarrow> tmpfs_node \<times> tmpfs_sb" where
  "tmpfs_cut sz = (\<lambda>(n, b).
     let n = n \<lparr> tn_size := sz \<rparr>;
         first_free_page = nat (take_bit 32 (sz + int PAGE_SIZE - 1)) div PAGE_SIZE;
         poff = off_of sz;
         last = first_free_page - 1;
         n = (if 0 < poff \<and> 0 < first_free_page \<and> last < length (tn_pages n) \<and> tn_pages n ! last \<noteq> None
              then n \<lparr> tn_pages := (tn_pages n) [last :=
                          Some (blit poff (replicate (PAGE_SIZE - poff) 0) (the (tn_pages n ! last)))] \<rparr>
              else n)
     in tmpfs_free_node_pages first_free_page (n, b))"

definition tmpfs_truncate :: "tm_env \<Rightarrow> u32 \<Rightarrow> tmpfs_st \<Rightarrow> tmpfs_st" where
  "tmpfs_truncate e ino s =
     (case (tmpfs_find_node (fs_sb s) ino, fs_ic s ino) of
        (Some n, Some i) \<Rightarrow>
          if \<not> S_ISREG (tn_mode n) then s
          else
            (case tmpfs_cut (i_size i) (n, fs_sb s) of
               (n, b) \<Rightarrow>
                 let s = on_sb (\<lambda>_. upd_node ino (\<lambda>_. n \<lparr> tn_mtime := te_now e, tn_ctime := te_now e \<rparr>) b) s
                 in upd_inode ino (\<lambda>i. i \<lparr> i_blocks := blocks_of n, i_mtime := te_now e, i_ctime := te_now e \<rparr>) s)
      | _ \<Rightarrow> s)"

text \<open>The contents of the page that a fault or an exec asks for; \<open>None\<close> is the error flag.\<close>

definition tmpfs_readpage :: "u32 \<Rightarrow> int \<Rightarrow> tmpfs_st \<Rightarrow> (u8 list) option" where
  "tmpfs_readpage ino offset s =
     (case tmpfs_find_node (fs_sb s) ino of
        None \<Rightarrow> None
      | Some n \<Rightarrow> Some (page_bytes n (page_of offset) 0 PAGE_SIZE))"

section \<open>The inode cache\<close>

text \<open>
  \<^verbatim>\<open>get_empty_inode\<close> hands out a cleared inode with one reference and one link;
  \<^verbatim>\<open>tmpfs_read_inode\<close> fills it.
\<close>

definition empty_inode :: inode where
  "empty_inode = \<lparr> i_count = 1, i_mode = 0, i_uid = 0, i_gid = 0, i_nlink = 1, i_rdev = 0, i_size = 0,
     i_atime = 0, i_mtime = 0, i_ctime = 0, i_blocks = 0, i_dirt = False, i_op = Iop_none \<rparr>"

definition tmpfs_read_inode :: "tmpfs_sb \<Rightarrow> u32 \<Rightarrow> inode \<Rightarrow> inode" where
  "tmpfs_read_inode b ino i =
     (case tmpfs_find_node b ino of None \<Rightarrow> i \<lparr> i_mode := 0 \<rparr> | Some n \<Rightarrow> tmpfs_sync_inode_from_node n i)"

definition iget :: "tm_env \<Rightarrow> u32 \<Rightarrow> tmpfs_st \<Rightarrow> tmpfs_st option" where
  "iget e ino s =
     (if \<not> te_iget e then None
      else case fs_ic s ino of
        Some i \<Rightarrow> Some (s \<lparr> fs_ic := (fs_ic s) (ino \<mapsto> i \<lparr> i_count := i_count i + 1 \<rparr>) \<rparr>)
      | None \<Rightarrow> Some (s \<lparr> fs_ic := (fs_ic s) (ino \<mapsto> tmpfs_read_inode (fs_sb s) ino empty_inode) \<rparr>))"

definition tmpfs_write_inode :: "u32 \<Rightarrow> tmpfs_st \<Rightarrow> tmpfs_st" where
  "tmpfs_write_inode ino s =
     (case fs_ic s ino of
        None \<Rightarrow> s
      | Some i \<Rightarrow> upd_inode ino (\<lambda>i. i \<lparr> i_dirt := False \<rparr>) (on_sb (tmpfs_sync_node_from_inode ino i) s))"

text \<open>\<^verbatim>\<open>clear_inode\<close> takes the inode out of the cache.\<close>

definition clear_inode :: "u32 \<Rightarrow> tmpfs_st \<Rightarrow> tmpfs_st" where
  "clear_inode ino s = s \<lparr> fs_ic := (fs_ic s) (ino := None) \<rparr>"

definition tmpfs_put_inode :: "tm_env \<Rightarrow> u32 \<Rightarrow> tmpfs_st \<Rightarrow> tmpfs_st" where
  "tmpfs_put_inode e ino s =
     (case fs_ic s ino of
        None \<Rightarrow> s
      | Some i \<Rightarrow>
          if i_nlink i \<noteq> 0 then on_sb (tmpfs_sync_node_from_inode ino i) s
          else
            let s = upd_inode ino (\<lambda>i. i \<lparr> i_size := 0 \<rparr>) s;
                s = tmpfs_truncate e ino s;
                s = on_sb (tmpfs_destroy_node ino) s
            in clear_inode ino s)"

text \<open>
  Dropping a reference. With the last one the file system's \<^verbatim>\<open>put_inode\<close> runs; a dirty
  inode is written and the check repeated, which runs \<^verbatim>\<open>put_inode\<close> once more.
\<close>

definition iput :: "tm_env \<Rightarrow> u32 \<Rightarrow> tmpfs_st \<Rightarrow> tmpfs_st" where
  "iput e ino s =
     (case fs_ic s ino of
        None \<Rightarrow> s
      | Some i \<Rightarrow>
          if i_count i = 0 then s
          else if i_count i > 1 then upd_inode ino (\<lambda>i. i \<lparr> i_count := i_count i - 1 \<rparr>) s
          else
            let s = tmpfs_put_inode e ino s
            in if i_nlink i = 0 then s
               else
                 let s = (if i_dirt i then tmpfs_put_inode e ino (tmpfs_write_inode ino s) else s)
                 in upd_inode ino (\<lambda>i. i \<lparr> i_count := 0 \<rparr>) s)"

text \<open>Attribute changes (\<^verbatim>\<open>fs/inode.c\<close>); the flags of \<^verbatim>\<open>ia_valid\<close> are the options.\<close>

record iattr =
  ia_mode :: "u16 option"
  ia_uid :: "u16 option"
  ia_gid :: "u16 option"
  ia_size :: "int option"
  ia_atime :: "int option"
  ia_mtime :: "int option"
  ia_ctime :: "int option"
  ia_atime_set :: bool
  ia_mtime_set :: bool
  ia_force :: bool

definition fsuser :: "tm_env \<Rightarrow> bool" where
  "fsuser e \<longleftrightarrow> te_fsuid e = 0"

text \<open>The check may clear the set-group bit of the requested mode.\<close>

definition inode_change_ok :: "tm_env \<Rightarrow> inode \<Rightarrow> iattr \<Rightarrow> iattr res" where
  "inode_change_ok e i a =
     (if ia_force a then Inr a
      else if (\<exists>u. ia_uid a = Some u \<and> (te_fsuid e \<noteq> i_uid i \<or> u \<noteq> i_uid i)) \<and> \<not> fsuser e then Inl EPERM
      else if (\<exists>g. ia_gid a = Some g \<and> \<not> te_in_group e g \<and> g \<noteq> i_gid i) \<and> \<not> fsuser e then Inl EPERM
      else if ia_mode a \<noteq> None \<and> te_fsuid e \<noteq> i_uid i \<and> \<not> fsuser e then Inl EPERM
      else
        let a = (case ia_mode a of
                   Some m \<Rightarrow> if \<not> fsuser e \<and> \<not> te_in_group e (case ia_gid a of Some g \<Rightarrow> g | None \<Rightarrow> i_gid i)
                              then a \<lparr> ia_mode := Some (m AND NOT S_ISGID) \<rparr> else a
                 | None \<Rightarrow> a)
        in if ia_atime_set a \<and> te_fsuid e \<noteq> i_uid i \<and> \<not> fsuser e then Inl EPERM
           else if ia_mtime_set a \<and> te_fsuid e \<noteq> i_uid i \<and> \<not> fsuser e then Inl EPERM
           else Inr a)"

definition opt :: "'a option \<Rightarrow> 'a \<Rightarrow> 'a" where
  "opt x d = (case x of Some v \<Rightarrow> v | None \<Rightarrow> d)"

definition inode_setattr :: "tm_env \<Rightarrow> iattr \<Rightarrow> inode \<Rightarrow> inode" where
  "inode_setattr e a i =
     (let i = i \<lparr> i_uid := opt (ia_uid a) (i_uid i), i_gid := opt (ia_gid a) (i_gid i),
                  i_size := opt (ia_size a) (i_size i), i_atime := opt (ia_atime a) (i_atime i),
                  i_mtime := opt (ia_mtime a) (i_mtime i), i_ctime := opt (ia_ctime a) (i_ctime i) \<rparr>;
          i = (case ia_mode a of
                 Some m \<Rightarrow> i \<lparr> i_mode := (if \<not> fsuser e \<and> \<not> te_in_group e (i_gid i)
                                          then m AND NOT S_ISGID else m) \<rparr>
               | None \<Rightarrow> i)
      in i \<lparr> i_dirt := True \<rparr>)"

definition tmpfs_notify_change :: "tm_env \<Rightarrow> u32 \<Rightarrow> iattr \<Rightarrow> tmpfs_st \<Rightarrow> errno option \<times> tmpfs_st" where
  "tmpfs_notify_change e ino a s =
     (case fs_ic s ino of
        None \<Rightarrow> (None, s)
      | Some i \<Rightarrow>
          (case inode_change_ok e i a of
             Inl err \<Rightarrow> (Some err, s)
           | Inr a \<Rightarrow>
               let i = inode_setattr e a i;
                   s = upd_inode ino (\<lambda>_. i) s
               in (None, on_sb (tmpfs_sync_node_from_inode ino i) s)))"

text \<open>\<^verbatim>\<open>notify_change\<close> fills in the times.\<close>

definition notify_change :: "tm_env \<Rightarrow> u32 \<Rightarrow> iattr \<Rightarrow> tmpfs_st \<Rightarrow> errno option \<times> tmpfs_st" where
  "notify_change e ino a s =
     (let now = (\<lambda>set t. case t of None \<Rightarrow> None | Some v \<Rightarrow> if set then Some v else Some (te_now e));
          a = a \<lparr> ia_ctime := map_option (\<lambda>_. te_now e) (ia_ctime a),
                  ia_atime := now (ia_atime_set a) (ia_atime a),
                  ia_mtime := now (ia_mtime_set a) (ia_mtime a) \<rparr>
      in tmpfs_notify_change e ino a s)"

text \<open>\<^verbatim>\<open>do_truncate\<close> (\<^verbatim>\<open>fs/open.c\<close>): a change of size, then the file system's truncation.\<close>

definition do_truncate :: "tm_env \<Rightarrow> u32 \<Rightarrow> int \<Rightarrow> tmpfs_st \<Rightarrow> errno option \<times> tmpfs_st" where
  "do_truncate e ino len s =
     (case notify_change e ino \<lparr> ia_mode = None, ia_uid = None, ia_gid = None, ia_size = Some (s32 len),
             ia_atime = None, ia_mtime = None, ia_ctime = Some 0, ia_atime_set = False,
             ia_mtime_set = False, ia_force = False \<rparr> s of
        (Some err, s) \<Rightarrow> (Some err, s)
      | (None, s) \<Rightarrow>
          (case fs_ic s ino of
             Some i \<Rightarrow> (None, if i_op i = Iop_file then tmpfs_truncate e ino s else s)
           | None \<Rightarrow> (None, s)))"

end
