(* ===== verification/Tmpfs_Dir.thy ===== *)
theory Tmpfs_Dir
  imports Tmpfs
begin

text \<open>
  Directories, symbolic links and the superblock of the in-memory file system
  (\<^verbatim>\<open>fs/tmpfs/inode.c\<close>). Every directory operation owns a reference to its directory
  inodes and drops it with \<^verbatim>\<open>iput\<close> on every path; entries are kept newest first.
\<close>

section \<open>Directory entries\<close>

definition tmpfs_find_dirent :: "tmpfs_node \<Rightarrow> string \<Rightarrow> tmpfs_dirent option" where
  "tmpfs_find_dirent dir name = List.find (\<lambda>de. de_name de = name) (tn_entries dir)"

definition tmpfs_add_dirent :: "tm_env \<Rightarrow> u32 \<Rightarrow> string \<Rightarrow> u32 \<Rightarrow> tmpfs_sb \<Rightarrow> tmpfs_sb res" where
  "tmpfs_add_dirent e dir name ino b =
     (if name = [] \<or> length name > TMPFS_NAME_LEN then Inl ENAMETOOLONG
      else if \<not> te_kmalloc_dirent e then Inl ENOMEM
      else Inr (upd_node dir (\<lambda>d. d \<lparr> tn_entries := \<lparr> de_ino = ino, de_name = name \<rparr> # tn_entries d,
                                      tn_mtime := te_now e, tn_ctime := te_now e \<rparr>) b))"

text \<open>Unlinking the entry that \<^verbatim>\<open>tmpfs_find_dirent\<close> found.\<close>

definition del_dirent :: "tmpfs_dirent \<Rightarrow> tmpfs_node \<Rightarrow> tmpfs_node" where
  "del_dirent de d = d \<lparr> tn_entries := remove1 de (tn_entries d) \<rparr>"

definition touch :: "tm_env \<Rightarrow> tmpfs_node \<Rightarrow> tmpfs_node" where
  "touch e n = n \<lparr> tn_mtime := te_now e, tn_ctime := te_now e \<rparr>"

definition touch_inode :: "tm_env \<Rightarrow> inode \<Rightarrow> inode" where
  "touch_inode e i = i \<lparr> i_mtime := te_now e, i_ctime := te_now e \<rparr>"

section \<open>Reading directories\<close>

text \<open>
  The caller's \<^verbatim>\<open>filldir\<close> is a function on its buffer that fails with \<open>None\<close> when the
  buffer is full. It gets the name, the position and the inode number of each entry.
\<close>

fun readdir_loop ::
  "('c \<Rightarrow> string \<Rightarrow> int \<Rightarrow> u32 \<Rightarrow> 'c option) \<Rightarrow> int \<Rightarrow> tmpfs_dirent list \<Rightarrow> int \<Rightarrow> 'c \<Rightarrow> bool \<times> int \<times> 'c" where
  "readdir_loop fill idx [] pos c = (True, pos, c)"
| "readdir_loop fill idx (de # des) pos c =
     (if idx < pos then readdir_loop fill (idx + 1) des pos c
      else case fill c (de_name de) pos (de_ino de) of
        None \<Rightarrow> (False, pos, c)
      | Some c \<Rightarrow> readdir_loop fill (idx + 1) des (idx + 1) c)"

definition readdir_dots ::
  "('c \<Rightarrow> string \<Rightarrow> int \<Rightarrow> u32 \<Rightarrow> 'c option) \<Rightarrow> u32 \<Rightarrow> u32 \<Rightarrow> int \<Rightarrow> 'c \<Rightarrow> bool \<times> int \<times> 'c" where
  "readdir_dots fill ino parent pos c =
     (let (ok, pos, c) =
            (if pos = 0 then (case fill c ''.'' 0 ino of None \<Rightarrow> (False, pos, c) | Some c \<Rightarrow> (True, 1, c))
             else (True, pos, c))
      in if ok \<and> pos = 1
         then (case fill c ''..'' 1 parent of None \<Rightarrow> (False, pos, c) | Some c \<Rightarrow> (True, 2, c))
         else (ok, pos, c))"

definition tmpfs_readdir ::
  "('c \<Rightarrow> string \<Rightarrow> int \<Rightarrow> u32 \<Rightarrow> 'c option) \<Rightarrow> tm_env \<Rightarrow> u32 \<Rightarrow> file_st \<Rightarrow> 'c \<Rightarrow> tmpfs_st \<Rightarrow>
     'c res \<times> file_st \<times> tmpfs_st" where
  "tmpfs_readdir fill e ino f c s =
     (case (fs_ic s ino, tmpfs_find_node (fs_sb s) ino) of
        (Some i, Some dir) \<Rightarrow>
          if \<not> S_ISDIR (i_mode i) then (Inl EBADF, f, s)
          else
            (case readdir_dots fill ino (tn_parent_ino dir) (f_pos f) c of
               (False, pos, c) \<Rightarrow> (Inr c, f \<lparr> f_pos := pos \<rparr>, s)
             | (True, pos, c) \<Rightarrow>
                 (case readdir_loop fill 2 (tn_entries dir) pos c of
                    (False, pos, c) \<Rightarrow> (Inr c, f \<lparr> f_pos := pos \<rparr>, s)
                  | (True, pos, c) \<Rightarrow>
                      let s = on_sb (upd_node ino (\<lambda>n. n \<lparr> tn_atime := te_now e \<rparr>)) s;
                          s = upd_inode ino (\<lambda>i. i \<lparr> i_atime := te_now e \<rparr>) s
                      in (Inr c, f \<lparr> f_pos := pos \<rparr>, s)))
      | _ \<Rightarrow> (Inl EBADF, f, s))"

section \<open>Lookup and creation\<close>

definition tmpfs_lookup :: "tm_env \<Rightarrow> u32 \<Rightarrow> string \<Rightarrow> tmpfs_st \<Rightarrow> u32 res \<times> tmpfs_st" where
  "tmpfs_lookup e dir name s =
     (case fs_ic s dir of
        None \<Rightarrow> (Inl ENOENT, s)
      | Some i \<Rightarrow>
          if \<not> S_ISDIR (i_mode i) then (Inl ENOTDIR, iput e dir s)
          else
            (case tmpfs_find_node (fs_sb s) dir of
               None \<Rightarrow> (Inl ENOENT, iput e dir s)
             | Some dnode \<Rightarrow>
                 if name = ''.'' then
                   (Inr dir, iput e dir (upd_inode dir (\<lambda>i. i \<lparr> i_count := i_count i + 1 \<rparr>) s))
                 else
                   let ino = (if name = ''..'' then tn_parent_ino dnode
                              else case tmpfs_find_dirent dnode name of Some de \<Rightarrow> de_ino de | None \<Rightarrow> 0);
                       s = iput e dir s
                   in if ino = 0 then (Inl ENOENT, s)
                      else (case iget e ino s of None \<Rightarrow> (Inl EACCES, s) | Some s \<Rightarrow> (Inr ino, s))))"

text \<open>
  The part that creating a file, a directory, a link and a device node have in common: the
  new node gets its parent and what \<open>setup\<close> gives it, and an entry in the directory; when the entry cannot be made the node is
  destroyed again.
\<close>

definition tmpfs_add_node ::
  "tm_env \<Rightarrow> u32 \<Rightarrow> string \<Rightarrow> u16 \<Rightarrow> u16 \<Rightarrow> (tmpfs_node \<Rightarrow> tmpfs_node) \<Rightarrow> tmpfs_sb \<Rightarrow> u32 res \<times> tmpfs_sb" where
  "tmpfs_add_node e dir name mode rdev setup b =
     (case tmpfs_alloc_node e mode rdev b of
        None \<Rightarrow> (Inl ENOSPC, b)
      | Some (ino, b) \<Rightarrow>
          let b = upd_node ino (\<lambda>n. setup (n \<lparr> tn_parent_ino := dir \<rparr>)) b
          in case tmpfs_add_dirent e dir name ino b of
               Inl err \<Rightarrow> (Inl err, tmpfs_destroy_node ino b)
             | Inr b \<Rightarrow> (Inr ino, b))"

text \<open>The group of a set-group directory is inherited.\<close>

definition inherit_gid :: "tmpfs_node \<Rightarrow> tmpfs_node \<Rightarrow> tmpfs_node" where
  "inherit_gid dnode n = (if tn_mode dnode AND S_ISGID \<noteq> 0 then n \<lparr> tn_gid := tn_gid dnode \<rparr> else n)"

definition tmpfs_create :: "tm_env \<Rightarrow> u32 \<Rightarrow> string \<Rightarrow> u16 \<Rightarrow> tmpfs_st \<Rightarrow> u32 res \<times> tmpfs_st" where
  "tmpfs_create e dir name mode s =
     (case tmpfs_find_node (fs_sb s) dir of
        None \<Rightarrow> (Inl EINVAL, iput e dir s)
      | Some dnode \<Rightarrow>
          if tmpfs_find_dirent dnode name \<noteq> None then (Inl EEXIST, iput e dir s)
          else
            (case tmpfs_add_node e dir name ((mode AND 0xFFF) OR S_IFREG) 0 (inherit_gid dnode) (fs_sb s) of
               (Inl err, b) \<Rightarrow> (Inl err, iput e dir (s \<lparr> fs_sb := b \<rparr>))
             | (Inr ino, b) \<Rightarrow>
                 let s = iput e dir (upd_inode dir (touch_inode e) (s \<lparr> fs_sb := b \<rparr>))
                 in (case iget e ino s of None \<Rightarrow> (Inl ENOMEM, s) | Some s \<Rightarrow> (Inr ino, s))))"

definition tmpfs_mkdir :: "tm_env \<Rightarrow> u32 \<Rightarrow> string \<Rightarrow> u16 \<Rightarrow> tmpfs_st \<Rightarrow> errno option \<times> tmpfs_st" where
  "tmpfs_mkdir e dir name mode s =
     (case tmpfs_find_node (fs_sb s) dir of
        None \<Rightarrow> (Some EINVAL, iput e dir s)
      | Some dnode \<Rightarrow>
          if tmpfs_find_dirent dnode name \<noteq> None then (Some EEXIST, iput e dir s)
          else
            (case tmpfs_add_node e dir name ((mode AND 0xFFF) OR S_IFDIR) 0
                    (\<lambda>n. if tn_mode dnode AND S_ISGID \<noteq> 0
                         then n \<lparr> tn_gid := tn_gid dnode, tn_mode := tn_mode n OR S_ISGID \<rparr> else n) (fs_sb s) of
               (Inl err, b) \<Rightarrow> (Some err, iput e dir (s \<lparr> fs_sb := b \<rparr>))
             | (Inr ino, b) \<Rightarrow>
                 let s = s \<lparr> fs_sb := upd_node dir (\<lambda>d. d \<lparr> tn_nlink := tn_nlink d + 1 \<rparr>) b \<rparr>;
                     s = upd_inode dir (\<lambda>i. touch_inode e i \<lparr> i_nlink := tn_nlink dnode + 1 \<rparr>) s
                 in (None, iput e dir s)))"

definition tmpfs_symlink :: "tm_env \<Rightarrow> u32 \<Rightarrow> string \<Rightarrow> string \<Rightarrow> tmpfs_st \<Rightarrow> errno option \<times> tmpfs_st" where
  "tmpfs_symlink e dir name symname s =
     (case tmpfs_find_node (fs_sb s) dir of
        None \<Rightarrow> (Some EINVAL, iput e dir s)
      | Some dnode \<Rightarrow>
          if tmpfs_find_dirent dnode name \<noteq> None then (Some EEXIST, iput e dir s)
          else if \<not> te_kmalloc_target e then (Some ENOMEM, iput e dir s)
          else
            (case tmpfs_add_node e dir name (S_IFLNK OR 0x1FF) 0
                    (\<lambda>n. n \<lparr> tn_symlink_target := Some (c_str symname), tn_size := int (length (c_str symname)) \<rparr>) (fs_sb s) of
               (Inl err, b) \<Rightarrow> (Some err, iput e dir (s \<lparr> fs_sb := b \<rparr>))
             | (Inr ino, b) \<Rightarrow> (None, iput e dir (upd_inode dir (touch_inode e) (s \<lparr> fs_sb := b \<rparr>)))))"

definition tmpfs_mknod :: "tm_env \<Rightarrow> u32 \<Rightarrow> string \<Rightarrow> u16 \<Rightarrow> u16 \<Rightarrow> tmpfs_st \<Rightarrow> errno option \<times> tmpfs_st" where
  "tmpfs_mknod e dir name mode rdev s =
     (case tmpfs_find_node (fs_sb s) dir of
        None \<Rightarrow> (Some EINVAL, iput e dir s)
      | Some dnode \<Rightarrow>
          if tmpfs_find_dirent dnode name \<noteq> None then (Some EEXIST, iput e dir s)
          else
            (case tmpfs_add_node e dir name mode rdev (inherit_gid dnode) (fs_sb s) of
               (Inl err, b) \<Rightarrow> (Some err, iput e dir (s \<lparr> fs_sb := b \<rparr>))
             | (Inr ino, b) \<Rightarrow> (None, iput e dir (upd_inode dir (touch_inode e) (s \<lparr> fs_sb := b \<rparr>)))))"

section \<open>Removal\<close>

definition tmpfs_rmdir :: "tm_env \<Rightarrow> u32 \<Rightarrow> string \<Rightarrow> tmpfs_st \<Rightarrow> errno option \<times> tmpfs_st" where
  "tmpfs_rmdir e dir name s =
     (case tmpfs_find_node (fs_sb s) dir of
        None \<Rightarrow> (Some EINVAL, iput e dir s)
      | Some dnode \<Rightarrow>
          (case tmpfs_find_dirent dnode name of
             None \<Rightarrow> (Some ENOENT, iput e dir s)
           | Some de \<Rightarrow>
               (case tmpfs_find_node (fs_sb s) (de_ino de) of
                  None \<Rightarrow> (Some ENOTDIR, iput e dir s)
                | Some target \<Rightarrow>
                    if \<not> S_ISDIR (tn_mode target) then (Some ENOTDIR, iput e dir s)
                    else if tn_ino target = tn_ino dnode then (Some EPERM, iput e dir s)
                    else if tn_entries target \<noteq> [] then (Some ENOTEMPTY, iput e dir s)
                    else
                      (case tmpfs_check_sticky e dnode target of
                         Some err \<Rightarrow> (Some err, iput e dir s)
                       | None \<Rightarrow>
                           (case iget e (de_ino de) s of
                              None \<Rightarrow> (None, iput e dir s)
                            | Some s \<Rightarrow>
                                if i_count (the (fs_ic s (de_ino de))) > 1
                                then (Some EBUSY, iput e dir (iput e (de_ino de) s))
                                else
                                  let nl = (if tn_nlink dnode > 2 then tn_nlink dnode - 1 else tn_nlink dnode);
                                      s = on_sb (upd_node dir (\<lambda>d. touch e (del_dirent de d) \<lparr> tn_nlink := nl \<rparr>)) s;
                                      s = on_sb (upd_node (de_ino de) (\<lambda>n. n \<lparr> tn_nlink := 0 \<rparr>)) s;
                                      s = upd_inode (de_ino de) (\<lambda>i. i \<lparr> i_nlink := 0 \<rparr>) s;
                                      s = upd_inode dir (\<lambda>i. touch_inode e i \<lparr> i_nlink := nl \<rparr>) s
                                  in (None, iput e dir (iput e (de_ino de) s)))))))"

text \<open>
  Dropping a link to a node that is not a directory: through its inode when the cache gives one,
  on the node otherwise.
\<close>

definition tmpfs_drop_link :: "tm_env \<Rightarrow> tmpfs_node \<Rightarrow> (inode \<Rightarrow> inode) \<Rightarrow> (tmpfs_node \<Rightarrow> tmpfs_node) \<Rightarrow> tmpfs_st \<Rightarrow> tmpfs_st" where
  "tmpfs_drop_link e target fi fn s =
     (let ino = tn_ino target
      in case iget e ino s of
           Some s \<Rightarrow>
             let nl = (if tn_nlink target > 0 then tn_nlink target - 1 else tn_nlink target);
                 s = on_sb (upd_node ino (\<lambda>n. fn (n \<lparr> tn_nlink := nl \<rparr>))) s;
                 s = upd_inode ino (\<lambda>i. fi (i \<lparr> i_nlink := nl \<rparr>)) s
             in iput e ino s
         | None \<Rightarrow>
             if tn_nlink target \<le> 1 then on_sb (tmpfs_destroy_node ino) s
             else on_sb (upd_node ino (\<lambda>n. n \<lparr> tn_nlink := tn_nlink n - 1 \<rparr>)) s)"

definition tmpfs_unlink :: "tm_env \<Rightarrow> u32 \<Rightarrow> string \<Rightarrow> tmpfs_st \<Rightarrow> errno option \<times> tmpfs_st" where
  "tmpfs_unlink e dir name s =
     (case tmpfs_find_node (fs_sb s) dir of
        None \<Rightarrow> (Some EINVAL, iput e dir s)
      | Some dnode \<Rightarrow>
          (case tmpfs_find_dirent dnode name of
             None \<Rightarrow> (Some ENOENT, iput e dir s)
           | Some de \<Rightarrow>
               (case tmpfs_find_node (fs_sb s) (de_ino de) of
                  None \<Rightarrow> (Some ENOENT, iput e dir s)
                | Some target \<Rightarrow>
                    if S_ISDIR (tn_mode target) then (Some EPERM, iput e dir s)
                    else
                      (case tmpfs_check_sticky e dnode target of
                         Some err \<Rightarrow> (Some err, iput e dir s)
                       | None \<Rightarrow>
                           let s = on_sb (upd_node dir (\<lambda>d. touch e (del_dirent de d))) s;
                               s = upd_inode dir (touch_inode e) s;
                               s = tmpfs_drop_link e target (\<lambda>i. i \<lparr> i_ctime := te_now e \<rparr>)
                                     (\<lambda>n. n \<lparr> tn_ctime := te_now e \<rparr>) s
                           in (None, iput e dir s)))))"

definition tmpfs_link :: "tm_env \<Rightarrow> u32 \<Rightarrow> u32 \<Rightarrow> string \<Rightarrow> tmpfs_st \<Rightarrow> errno option \<times> tmpfs_st" where
  "tmpfs_link e old dir name s =
     (let leave = (\<lambda>s. iput e old (iput e dir s))
      in if S_ISDIR (i_mode (the (fs_ic s old))) then (Some EPERM, leave s)
         else
           (case (tmpfs_find_node (fs_sb s) dir, tmpfs_find_node (fs_sb s) old) of
              (Some dnode, Some onode) \<Rightarrow>
                if tmpfs_find_dirent dnode name \<noteq> None then (Some EEXIST, leave s)
                else
                  (case tmpfs_add_dirent e dir name old (fs_sb s) of
                     Inl err \<Rightarrow> (Some err, leave s)
                   | Inr b \<Rightarrow>
                       let s = s \<lparr> fs_sb := upd_node old (\<lambda>n. n \<lparr> tn_nlink := tn_nlink n + 1, tn_ctime := te_now e \<rparr>) b \<rparr>;
                           s = upd_inode old (\<lambda>i. i \<lparr> i_nlink := tn_nlink onode + 1, i_ctime := te_now e \<rparr>) s;
                           s = upd_inode dir (touch_inode e) s
                       in (None, leave s))
            | _ \<Rightarrow> (Some EINVAL, leave s)))"

section \<open>Rename\<close>

text \<open>
  What happens to the node \<open>dst\<close> whose entry is taken over. A directory loses both its links
  and its parent one.
\<close>

definition tmpfs_replace_dst :: "tm_env \<Rightarrow> u32 \<Rightarrow> tmpfs_node \<Rightarrow> tmpfs_st \<Rightarrow> tmpfs_st" where
  "tmpfs_replace_dst e new_dir dst s =
     (if S_ISDIR (tn_mode dst) then
        (case iget e (tn_ino dst) s of
           Some s \<Rightarrow>
             let s = on_sb (upd_node (tn_ino dst) (\<lambda>n. n \<lparr> tn_nlink := 0 \<rparr>)) s;
                 s = upd_inode (tn_ino dst) (\<lambda>i. i \<lparr> i_nlink := 0 \<rparr>) s;
                 s = on_sb (upd_node new_dir (\<lambda>d. if tn_nlink d > 2 then d \<lparr> tn_nlink := tn_nlink d - 1 \<rparr> else d)) s
             in iput e (tn_ino dst) s
         | None \<Rightarrow> on_sb (tmpfs_destroy_node (tn_ino dst)) s)
      else tmpfs_drop_link e dst (\<lambda>i. i) (\<lambda>n. n) s)"

text \<open>The checks on an existing destination.\<close>

definition tmpfs_rename_refused :: "tm_env \<Rightarrow> tmpfs_node \<Rightarrow> tmpfs_node \<Rightarrow> tmpfs_node \<Rightarrow> errno option" where
  "tmpfs_rename_refused e ndnode src dst =
     (case tmpfs_check_sticky e ndnode dst of
        Some err \<Rightarrow> Some err
      | None \<Rightarrow>
          if S_ISDIR (tn_mode src) \<and> \<not> S_ISDIR (tn_mode dst) then Some ENOTDIR
          else if \<not> S_ISDIR (tn_mode src) \<and> S_ISDIR (tn_mode dst) then Some EISDIR
          else if S_ISDIR (tn_mode dst) \<and> tn_entries dst \<noteq> [] then Some ENOTEMPTY
          else None)"

text \<open>The entry \<open>name\<close> of a directory is made to point to \<open>ino\<close>.\<close>

definition set_dirent :: "string \<Rightarrow> u32 \<Rightarrow> tmpfs_node \<Rightarrow> tmpfs_node" where
  "set_dirent name ino d = d \<lparr> tn_entries :=
     map (\<lambda>de. if de_name de = name then de \<lparr> de_ino := ino \<rparr> else de) (tn_entries d) \<rparr>"

definition del_name :: "string \<Rightarrow> tmpfs_node \<Rightarrow> tmpfs_node" where
  "del_name name d = (case tmpfs_find_dirent d name of None \<Rightarrow> d | Some de \<Rightarrow> del_dirent de d)"

text \<open>A directory that moved has a new parent; then the times of both directories.\<close>

definition tmpfs_rename_finish :: "tm_env \<Rightarrow> u32 \<Rightarrow> u32 \<Rightarrow> tmpfs_node \<Rightarrow> tmpfs_st \<Rightarrow> tmpfs_st" where
  "tmpfs_rename_finish e old_dir new_dir src s =
     (let s = (if S_ISDIR (tn_mode src) \<and> old_dir \<noteq> new_dir then
                 let s = on_sb (upd_node (tn_ino src) (\<lambda>n. n \<lparr> tn_parent_ino := new_dir \<rparr>)) s;
                     s = on_sb (upd_node old_dir (\<lambda>d. if tn_nlink d > 2 then d \<lparr> tn_nlink := tn_nlink d - 1 \<rparr> else d)) s;
                     s = on_sb (upd_node new_dir (\<lambda>d. d \<lparr> tn_nlink := tn_nlink d + 1 \<rparr>)) s;
                     link = (\<lambda>ino s. case tmpfs_find_node (fs_sb s) ino of
                               Some d \<Rightarrow> upd_inode ino (\<lambda>i. i \<lparr> i_nlink := tn_nlink d \<rparr>) s | None \<Rightarrow> s)
                 in link new_dir (link old_dir s)
               else s);
          s = upd_inode old_dir (touch_inode e) (on_sb (upd_node old_dir (touch e)) s);
          s = upd_inode new_dir (touch_inode e) (on_sb (upd_node new_dir (touch e)) s)
      in s)"

definition tmpfs_rename ::
  "tm_env \<Rightarrow> u32 \<Rightarrow> string \<Rightarrow> u32 \<Rightarrow> string \<Rightarrow> bool \<Rightarrow> tmpfs_st \<Rightarrow> errno option \<times> tmpfs_st" where
  "tmpfs_rename e old_dir old_name new_dir new_name must_be_dir s =
     (let leave = (\<lambda>s. iput e new_dir (iput e old_dir s))
      in case (tmpfs_find_node (fs_sb s) old_dir, tmpfs_find_node (fs_sb s) new_dir) of
           (Some odnode, Some ndnode) \<Rightarrow>
             (case tmpfs_find_dirent odnode old_name of
                None \<Rightarrow> (Some ENOENT, leave s)
              | Some old_de \<Rightarrow>
                  (case tmpfs_find_node (fs_sb s) (de_ino old_de) of
                     None \<Rightarrow> (Some ENOENT, leave s)
                   | Some src \<Rightarrow>
                       if must_be_dir \<and> \<not> S_ISDIR (tn_mode src) then (Some ENOTDIR, leave s)
                       else
                         (case tmpfs_check_sticky e odnode src of
                            Some err \<Rightarrow> (Some err, leave s)
                          | None \<Rightarrow>
                              (case tmpfs_find_dirent ndnode new_name of
                                 Some new_de \<Rightarrow>
                                   if old_dir = new_dir \<and> old_name = new_name then (None, leave s)
                                   else
                                     (case tmpfs_find_node (fs_sb s) (de_ino new_de) of
                                        None \<Rightarrow> (Some ENOENT, leave s)
                                      | Some dst \<Rightarrow>
                                          (case tmpfs_rename_refused e ndnode src dst of
                                             Some err \<Rightarrow> (Some err, leave s)
                                           | None \<Rightarrow>
                                               let s = on_sb (upd_node new_dir (set_dirent new_name (tn_ino src))) s;
                                                   s = on_sb (upd_node old_dir (del_name old_name)) s;
                                                   s = tmpfs_replace_dst e new_dir dst s;
                                                   s = tmpfs_rename_finish e old_dir new_dir src s
                                               in (None, leave s)))
                               | None \<Rightarrow>
                                   (case tmpfs_add_dirent e new_dir new_name (tn_ino src) (fs_sb s) of
                                      Inl err \<Rightarrow> (Some err, leave s)
                                    | Inr b \<Rightarrow>
                                        let s = s \<lparr> fs_sb := upd_node old_dir (del_name old_name) b \<rparr>;
                                            s = tmpfs_rename_finish e old_dir new_dir src s
                                        in (None, leave s))))))
         | _ \<Rightarrow> (Some EINVAL, leave s))"

section \<open>Symbolic links\<close>

definition tmpfs_readlink :: "tm_env \<Rightarrow> u32 \<Rightarrow> nat \<Rightarrow> tmpfs_st \<Rightarrow> string res \<times> tmpfs_st" where
  "tmpfs_readlink e ino buflen s =
     (case (fs_ic s ino, tmpfs_find_node (fs_sb s) ino) of
        (Some i, Some n) \<Rightarrow>
          (case tn_symlink_target n of
             Some link \<Rightarrow>
               if \<not> S_ISLNK (i_mode i) then (Inl EINVAL, iput e ino s)
               else
                 let s = on_sb (upd_node ino (\<lambda>n. n \<lparr> tn_atime := te_now e \<rparr>)) s;
                     s = upd_inode ino (\<lambda>i. i \<lparr> i_atime := te_now e \<rparr>) s
                 in (Inr (take buflen (c_str link)), iput e ino s)
           | None \<Rightarrow> (Inl EINVAL, iput e ino s))
      | _ \<Rightarrow> (Inl EINVAL, iput e ino s))"

text \<open>
  Following a link: \<open>open_namei\<close> is the path walk, which the task's link counter bounds.
\<close>

definition tmpfs_follow_link ::
  "tm_env \<Rightarrow> (string \<Rightarrow> nat \<Rightarrow> tmpfs_st \<Rightarrow> u32 res \<times> tmpfs_st) \<Rightarrow> nat \<Rightarrow> u32 \<Rightarrow> u32 \<Rightarrow> tmpfs_st \<Rightarrow> u32 res \<times> tmpfs_st" where
  "tmpfs_follow_link e open_namei link_count dir ino s =
     (case fs_ic s ino of
        None \<Rightarrow> (Inl ENOENT, iput e dir s)
      | Some i \<Rightarrow>
          if \<not> S_ISLNK (i_mode i) then (Inr ino, iput e dir s)
          else if link_count > 5 then (Inl ELOOP, iput e ino (iput e dir s))
          else
            (case tmpfs_find_node (fs_sb s) ino of
               None \<Rightarrow> (Inl EIO, iput e ino (iput e dir s))
             | Some n \<Rightarrow>
                 (case tn_symlink_target n of
                    None \<Rightarrow> (Inl EIO, iput e ino (iput e dir s))
                  | Some target \<Rightarrow>
                      let s = on_sb (upd_node ino (\<lambda>n. n \<lparr> tn_atime := te_now e \<rparr>)) s;
                          s = upd_inode ino (\<lambda>i. i \<lparr> i_atime := te_now e \<rparr>) s;
                          (r, s) = open_namei target (link_count + 1) s
                      in (r, iput e ino s))))"

section \<open>The superblock\<close>

lemma free_page_nodes: "tb_nodes (snd (tmpfs_free_page i nb)) = tb_nodes (snd nb)"
  by (cases nb) (simp add: tmpfs_free_page_def)

lemma free_pages_nodes: "tb_nodes (snd (fold tmpfs_free_page is nb)) = tb_nodes (snd nb)"
  by (induction "is" arbitrary: nb) (simp_all add: free_page_nodes)

lemma destroy_node_nodes: "tb_nodes (tmpfs_destroy_node ino b) = filter (\<lambda>n. tn_ino n \<noteq> ino) (tb_nodes b)"
proof (cases "tmpfs_find_node b ino")
  case None
  then have "filter (\<lambda>n. tn_ino n \<noteq> ino) (tb_nodes b) = tb_nodes b"
    by (intro filter_True) (auto simp: tmpfs_find_node_def find_None_iff)
  with None show ?thesis by (simp add: tmpfs_destroy_node_def)
next
  case (Some n)
  then show ?thesis
    using free_pages_nodes [of "[0..<length (tn_pages n)]" "(n, b \<lparr> tb_nodes := filter (\<lambda>n. tn_ino n \<noteq> ino) (tb_nodes b) \<rparr>)"]
    by (auto simp: tmpfs_destroy_node_def tmpfs_free_node_pages_def Let_def split: prod.splits)
qed

text \<open>Unmounting destroys the nodes one after the other.\<close>

function tmpfs_put_super :: "tmpfs_sb \<Rightarrow> tmpfs_sb" where
  "tmpfs_put_super b =
     (case tb_nodes b of [] \<Rightarrow> b | n # _ \<Rightarrow> tmpfs_put_super (tmpfs_destroy_node (tn_ino n) b))"
  by auto
termination
proof (relation "measure (\<lambda>b. length (tb_nodes b))")
  fix b :: tmpfs_sb and n ns
  assume "tb_nodes b = n # ns"
  then show "(tmpfs_destroy_node (tn_ino n) b, b) \<in> measure (\<lambda>b. length (tb_nodes b))"
    using length_filter_le [of "\<lambda>m. tn_ino m \<noteq> tn_ino n" ns] by (simp add: destroy_node_nodes less_Suc_eq_le)
qed simp

declare tmpfs_put_super.simps [simp del]

record statfs =
  f_type :: u32
  f_bsize :: nat
  f_namelen :: nat
  f_blocks :: u32
  f_bfree :: u32
  f_bavail :: u32
  f_files :: u32
  f_ffree :: u32

definition tmpfs_statfs :: "tmpfs_sb \<Rightarrow> statfs" where
  "tmpfs_statfs b =
     (let total_blocks = drop_bit 12 (tb_max_bytes b);
          used_blocks = drop_bit 12 (tb_bytes_used b);
          free_blocks = (if total_blocks > used_blocks then total_blocks - used_blocks else 0)
      in \<lparr> f_type = TMPFS_SUPER_MAGIC, f_bsize = PAGE_SIZE, f_namelen = TMPFS_NAME_LEN,
           f_blocks = total_blocks, f_bfree = free_blocks, f_bavail = free_blocks,
           f_files = tb_max_inodes b,
           f_ffree = (if tb_max_inodes b > tb_nr_inodes b then tb_max_inodes b - tb_nr_inodes b else 0) \<rparr>)"

fun parse_digits :: "nat \<Rightarrow> string \<Rightarrow> u32 \<Rightarrow> u32 \<times> string" where
  "parse_digits base [] val = (val, [])"
| "parse_digits base (c # cs) val =
     (if isdigit c \<and> of_char c - 48 < base then parse_digits base cs (val * of_nat base + of_nat (of_char c - 48))
      else (val, c # cs))"

definition tmpfs_parse_size :: "string \<Rightarrow> nat \<Rightarrow> u32" where
  "tmpfs_parse_size s base =
     (case parse_digits base (c_str s) 0 of
        (val, []) \<Rightarrow> val
      | (val, c # _) \<Rightarrow>
          if c = CHR ''k'' \<or> c = CHR ''K'' then val * 1024
          else if c = CHR ''m'' \<or> c = CHR ''M'' then val * (1024 * 1024)
          else val)"

definition tmpfs_parse_option :: "string \<Rightarrow> tmpfs_sb \<Rightarrow> tmpfs_sb" where
  "tmpfs_parse_option p b =
     (if take 5 p = ''size='' then
        let sz = tmpfs_parse_size (drop 5 p) 10
        in if sz \<ge> of_nat PAGE_SIZE then b \<lparr> tb_max_bytes := (sz + of_nat PAGE_SIZE - 1) AND 0xFFFFF000 \<rparr> else b
      else if take 5 p = ''mode='' then
        b \<lparr> tb_root_mode := ucast (tmpfs_parse_size (drop 5 p) 8) AND 0xFFF \<rparr>
      else if take 10 p = ''nr_inodes='' then
        let ni = tmpfs_parse_size (drop 10 p) 10
        in if ni \<ge> 16 then b \<lparr> tb_max_inodes := ni \<rparr> else b
      else b)"

function tmpfs_parse_options :: "string \<Rightarrow> tmpfs_sb \<Rightarrow> tmpfs_sb" where
  "tmpfs_parse_options p b =
     (if p = [] then b
      else
        let b = tmpfs_parse_option (takeWhile (\<lambda>c. c \<noteq> CHR '','') p) b
        in case dropWhile (\<lambda>c. c \<noteq> CHR '','') p of
             [] \<Rightarrow> b
           | _ # p \<Rightarrow> tmpfs_parse_options p b)"
  by auto
termination
proof (relation "measure (\<lambda>(p, b). length p)")
  fix p :: string and b :: tmpfs_sb and x c q
  assume "dropWhile (\<lambda>c. c \<noteq> CHR '','') p = c # q"
  then have "length (c # q) \<le> length p"
    using length_dropWhile_le [of "\<lambda>c. c \<noteq> CHR '',''" p] by simp
  then show "((q, x), p, b) \<in> measure (\<lambda>(p, b). length p)"
    by simp
qed auto

declare tmpfs_parse_options.simps [simp del]

definition tmpfs_super0 :: tmpfs_sb where
  "tmpfs_super0 = \<lparr> tb_max_bytes = TMPFS_DEFAULT_MAX_BYTES, tb_bytes_used = 0, tb_max_inodes = TMPFS_DEFAULT_INODES,
     tb_nr_inodes = 0, tb_next_ino = TMPFS_ROOT_INO, tb_root_mode = 0x3FF, tb_nodes = [] \<rparr>"

definition tmpfs_read_super :: "tm_env \<Rightarrow> string \<Rightarrow> tmpfs_st option" where
  "tmpfs_read_super e options =
     (let b = tmpfs_parse_options (c_str options) tmpfs_super0
      in case tmpfs_alloc_node e (S_IFDIR OR tb_root_mode b) 0 b of
           None \<Rightarrow> None
         | Some (ino, b) \<Rightarrow>
             let b = upd_node ino (\<lambda>n. n \<lparr> tn_uid := 0, tn_gid := 0, tn_parent_ino := TMPFS_ROOT_INO \<rparr>) b
             in iget e TMPFS_ROOT_INO \<lparr> fs_sb = b, fs_ic = Map.empty \<rparr>)"

end
