(* ===== verification/Tmpfs_File.thy ===== *)
theory Tmpfs_File
  imports Tmpfs
begin

text \<open>
  The regular files of the in-memory file system as byte arrays: what the page loops of read,
  write and truncate do to the contents, and to the accounting of pages.
\<close>

section \<open>Contents and pages of a node\<close>

text \<open>The byte of a file at an offset; holes and everything past the last page are zero.\<close>

definition byte_at :: "tmpfs_node \<Rightarrow> nat \<Rightarrow> u8" where
  "byte_at n i =
     (if i div PAGE_SIZE < length (tn_pages n) then
        (case tn_pages n ! (i div PAGE_SIZE) of Some pg \<Rightarrow> pg ! (i mod PAGE_SIZE) | None \<Rightarrow> 0)
      else 0)"

definition npages :: "'a option list \<Rightarrow> nat" where
  "npages ps = length (filter (\<lambda>p. p \<noteq> None) ps)"

definition pages_ok :: "tmpfs_node \<Rightarrow> bool" where
  "pages_ok n \<longleftrightarrow> length (tn_pages n) \<le> TMPFS_MAX_FILE_PAGES \<and>
     (\<forall>pg. Some pg \<in> set (tn_pages n) \<longrightarrow> length pg = PAGE_SIZE) \<and>
     tn_nr_pages n = of_nat (npages (tn_pages n))"

lemma page_len: "pages_ok n \<Longrightarrow> p < length (tn_pages n) \<Longrightarrow> tn_pages n ! p = Some pg \<Longrightarrow> length pg = PAGE_SIZE"
  using nth_mem [of p "tn_pages n"] by (simp add: pages_ok_def)

lemma PAGE_SIZE_pos [simp]: "0 < PAGE_SIZE"
  by (simp add: PAGE_SIZE_def)

lemma npages_simps [simp]:
  "npages [] = 0" "npages (x # xs) = (if x = None then 0 else 1) + npages xs"
  "npages (xs @ ys) = npages xs + npages ys" "npages (replicate k None) = 0"
  by (simp_all add: npages_def)

lemma npages_le: "npages xs \<le> length xs"
  by (simp add: npages_def)

lemma npages_update:
  "i < length xs \<Longrightarrow> npages (xs [i := y]) + (if xs ! i = None then 0 else 1) = npages xs + (if y = None then 0 else 1)"
proof -
  assume i: "i < length xs"
  then have "npages xs = npages (take i xs) + npages (xs ! i # drop (Suc i) xs)"
    by (metis id_take_nth_drop npages_simps(3))
  then show ?thesis
    using i by (simp add: upd_conv_take_nth_drop)
qed

lemma npages_update_Some: "i < length xs \<Longrightarrow> xs ! i \<noteq> None \<Longrightarrow> npages (xs [i := Some y]) = npages xs"
  using npages_update [of i xs "Some y"] by (simp split: if_splits)

lemma npages_update_new: "i < length xs \<Longrightarrow> xs ! i = None \<Longrightarrow> npages (xs [i := Some y]) = npages xs + 1"
  using npages_update [of i xs "Some y"] by simp

text \<open>Offsets within the reach of a signed 32-bit position.\<close>

lemma s32_id: "- (2 ^ 31) \<le> x \<Longrightarrow> x < 2 ^ 31 \<Longrightarrow> s32 x = x"
  by (simp add: s32_def signed_take_bit_int_eq_self)

lemma s32_wrap: "2 ^ 31 \<le> x \<Longrightarrow> x < 2 ^ 32 + 2 ^ 31 \<Longrightarrow> s32 x = x - 2 ^ 32"
proof -
  assume x: "2 ^ 31 \<le> x" "x < 2 ^ 32 + 2 ^ 31"
  have "take_bit 32 (x + 2 ^ 31) = (x + 2 ^ 31 - 2 ^ 32) mod 2 ^ 32"
    unfolding take_bit_eq_mod minus_mod_self2 ..
  also have "\<dots> = x + 2 ^ 31 - 2 ^ 32"
    using x by (intro mod_pos_pos_trivial) simp_all
  finally show ?thesis
    by (simp add: s32_def signed_take_bit_eq_take_bit_shift)
qed

lemma page_of_nat: "p < 2 ^ 31 \<Longrightarrow> page_of (int p) = p div PAGE_SIZE"
proof -
  assume "p < 2 ^ 31"
  then have "p div PAGE_SIZE < 2 ^ 32"
    by (simp add: PAGE_SIZE_def)
  then have "take_bit 32 (int (p div PAGE_SIZE)) = int (p div PAGE_SIZE)"
    by (intro take_bit_int_eq_self) simp_all
  then show ?thesis by (simp add: page_of_def zdiv_int [symmetric])
qed

lemma off_of_nat: "off_of (int p) = p mod PAGE_SIZE"
  by (simp add: off_of_def nat_mod_distrib)

lemma page_bytes_eq:
  assumes "pages_ok n" and "off + k \<le> PAGE_SIZE"
  shows "page_bytes n p off k = map (byte_at n) [p * PAGE_SIZE + off..<p * PAGE_SIZE + off + k]"
proof (rule nth_equalityI)
  note pg = page_len [OF assms(1), of p]
  show len: "length (page_bytes n p off k) = length (map (byte_at n) [p * PAGE_SIZE + off..<p * PAGE_SIZE + off + k])"
    using assms(2) pg by (auto simp: page_bytes_def split: option.splits)
  fix i assume "i < length (page_bytes n p off k)"
  then have i: "i < k" using len by simp
  then have d: "(p * PAGE_SIZE + off + i) div PAGE_SIZE = p" "(p * PAGE_SIZE + off + i) mod PAGE_SIZE = off + i"
    using assms(2) by (simp_all add: div_eq_dividend_iff add.assoc)
  show "page_bytes n p off k ! i = map (byte_at n) [p * PAGE_SIZE + off..<p * PAGE_SIZE + off + k] ! i"
    using i assms(2) pg by (auto simp: page_bytes_def byte_at_def d split: option.splits)
qed

lemma chunk_le: "off_of (int p) + min (PAGE_SIZE - off_of (int p)) k \<le> PAGE_SIZE"
  using off_of_less [of "int p"] by simp

lemma page_split: "p div PAGE_SIZE * PAGE_SIZE + p mod PAGE_SIZE = p"
  by simp

section \<open>Reading\<close>

lemma read_loop_bytes:
  assumes "pages_ok n" and "p + count < 2 ^ 31"
  shows "tmpfs_read_loop n (int p) count = map (byte_at n) [p..<p + count]"
  using assms(2)
proof (induction count arbitrary: p rule: less_induct)
  case (less count)
  show ?case
  proof (cases "count = 0")
    case True
    then show ?thesis by (simp add: tmpfs_read_loop.simps)
  next
    case False
    define c where "c = min (PAGE_SIZE - off_of (int p)) count"
    have c: "0 < c" "c \<le> count" "off_of (int p) + c \<le> PAGE_SIZE"
      using False off_of_less [of "int p"] by (auto simp: c_def)
    have "page_bytes n (page_of (int p)) (off_of (int p)) c = map (byte_at n) [p..<p + c]"
      using page_bytes_eq [OF assms(1) c(3), of "p div PAGE_SIZE"] less.prems
      by (simp add: page_of_nat off_of_nat page_split)
    moreover have "tmpfs_read_loop n (s32 (int p + int c)) (count - c) = map (byte_at n) [p + c..<p + count]"
      using less.IH [of "count - c" "p + c"] c less.prems by (simp add: s32_id)
    moreover have "[p..<p + count] = [p..<p + c] @ [p + c..<p + count]"
      using upt_add_eq_append [of p "p + c" "count - c"] c(2) by simp
    ultimately show ?thesis
      using False by (subst tmpfs_read_loop.simps) (simp add: Let_def c_def)
  qed
qed

section \<open>Writing\<close>

lemma grow_cap_bounds: "0 < cap \<Longrightarrow> page_idx < tmpfs_grow_cap page_idx cap \<or> TMPFS_MAX_FILE_PAGES \<le> tmpfs_grow_cap page_idx cap"
  by (induction page_idx cap rule: tmpfs_grow_cap.induct) (subst (1 2) tmpfs_grow_cap.simps, auto)

lemma grow_cap_ge: "cap \<le> tmpfs_grow_cap page_idx cap"
  by (induction page_idx cap rule: tmpfs_grow_cap.induct) (subst tmpfs_grow_cap.simps, auto)

lemma ensure_page_table:
  assumes "tmpfs_ensure_page_table e n p = Inr n'" and "pages_ok n"
  obtains k where "n' = n \<lparr> tn_pages := tn_pages n @ replicate k None \<rparr>" and "pages_ok n'" and "p < length (tn_pages n')"
proof (cases "p < length (tn_pages n)")
  case True
  then have "n' = n"
    using assms(1) by (auto simp: tmpfs_ensure_page_table_def Let_def split: if_splits)
  then show ?thesis
    using that [of 0] True assms(2) by simp
next
  case False
  let ?c = "min TMPFS_MAX_FILE_PAGES (tmpfs_grow_cap p (if tn_pages n = [] then 64 else length (tn_pages n)))"
  let ?k = "?c - length (tn_pages n)"
  have n': "n' = n \<lparr> tn_pages := tn_pages n @ replicate ?k None \<rparr>" and p: "p < TMPFS_MAX_FILE_PAGES"
    using assms(1) False by (auto simp: tmpfs_ensure_page_table_def Let_def split: if_splits)
  have "p < ?c"
    using p grow_cap_bounds [of "if tn_pages n = [] then 64 else length (tn_pages n)" p] by auto
  moreover have "length (tn_pages n) \<le> ?c"
    using assms(2) grow_cap_ge [of "length (tn_pages n)" p] by (auto simp: pages_ok_def)
  ultimately show ?thesis
    using that [OF n'] assms(2) unfolding n' pages_ok_def by auto
qed

lemma byte_at_grow [simp]: "byte_at (n \<lparr> tn_pages := tn_pages n @ replicate k None \<rparr>) = byte_at n"
  by (auto simp: fun_eq_iff byte_at_def nth_append)

lemma byte_at_cong: "tn_pages n = tn_pages m \<Longrightarrow> byte_at n = byte_at m"
  by (simp add: fun_eq_iff byte_at_def)

text \<open>The accounting a write keeps: the bytes used grow by the new pages and stay below the limit.\<close>

definition space_ok :: "tmpfs_sb \<Rightarrow> bool" where
  "space_ok b \<longleftrightarrow> tb_bytes_used b \<le> tb_max_bytes b \<and> unat (tb_max_bytes b) + PAGE_SIZE < 2 ^ 32"

lemma get_page:
  assumes g: "tmpfs_get_page e p (n, b) = Inr (n', b')" and ok: "pages_ok n" "p < length (tn_pages n)" "space_ok b"
  shows "pages_ok n' \<and> byte_at n' = byte_at n \<and> (\<exists>pg. tn_pages n' ! p = Some pg \<and> length pg = PAGE_SIZE) \<and>
    length (tn_pages n') = length (tn_pages n) \<and> space_ok b' \<and>
    unat (tb_bytes_used b') + PAGE_SIZE * npages (tn_pages n) = unat (tb_bytes_used b) + PAGE_SIZE * npages (tn_pages n') \<and>
    b' = b \<lparr> tb_bytes_used := tb_bytes_used b' \<rparr> \<and>
    n' = n \<lparr> tn_pages := tn_pages n', tn_nr_pages := tn_nr_pages n' \<rparr>"
proof (cases "tn_pages n ! p")
  case (Some pg)
  then have "n' = n" "b' = b" "length pg = PAGE_SIZE"
    using g page_len [OF ok(1,2) Some] Some by (auto simp: tmpfs_get_page_def split: if_splits)
  then show ?thesis
    using ok Some by simp
next
  case None
  let ?z = "Some (replicate PAGE_SIZE (0 :: u8))"
  have n': "n' = n \<lparr> tn_pages := (tn_pages n) [p := ?z], tn_nr_pages := tn_nr_pages n + 1 \<rparr>"
    and b': "b' = b \<lparr> tb_bytes_used := tb_bytes_used b + of_nat PAGE_SIZE \<rparr>"
    and room: "tb_bytes_used b + of_nat PAGE_SIZE \<le> tb_max_bytes b"
    using g None by (auto simp: tmpfs_get_page_def split: if_splits)
  have len: "length pg = PAGE_SIZE" if "Some pg \<in> set ((tn_pages n) [p := ?z])" for pg
    using that ok(1) set_update_subset_insert [of "tn_pages n" p ?z] by (auto simp: pages_ok_def)
  have "unat (tb_bytes_used b) \<le> unat (tb_max_bytes b)"
    using ok(3) by (simp add: space_ok_def word_le_nat_alt)
  then have u: "unat (tb_bytes_used b + of_nat PAGE_SIZE) = unat (tb_bytes_used b) + PAGE_SIZE"
    using ok(3) by (simp add: space_ok_def unat_word_ariths PAGE_SIZE_def)
  have np: "npages ((tn_pages n) [p := ?z]) = npages (tn_pages n) + 1"
    by (rule npages_update_new [OF ok(2) None])
  have "pages_ok n'"
    using ok(1) len np by (simp add: pages_ok_def n')
  moreover have "byte_at n' = byte_at n"
    using None ok(2) by (auto simp: fun_eq_iff byte_at_def n' nth_list_update split: option.splits)
  moreover have "space_ok b'"
    using ok(3) room by (simp add: space_ok_def b')
  ultimately show ?thesis
    using ok(2) u np by (simp add: n' b')
qed

lemma put_bytes:
  assumes ok: "pages_ok n" and p: "p < length (tn_pages n)" "tn_pages n ! p = Some pg"
    and d: "off + length d \<le> PAGE_SIZE"
    and n': "tn_pages n' = (tn_pages n) [p := Some (blit off d pg)]" "tn_nr_pages n' = tn_nr_pages n"
  shows "pages_ok n'" and "npages (tn_pages n') = npages (tn_pages n)"
    and "byte_at n' i = (if p * PAGE_SIZE + off \<le> i \<and> i < p * PAGE_SIZE + off + length d
                         then d ! (i - (p * PAGE_SIZE + off)) else byte_at n i)"
proof -
  note pg = page_len [OF ok p]
  have len: "length (blit off d pg) = PAGE_SIZE"
    using d pg by (simp add: length_blit)
  show np: "npages (tn_pages n') = npages (tn_pages n)"
    using p n'(1) by (simp add: npages_update_Some)
  have "Some pg' \<in> set ((tn_pages n) [p := Some (blit off d pg)]) \<Longrightarrow> length pg' = PAGE_SIZE" for pg'
    using ok len set_update_subset_insert [of "tn_pages n" p "Some (blit off d pg)"] by (auto simp: pages_ok_def)
  then show "pages_ok n'"
    using ok np n' by (simp add: pages_ok_def)
  show "byte_at n' i = (if p * PAGE_SIZE + off \<le> i \<and> i < p * PAGE_SIZE + off + length d
      then d ! (i - (p * PAGE_SIZE + off)) else byte_at n i)"
  proof (cases "i div PAGE_SIZE = p")
    case True
    then have i: "i = p * PAGE_SIZE + i mod PAGE_SIZE"
      using div_mult_mod_eq [of i PAGE_SIZE] by simp
    have m: "i mod PAGE_SIZE < PAGE_SIZE" by simp
    have "byte_at n' i = blit off d pg ! (i mod PAGE_SIZE)"
      using True p n'(1) by (simp add: byte_at_def)
    also have "\<dots> = (if off \<le> i mod PAGE_SIZE \<and> i mod PAGE_SIZE < off + length d then d ! (i mod PAGE_SIZE - off) else pg ! (i mod PAGE_SIZE))"
      using d pg m by (simp add: nth_blit)
    finally show ?thesis
      using i p True by (simp add: byte_at_def) (metis (no_types, opaque_lifting) add_diff_cancel_left add_le_cancel_left add_less_cancel_left add.assoc)
  next
    case False
    have "\<not> (p * PAGE_SIZE + off \<le> i \<and> i < p * PAGE_SIZE + off + length d)"
    proof
      assume a: "p * PAGE_SIZE + off \<le> i \<and> i < p * PAGE_SIZE + off + length d"
      then have "i div PAGE_SIZE = p"
        using d by (intro div_nat_eqI) (simp_all add: algebra_simps)
      with False show False ..
    qed
    moreover have "byte_at n' i = byte_at n i"
      using False p(1) n'(1) by (simp add: byte_at_def nth_list_update)
    ultimately show ?thesis by (simp only: if_False)
  qed
qed

text \<open>What a write has done after \<open>k\<close> bytes, to the contents and to the accounting.\<close>

definition wrote :: "nat \<Rightarrow> u8 list \<Rightarrow> tmpfs_node \<times> tmpfs_sb \<Rightarrow> tmpfs_node \<times> tmpfs_sb \<Rightarrow> bool" where
  "wrote p d nb nb' \<longleftrightarrow>
     (let (n, b) = nb; (n', b') = nb'
      in (\<forall>i. byte_at n' i = (if p \<le> i \<and> i < p + length d then d ! (i - p) else byte_at n i)) \<and>
         tn_size n' = (if d = [] then tn_size n else max (tn_size n) (int (p + length d))) \<and>
         pages_ok n' \<and> space_ok b' \<and>
         unat (tb_bytes_used b') + PAGE_SIZE * npages (tn_pages n) = unat (tb_bytes_used b) + PAGE_SIZE * npages (tn_pages n') \<and>
         b' = b \<lparr> tb_bytes_used := tb_bytes_used b' \<rparr> \<and>
         n' = n \<lparr> tn_size := tn_size n', tn_pages := tn_pages n', tn_nr_pages := tn_nr_pages n' \<rparr>)"

lemma wrote_Nil: "pages_ok n \<Longrightarrow> space_ok b \<Longrightarrow> wrote p [] (n, b) (n, b)"
  by (auto simp: wrote_def)

lemma keeps_sb:
  assumes "b2 = b1 \<lparr> tb_bytes_used := tb_bytes_used b2 \<rparr>" and "b1 = b \<lparr> tb_bytes_used := tb_bytes_used b1 \<rparr>"
  shows "b2 = b \<lparr> tb_bytes_used := tb_bytes_used b2 \<rparr>"
proof -
  have "b1 \<lparr> tb_bytes_used := u \<rparr> = b \<lparr> tb_bytes_used := u \<rparr>" for u
    by (subst assms(2)) simp
  then show ?thesis using assms(1) by simp
qed

lemma keeps_node:
  assumes "n2 = n1 \<lparr> tn_size := tn_size n2, tn_pages := tn_pages n2, tn_nr_pages := tn_nr_pages n2 \<rparr>"
    and "n1 = n \<lparr> tn_size := tn_size n1, tn_pages := tn_pages n1, tn_nr_pages := tn_nr_pages n1 \<rparr>"
  shows "n2 = n \<lparr> tn_size := tn_size n2, tn_pages := tn_pages n2, tn_nr_pages := tn_nr_pages n2 \<rparr>"
proof -
  have "n1 \<lparr> tn_size := x, tn_pages := y, tn_nr_pages := z \<rparr> = n \<lparr> tn_size := x, tn_pages := y, tn_nr_pages := z \<rparr>" for x y z
    by (subst assms(2)) simp
  then show ?thesis using assms(1) by simp
qed

lemma wrote_trans:
  assumes "wrote p d (n, b) nb1" and "wrote (p + length d) d' nb1 nb2" and "d \<noteq> []"
  shows "wrote p (d @ d') (n, b) nb2"
proof -
  obtain n1 b1 n2 b2 where nb: "nb1 = (n1, b1)" "nb2 = (n2, b2)"
    by (cases nb1, cases nb2)
  note w1 = assms(1) [unfolded wrote_def nb Let_def prod.case]
  note w2 = assms(2) [unfolded wrote_def nb Let_def prod.case]
  have "byte_at n2 i = (if p \<le> i \<and> i < p + length (d @ d') then (d @ d') ! (i - p) else byte_at n i)" for i
    using w1 w2 by (auto simp: nth_append)
  moreover have "tn_size n2 = (if d @ d' = [] then tn_size n else max (tn_size n) (int (p + length (d @ d'))))"
    using w1 w2 assms(3) by (auto split: if_splits)
  moreover have "unat (tb_bytes_used b2) + PAGE_SIZE * npages (tn_pages n) = unat (tb_bytes_used b) + PAGE_SIZE * npages (tn_pages n2)"
    using w1 w2 by simp
  moreover have "b2 = b \<lparr> tb_bytes_used := tb_bytes_used b2 \<rparr>"
    by (rule keeps_sb [of b2 b1 b]) (use w1 w2 in blast)+
  moreover have "n2 = n \<lparr> tn_size := tn_size n2, tn_pages := tn_pages n2, tn_nr_pages := tn_nr_pages n2 \<rparr>"
    by (rule keeps_node [of n2 n1 n]) (use w1 w2 in blast)+
  moreover have "pages_ok n2" "space_ok b2"
    using w2 by blast+
  ultimately show ?thesis
    unfolding wrote_def nb Let_def prod.case by blast
qed

text \<open>One page worth of a write.\<close>

lemma write_chunk:
  assumes ok: "pages_ok n" "space_ok b" and p: "p < 2 ^ 31" and d: "d \<noteq> []" "p mod PAGE_SIZE + length d \<le> PAGE_SIZE"
    and en: "tmpfs_ensure_page_table e n (p div PAGE_SIZE) = Inr n1"
    and gp: "tmpfs_get_page e (p div PAGE_SIZE) (n1, b) = Inr (n2, b2)"
    and n': "n' = n2 \<lparr> tn_pages := (tn_pages n2) [p div PAGE_SIZE :=
        Some (blit (p mod PAGE_SIZE) d (the (tn_pages n2 ! (p div PAGE_SIZE))))],
        tn_size := (if int (p + length d) > tn_size n2 then int (p + length d) else tn_size n2) \<rparr>"
  shows "wrote p d (n, b) (n', b2)"
proof -
  obtain k where k: "n1 = n \<lparr> tn_pages := tn_pages n @ replicate k None \<rparr>" "pages_ok n1"
      "p div PAGE_SIZE < length (tn_pages n1)"
    by (rule ensure_page_table [OF en ok(1)])
  note g = get_page [OF gp k(2,3) ok(2)]
  then obtain pg where pg: "tn_pages n2 ! (p div PAGE_SIZE) = Some pg" by blast
  have l2: "p div PAGE_SIZE < length (tn_pages n2)"
    using g k(3) by simp
  have t: "tn_pages n' = (tn_pages n2) [p div PAGE_SIZE := Some (blit (p mod PAGE_SIZE) d pg)]"
      "tn_nr_pages n' = tn_nr_pages n2"
    by (simp_all add: n' pg)
  have g2: "pages_ok n2" using g by blast
  note pb = put_bytes [OF g2 l2 pg d(2) t]
  have "byte_at n' i = (if p \<le> i \<and> i < p + length d then d ! (i - p) else byte_at n i)" for i
    using pb(3) [of i] g k(1) by (simp add: page_split)
  moreover have "n1 \<lparr> tn_pages := x, tn_nr_pages := y \<rparr> = n \<lparr> tn_pages := x, tn_nr_pages := y \<rparr>" for x y
    by (simp add: k(1))
  then have n2: "n2 = n \<lparr> tn_pages := tn_pages n2, tn_nr_pages := tn_nr_pages n2 \<rparr>"
    using g by metis
  then have s2: "tn_size n2 = tn_size n"
    by (metis tmpfs_node.simps(8) tmpfs_node.update_convs(12,13) tmpfs_node.surjective)
  moreover have "n' = n \<lparr> tn_size := tn_size n', tn_pages := tn_pages n', tn_nr_pages := tn_nr_pages n' \<rparr>"
    unfolding n' by (subst n2) simp
  moreover have "tn_size n' = (if d = [] then tn_size n else max (tn_size n) (int (p + length d)))"
    using d(1) by (simp add: n' s2)
  moreover have "npages (tn_pages n1) = npages (tn_pages n)"
    by (simp add: k(1))
  ultimately show ?thesis
    using g pb(1,2) unfolding wrote_def Let_def prod.case by metis
qed

lemma write_loop_wrote:
  assumes "pages_ok n" and "space_ok b" and "p + length data < 2 ^ 31"
  shows "\<exists>err k n' b'. tmpfs_write_loop e (int p) data w (n, b) = (err, int (p + k), w + k, n', b') \<and> k \<le> length data \<and>
    wrote p (take k data) (n, b) (n', b') \<and> (err = None \<longleftrightarrow> k = length data)"
  using assms
proof (induction data arbitrary: p w n b rule: length_induct)
  case (1 data)
  note IH = 1(1) [rule_format] and ok = 1(2,3) and lt = 1(4)
  show ?case
  proof (cases "data = []")
    case True
    then show ?thesis
      using wrote_Nil [OF ok] by (simp add: tmpfs_write_loop.simps)
  next
    case False
    define c where "c = min (PAGE_SIZE - p mod PAGE_SIZE) (length data)"
    have m: "p mod PAGE_SIZE < PAGE_SIZE" by simp
    have c: "0 < c" "c \<le> length data" "p mod PAGE_SIZE + length (take c data) \<le> PAGE_SIZE" "take c data \<noteq> []"
      using False m by (auto simp: c_def min_def)
    have pp: "page_of (int p) = p div PAGE_SIZE" "off_of (int p) = p mod PAGE_SIZE" "p < 2 ^ 31"
      using lt by (simp_all add: page_of_nat off_of_nat)
    note loop = tmpfs_write_loop.simps [of e "int p" data w "(n, b)", unfolded pp Let_def, folded c_def]
    show ?thesis
    proof (cases "tmpfs_ensure_page_table e n (p div PAGE_SIZE)")
      case (Inl err)
      then show ?thesis
        using wrote_Nil [OF ok, of p] False by (intro exI [of _ "Some err"] exI [of _ 0]) (simp add: loop)
    next
      case en: (Inr n1)
      show ?thesis
      proof (cases "tmpfs_get_page e (p div PAGE_SIZE) (n1, b)")
        case (Inl err)
        obtain k where k: "n1 = n \<lparr> tn_pages := tn_pages n @ replicate k None \<rparr>" "pages_ok n1"
          using ensure_page_table [OF en ok(1)] by blast
        then have "wrote p [] (n, b) (n1, b)"
          using ok(2) by (auto simp: wrote_def)
        then show ?thesis
          using False en Inl by (intro exI [of _ "Some err"] exI [of _ 0]) (simp add: loop)
      next
        case (Inr nb)
        then obtain n2 b2 where gp: "tmpfs_get_page e (p div PAGE_SIZE) (n1, b) = Inr (n2, b2)"
          by (cases nb) auto
        define n' where "n' = n2 \<lparr> tn_pages := (tn_pages n2) [p div PAGE_SIZE :=
            Some (blit (p mod PAGE_SIZE) (take c data) (the (tn_pages n2 ! (p div PAGE_SIZE))))],
            tn_size := (if int (p + length (take c data)) > tn_size n2 then int (p + length (take c data)) else tn_size n2) \<rparr>"
        have w1: "wrote p (take c data) (n, b) (n', b2)"
          by (rule write_chunk [OF ok pp(3) c(4,3) en gp n'_def])
        then have ok': "pages_ok n'" "space_ok b2"
          by (auto simp: wrote_def)
        have st: "tmpfs_write_loop e (int p) data w (n, b) = tmpfs_write_loop e (int (p + c)) (drop c data) (w + c) (n', b2)"
          using False en gp c(2) by (simp add: loop n'_def)
        have "length (drop c data) < length data" "p + c + length (drop c data) < 2 ^ 31"
          using c lt by simp_all
        from IH [OF this(1) ok' this(2), of "w + c"] obtain err k n'' b'' where r:
            "tmpfs_write_loop e (int (p + c)) (drop c data) (w + c) (n', b2) = (err, int (p + c + k), w + c + k, n'', b'')"
            "k \<le> length (drop c data)" "wrote (p + c) (take k (drop c data)) (n', b2) (n'', b'')"
            "err = None \<longleftrightarrow> k = length (drop c data)"
          by blast
        have "wrote p (take c data @ take k (drop c data)) (n, b) (n'', b'')"
          using wrote_trans [OF w1 _ c(4)] r(3) c(2) by (simp add: min_absorb2)
        then have "wrote p (take (c + k) data) (n, b) (n'', b'')"
          by (simp add: take_add)
        then show ?thesis
          using st r(1,2,4) c(2) by (intro exI [of _ err] exI [of _ "c + k"]) (auto simp: add.assoc)
      qed
    qed
  qed
qed

section \<open>Truncation\<close>

lemma round_up_div:
  assumes "len = q * PAGE_SIZE + off" and "off < PAGE_SIZE"
  shows "(len + PAGE_SIZE - 1) div PAGE_SIZE = (if off = 0 then q else q + 1)"
  using assms by (auto intro!: div_nat_eqI simp: PAGE_SIZE_def)

text \<open>The accounting an operation keeps when it changes the pages of one node.\<close>

definition acct :: "tmpfs_node \<times> tmpfs_sb \<Rightarrow> tmpfs_node \<times> tmpfs_sb \<Rightarrow> bool" where
  "acct nb nb' \<longleftrightarrow>
     (let (n, b) = nb; (n', b') = nb'
      in pages_ok n' \<and>
         unat (tb_bytes_used b') + PAGE_SIZE * npages (tn_pages n) = unat (tb_bytes_used b) + PAGE_SIZE * npages (tn_pages n') \<and>
         b' = b \<lparr> tb_bytes_used := tb_bytes_used b' \<rparr> \<and>
         n' = n \<lparr> tn_size := tn_size n', tn_pages := tn_pages n', tn_nr_pages := tn_nr_pages n' \<rparr>)"

lemma wrote_acct: "wrote p d nb nb' \<Longrightarrow> acct nb nb'"
  unfolding wrote_def acct_def Let_def by (auto split: prod.splits)

lemma acct_refl: "pages_ok n \<Longrightarrow> acct (n, b) (n, b)"
  by (simp add: acct_def)

lemma acct_trans:
  assumes "acct (n, b) (n1, b1)" and "acct (n1, b1) (n2, b2)"
  shows "acct (n, b) (n2, b2)"
proof -
  note a1 = assms(1) [unfolded acct_def Let_def prod.case] and a2 = assms(2) [unfolded acct_def Let_def prod.case]
  have "b2 = b \<lparr> tb_bytes_used := tb_bytes_used b2 \<rparr>"
    by (rule keeps_sb [of b2 b1 b]) (use a1 a2 in blast)+
  moreover have "n2 = n \<lparr> tn_size := tn_size n2, tn_pages := tn_pages n2, tn_nr_pages := tn_nr_pages n2 \<rparr>"
    by (rule keeps_node [of n2 n1 n]) (use a1 a2 in blast)+
  moreover have "unat (tb_bytes_used b2) + PAGE_SIZE * npages (tn_pages n) = unat (tb_bytes_used b) + PAGE_SIZE * npages (tn_pages n2)"
    using a1 a2 by simp
  ultimately show ?thesis
    using a2 unfolding acct_def Let_def prod.case by blast
qed

lemma pages_ok_free:
  assumes "pages_ok n" and "i < length (tn_pages n)" and "tn_pages n ! i \<noteq> None"
    and "PAGE_SIZE * npages (tn_pages n) \<le> unat (tb_bytes_used b)"
  shows "acct (n, b) (tmpfs_free_page i (n, b))"
    and "tn_pages (fst (tmpfs_free_page i (n, b))) = (tn_pages n) [i := None]"
    and "tn_size (fst (tmpfs_free_page i (n, b))) = tn_size n"
proof -
  let ?P = "(tn_pages n) [i := None]"
  have np: "npages (tn_pages n) = npages ?P + 1"
    using npages_update [OF assms(2), of None] assms(3) by simp
  have "npages (tn_pages n) \<le> TMPFS_MAX_FILE_PAGES"
    using npages_le [of "tn_pages n"] assms(1) by (simp add: pages_ok_def)
  then have lt: "npages (tn_pages n) < 2 ^ 32"
    by (simp add: TMPFS_MAX_FILE_PAGES_def)
  have nr: "tn_nr_pages n = of_nat (npages ?P) + 1" "tn_nr_pages n > 0"
    using assms(1) np lt of_nat_less_u32 [of 0 "npages (tn_pages n)"] by (simp_all add: pages_ok_def)
  have ge: "of_nat PAGE_SIZE \<le> tb_bytes_used b"
    using assms(4) np by (simp add: word_le_nat_alt unat_of_nat_u32 PAGE_SIZE_def)
  then have u: "unat (tb_bytes_used b - of_nat PAGE_SIZE) = unat (tb_bytes_used b) - PAGE_SIZE"
    by (simp add: unat_sub unat_of_nat_u32 PAGE_SIZE_def)
  have "length pg = PAGE_SIZE" if "Some pg \<in> set ?P" for pg
    using that assms(1) set_update_subset_insert [of "tn_pages n" i None] by (auto simp: pages_ok_def)
  then show "acct (n, b) (tmpfs_free_page i (n, b))"
    using assms np nr ge u by (simp add: acct_def tmpfs_free_page_def pages_ok_def)
  show "tn_pages (fst (tmpfs_free_page i (n, b))) = ?P" "tn_size (fst (tmpfs_free_page i (n, b))) = tn_size n"
    using assms(3) by (auto simp: tmpfs_free_page_def)
qed

lemma free_loop:
  assumes "pages_ok n" and "PAGE_SIZE * npages (tn_pages n) \<le> unat (tb_bytes_used b)" and "from_page + k \<le> length (tn_pages n)"
  shows "\<exists>n' b'. fold tmpfs_free_page [from_page..<from_page + k] (n, b) = (n', b') \<and> acct (n, b) (n', b') \<and>
    tn_pages n' = take from_page (tn_pages n) @ replicate k None @ drop (from_page + k) (tn_pages n) \<and> tn_size n' = tn_size n"
  using assms(3)
proof (induction k)
  case 0
  then show ?case using assms(1) by (simp add: acct_refl)
next
  case (Suc k)
  then obtain n1 b1 where h: "fold tmpfs_free_page [from_page..<from_page + k] (n, b) = (n1, b1)" "acct (n, b) (n1, b1)"
      "tn_pages n1 = take from_page (tn_pages n) @ replicate k None @ drop (from_page + k) (tn_pages n)" "tn_size n1 = tn_size n"
    by auto
  let ?i = "from_page + k"
  have i: "?i < length (tn_pages n1)" "tn_pages n1 ! ?i = tn_pages n ! ?i"
    using h(3) Suc.prems by (simp_all add: nth_append)
  have upd: "(tn_pages n1) [?i := None] = take from_page (tn_pages n) @ replicate (Suc k) None @ drop (from_page + Suc k) (tn_pages n)"
    using h(3) Suc.prems by (simp add: list_update_append replicate_append_same Cons_nth_drop_Suc [symmetric])
  have st: "fold tmpfs_free_page [from_page..<from_page + Suc k] (n, b) = tmpfs_free_page ?i (n1, b1)"
    using h(1) by simp
  show ?case
  proof (cases "tn_pages n1 ! ?i")
    case None
    then have "tmpfs_free_page ?i (n1, b1) = (n1, b1)"
      by (simp add: tmpfs_free_page_def)
    moreover have "tn_pages n1 = take from_page (tn_pages n) @ replicate (Suc k) None @ drop (from_page + Suc k) (tn_pages n)"
      using None upd by (metis list_update_id)
    ultimately show ?thesis
      using h(2,4) st by (intro exI [of _ n1] exI [of _ b1] conjI) simp_all
  next
    case (Some pg)
    have "PAGE_SIZE * npages (tn_pages n1) \<le> unat (tb_bytes_used b1)"
      using h(2) assms(2) by (simp add: acct_def)
    moreover have "pages_ok n1" using h(2) by (simp add: acct_def)
    ultimately have "acct (n1, b1) (tmpfs_free_page ?i (n1, b1))"
        "tn_pages (fst (tmpfs_free_page ?i (n1, b1))) = (tn_pages n1) [?i := None]"
        "tn_size (fst (tmpfs_free_page ?i (n1, b1))) = tn_size n1"
      using pages_ok_free [of n1 ?i b1] i(1) Some by simp_all
    then show ?thesis
      using acct_trans [OF h(2)] st upd h(4) by (cases "tmpfs_free_page ?i (n1, b1)") auto
  qed
qed

lemma free_node_pages:
  assumes "pages_ok n" and "PAGE_SIZE * npages (tn_pages n) \<le> unat (tb_bytes_used b)"
    and "tmpfs_free_node_pages from_page (n, b) = (n', b')"
  shows "acct (n, b) (n', b')" and "byte_at n' i = (if i div PAGE_SIZE < from_page then byte_at n i else 0)"
    and "tn_size n' = tn_size n" and "from_page = 0 \<Longrightarrow> tn_pages n' = []"
    and "npages (tn_pages n') \<le> npages (tn_pages n)"
proof -
  define k m where "k = length (tn_pages n) - from_page" and "m = min from_page (length (tn_pages n))"
  have km: "m + k = length (tn_pages n)" "[from_page..<length (tn_pages n)] = [m..<m + k]"
    by (cases "from_page \<le> length (tn_pages n)"; simp add: k_def m_def)+
  have "m + k \<le> length (tn_pages n)" using km by simp
  from free_loop [OF assms(1,2) this] obtain n1 b1 where f: "fold tmpfs_free_page [m..<m + k] (n, b) = (n1, b1)"
      "acct (n, b) (n1, b1)" "tn_size n1 = tn_size n"
      "tn_pages n1 = take m (tn_pages n) @ replicate k None @ drop (m + k) (tn_pages n)"
    by auto
  have r: "(n', b') = (if tn_pages n = [] then (n, b) else (if from_page = 0 then n1 \<lparr> tn_pages := [], tn_nr_pages := 0 \<rparr> else n1, b1))"
    using assms(3) f(1) km(2) by (simp add: tmpfs_free_node_pages_def cong: if_cong)
  have P: "tn_pages n1 = take from_page (tn_pages n) @ replicate k None"
    using f(4) km(1) by (simp add: m_def min_def)
  have "acct (n1, b1) (n1 \<lparr> tn_pages := [], tn_nr_pages := 0 \<rparr>, b1)" if "from_page = 0"
    using P that by (simp add: acct_def pages_ok_def)
  then show "acct (n, b) (n', b')"
    using r f(2) acct_refl [OF assms(1)] acct_trans [OF f(2)] by (auto split: if_splits)
  show "byte_at n' i = (if i div PAGE_SIZE < from_page then byte_at n i else 0)"
    using r P by (auto simp: byte_at_def nth_append split: if_splits)
  show "tn_size n' = tn_size n" "from_page = 0 \<Longrightarrow> tn_pages n' = []"
    using r f(3) by (auto split: if_splits)
  have "npages (take from_page (tn_pages n)) + npages (drop from_page (tn_pages n)) = npages (tn_pages n)"
    by (metis append_take_drop_id npages_simps(3))
  then show "npages (tn_pages n') \<le> npages (tn_pages n)"
    using r P by (auto split: if_splits)
qed

lemma cut_acct:
  assumes "pages_ok n" and "PAGE_SIZE * npages (tn_pages n) \<le> unat (tb_bytes_used b)" and "tmpfs_cut sz (n, b) = (n', b')"
  shows "acct (n, b) (n', b')" and "tn_size n' = sz" and "npages (tn_pages n') \<le> npages (tn_pages n)"
proof -
  define ff where "ff = nat (take_bit 32 (sz + int PAGE_SIZE - 1)) div PAGE_SIZE"
  define c where "c \<longleftrightarrow> 0 < off_of sz \<and> 0 < ff \<and> ff - 1 < length (tn_pages n) \<and> tn_pages n ! (ff - 1) \<noteq> None"
  define z where "z = replicate (PAGE_SIZE - off_of sz) (0 :: u8)"
  define n1 where "n1 = (if c then n \<lparr> tn_size := sz, tn_pages := (tn_pages n) [ff - 1 :=
       Some (blit (off_of sz) z (the (tn_pages n ! (ff - 1))))] \<rparr> else n \<lparr> tn_size := sz \<rparr>)"
  have f: "tmpfs_free_node_pages ff (n1, b) = (n', b')"
    using assms(3) by (simp add: tmpfs_cut_def Let_def ff_def c_def z_def n1_def cong: if_cong)
  have same: "pages_ok n1 \<and> npages (tn_pages n1) = npages (tn_pages n)"
  proof (cases c)
    case False
    then show ?thesis using assms(1) by (simp add: n1_def pages_ok_def)
  next
    case True
    then obtain pg where pg: "ff - 1 < length (tn_pages n)" "tn_pages n ! (ff - 1) = Some pg"
      by (auto simp: c_def)
    have "off_of sz + length z \<le> PAGE_SIZE"
      using off_of_less [of sz] by (simp add: z_def)
    moreover have "tn_pages n1 = (tn_pages n) [ff - 1 := Some (blit (off_of sz) z pg)]" "tn_nr_pages n1 = tn_nr_pages n"
      using True pg(2) by (simp_all add: n1_def)
    ultimately show ?thesis
      using put_bytes(1,2) [OF assms(1) pg, of "off_of sz" z n1] by simp
  qed
  moreover have "n1 = n \<lparr> tn_size := tn_size n1, tn_pages := tn_pages n1, tn_nr_pages := tn_nr_pages n1 \<rparr>"
    by (simp add: n1_def)
  ultimately have a: "acct (n, b) (n1, b)"
    unfolding acct_def Let_def prod.case by simp
  have n1: "pages_ok n1" "PAGE_SIZE * npages (tn_pages n1) \<le> unat (tb_bytes_used b)"
    using same assms(2) by simp_all
  show "acct (n, b) (n', b')"
    by (rule acct_trans [OF a free_node_pages(1) [OF n1 f]])
  show "tn_size n' = sz"
    using free_node_pages(3) [OF n1 f] by (simp add: n1_def)
  show "npages (tn_pages n') \<le> npages (tn_pages n)"
    using free_node_pages(5) [OF n1 f] same by simp
qed

text \<open>Truncation keeps the bytes below the new length and clears everything above it.\<close>

lemma cut_bytes:
  assumes "pages_ok n" and "PAGE_SIZE * npages (tn_pages n) \<le> unat (tb_bytes_used b)" and "len < 2 ^ 31"
    and "tmpfs_cut (int len) (n, b) = (n', b')"
  shows "byte_at n' i = (if i < len then byte_at n i else 0)"
proof -
  define ff where "ff = (len + PAGE_SIZE - 1) div PAGE_SIZE"
  define off where "off = len mod PAGE_SIZE"
  have "take_bit 32 (int len + int PAGE_SIZE - 1) = int (len + PAGE_SIZE - 1)"
    using assms(3) by (subst take_bit_int_eq_self) (auto simp: PAGE_SIZE_def)
  then have ff: "nat (take_bit 32 (int len + int PAGE_SIZE - 1)) div PAGE_SIZE = ff" "off_of (int len) = off"
    by (simp_all add: ff_def off_def off_of_nat)
  define c where "c \<longleftrightarrow> 0 < off \<and> 0 < ff \<and> ff - 1 < length (tn_pages n) \<and> tn_pages n ! (ff - 1) \<noteq> None"
  define z where "z = replicate (PAGE_SIZE - off) (0 :: u8)"
  define n1 where "n1 = (if c then n \<lparr> tn_size := int len, tn_pages := (tn_pages n) [ff - 1 :=
       Some (blit off z (the (tn_pages n ! (ff - 1))))] \<rparr> else n \<lparr> tn_size := int len \<rparr>)"
  have f: "tmpfs_free_node_pages ff (n1, b) = (n', b')"
    using assms(4) ff by (simp add: tmpfs_cut_def Let_def c_def z_def n1_def cong: if_cong)
  have offl: "off < PAGE_SIZE" "len = len div PAGE_SIZE * PAGE_SIZE + off"
    by (simp_all add: off_def)
  have ffd: "ff = (if off = 0 then len div PAGE_SIZE else len div PAGE_SIZE + 1)"
    by (rule round_up_div [OF offl(2,1), folded ff_def])
  have n1b: "pages_ok n1 \<and> npages (tn_pages n1) = npages (tn_pages n) \<and>
      (i div PAGE_SIZE < ff \<longrightarrow> byte_at n1 i = (if i < len then byte_at n i else 0))"
  proof (cases c)
    case False
    have "byte_at n1 i = (if i < len then byte_at n i else 0)" if "i div PAGE_SIZE < ff"
    proof (cases "i < len")
      case ge: False
      then have "off \<noteq> 0" "i div PAGE_SIZE = ff - 1" "0 < ff"
        using that ffd div_le_mono [of len i PAGE_SIZE] by (auto split: if_splits)
      then show ?thesis
        using False ge by (auto simp: n1_def byte_at_def c_def)
    qed (use False in \<open>simp add: n1_def byte_at_def\<close>)
    then show ?thesis using False assms(1) by (simp add: n1_def pages_ok_def)
  next
    case True
    then obtain pg where pg: "ff - 1 < length (tn_pages n)" "tn_pages n ! (ff - 1) = Some pg"
      by (auto simp: c_def)
    have t: "tn_pages n1 = (tn_pages n) [ff - 1 := Some (blit off z pg)]" "tn_nr_pages n1 = tn_nr_pages n"
      using True pg(2) by (simp_all add: n1_def)
    have zl: "off + length z \<le> PAGE_SIZE" "off + length z = PAGE_SIZE"
      using offl(1) by (simp_all add: z_def)
    have start: "(ff - 1) * PAGE_SIZE + off = len" "len + length z = ff * PAGE_SIZE"
      using True ffd offl zl(2) by (auto simp: c_def)
    note pb = put_bytes [OF assms(1) pg zl(1) t]
    have "i < ff * PAGE_SIZE" if "i div PAGE_SIZE < ff"
      using that by (simp add: div_less_iff_less_mult)
    then show ?thesis
      using pb(1,2) pb(3) [of i] start by (auto simp: z_def)
  qed
  then have n1: "pages_ok n1" "PAGE_SIZE * npages (tn_pages n1) \<le> unat (tb_bytes_used b)"
    using assms(2) by simp_all
  have "\<not> i < len" if "\<not> i div PAGE_SIZE < ff"
  proof -
    have "ff * PAGE_SIZE \<le> i"
      using that by (simp add: div_less_iff_less_mult not_less)
    moreover have "len \<le> ff * PAGE_SIZE"
      using ffd offl by auto
    ultimately show ?thesis by simp
  qed
  then show ?thesis
    using free_node_pages(2) [OF n1 f, of i] n1b by auto
qed

end
