(* ===== verification/Tmpfs_Inv.thy ===== *)
theory Tmpfs_Inv
  imports Tmpfs_Dir Tmpfs_File
begin

text \<open>
  The accounting invariant of the in-memory file system: inode numbers are unique, names within a
  directory are unique and of legal length, and the counters of the superblock and of every node
  agree with the nodes and pages that exist. Every operation keeps it.
\<close>

section \<open>The invariant\<close>

definition dir_ok :: "tmpfs_node \<Rightarrow> bool" where
  "dir_ok n \<longleftrightarrow> distinct (map de_name (tn_entries n)) \<and>
     (\<forall>de \<in> set (tn_entries n). de_name de \<noteq> [] \<and> length (de_name de) \<le> TMPFS_NAME_LEN \<and> de_ino de \<noteq> 0)"

definition used_pages :: "tmpfs_node list \<Rightarrow> nat" where
  "used_pages ns = sum_list (map (\<lambda>n. npages (tn_pages n)) ns)"

definition sb_inv :: "tmpfs_sb \<Rightarrow> bool" where
  "sb_inv b \<longleftrightarrow>
     distinct (map tn_ino (tb_nodes b)) \<and>
     (\<forall>n \<in> set (tb_nodes b). pages_ok n \<and> dir_ok n \<and> 0 < tn_ino n \<and> tn_ino n < tb_next_ino b) \<and>
     unat (tb_bytes_used b) = PAGE_SIZE * used_pages (tb_nodes b) \<and> space_ok b \<and>
     unat (tb_nr_inodes b) = length (tb_nodes b) \<and> tb_nr_inodes b \<le> tb_max_inodes b \<and> 0 < tb_next_ino b"

lemma find_node_Some:
  "tmpfs_find_node b ino = Some n \<Longrightarrow> n \<in> set (tb_nodes b) \<and> tn_ino n = ino"
  by (auto simp: tmpfs_find_node_def find_Some_iff)

lemma sb_inv_node: "sb_inv b \<Longrightarrow> n \<in> set (tb_nodes b) \<Longrightarrow> pages_ok n \<and> dir_ok n \<and> 0 < tn_ino n"
  by (simp add: sb_inv_def)

lemma sb_invI:
  assumes "distinct (map tn_ino (tb_nodes b))"
    and "\<And>n. n \<in> set (tb_nodes b) \<Longrightarrow> pages_ok n \<and> dir_ok n \<and> 0 < tn_ino n \<and> tn_ino n < tb_next_ino b"
    and "unat (tb_bytes_used b) = PAGE_SIZE * used_pages (tb_nodes b)" and "space_ok b"
    and "unat (tb_nr_inodes b) = length (tb_nodes b)" and "tb_nr_inodes b \<le> tb_max_inodes b" and "0 < tb_next_ino b"
  shows "sb_inv b"
  using assms by (simp add: sb_inv_def)

lemma sb_invD:
  assumes "sb_inv b"
  shows "distinct (map tn_ino (tb_nodes b))"
    and "\<And>n. n \<in> set (tb_nodes b) \<Longrightarrow> pages_ok n \<and> dir_ok n \<and> 0 < tn_ino n \<and> tn_ino n < tb_next_ino b"
    and "unat (tb_bytes_used b) = PAGE_SIZE * used_pages (tb_nodes b)" and "space_ok b"
    and "unat (tb_nr_inodes b) = length (tb_nodes b)" and "tb_nr_inodes b \<le> tb_max_inodes b" and "0 < tb_next_ino b"
  using assms by (simp_all add: sb_inv_def)

lemma other_ino: "distinct (map tn_ino (n # ns)) \<Longrightarrow> x \<in> set ns \<Longrightarrow> tn_ino x \<noteq> tn_ino n"
  by (metis distinct.simps(2) imageI list.set_map list.simps(9))

text \<open>Changing one node.\<close>

lemma used_pages_upd:
  assumes "distinct (map tn_ino ns)" and "n \<in> set ns" and "tn_ino n = ino"
  shows "used_pages (map (\<lambda>m. if tn_ino m = ino then f m else m) ns) + npages (tn_pages n) = used_pages ns + npages (tn_pages (f n))"
  using assms
proof (induction ns)
  case (Cons m ns)
  show ?case
  proof (cases "m = n")
    case True
    have "map (\<lambda>m. if tn_ino m = ino then f m else m) ns = ns"
      using Cons.prems True other_ino [of n ns] by (intro map_idI) auto
    then show ?thesis using True Cons.prems(3) by (simp add: used_pages_def)
  next
    case False
    then have "tn_ino m \<noteq> ino" using Cons.prems by auto
    then show ?thesis using Cons False by (simp add: used_pages_def)
  qed
qed simp

lemma used_pages_filter:
  assumes "distinct (map tn_ino ns)" and "n \<in> set ns" and "tn_ino n = ino"
  shows "used_pages (filter (\<lambda>m. tn_ino m \<noteq> ino) ns) + npages (tn_pages n) = used_pages ns"
    and "length (filter (\<lambda>m. tn_ino m \<noteq> ino) ns) + 1 = length ns"
proof -
  have "used_pages (filter (\<lambda>m. tn_ino m \<noteq> ino) ns) + npages (tn_pages n) = used_pages ns \<and>
      length (filter (\<lambda>m. tn_ino m \<noteq> ino) ns) + 1 = length ns"
    using assms
  proof (induction ns)
    case (Cons m ns)
    show ?case
    proof (cases "m = n")
      case True
      have "filter (\<lambda>m. tn_ino m \<noteq> ino) ns = ns"
        using Cons.prems True other_ino [of n ns] by (intro filter_True) auto
      then show ?thesis using True Cons.prems(3) by (simp add: used_pages_def)
    next
      case False
      then have "tn_ino m \<noteq> ino" using Cons.prems by auto
      then show ?thesis using Cons False by (simp add: used_pages_def)
    qed
  qed simp
  then show "used_pages (filter (\<lambda>m. tn_ino m \<noteq> ino) ns) + npages (tn_pages n) = used_pages ns"
    and "length (filter (\<lambda>m. tn_ino m \<noteq> ino) ns) + 1 = length ns" by simp_all
qed

lemma upd_node_fields [simp]:
  "tb_nodes (upd_node ino f b) = map (\<lambda>n. if tn_ino n = ino then f n else n) (tb_nodes b)"
  "tb_bytes_used (upd_node ino f b) = tb_bytes_used b" "tb_max_bytes (upd_node ino f b) = tb_max_bytes b"
  "tb_nr_inodes (upd_node ino f b) = tb_nr_inodes b" "tb_max_inodes (upd_node ino f b) = tb_max_inodes b"
  "tb_next_ino (upd_node ino f b) = tb_next_ino b"
  by (simp_all add: upd_node_def)

lemma map_ino_upd:
  assumes "\<And>n. n \<in> set ns \<Longrightarrow> tn_ino n = ino \<Longrightarrow> tn_ino (f n) = ino"
  shows "map tn_ino (map (\<lambda>n. if tn_ino n = ino then f n else n) ns) = map tn_ino ns"
  using assms by auto

lemma sb_inv_upd:
  assumes i: "sb_inv b"
    and f: "\<And>n. n \<in> set (tb_nodes b) \<Longrightarrow> tn_ino n = ino \<Longrightarrow> tn_ino (f n) = ino \<and> tn_pages (f n) = tn_pages n \<and>
          tn_nr_pages (f n) = tn_nr_pages n \<and> dir_ok (f n)"
  shows "sb_inv (upd_node ino f b)"
proof -
  have "map tn_ino (tb_nodes (upd_node ino f b)) = map tn_ino (tb_nodes b)"
    unfolding upd_node_fields by (rule map_ino_upd) (use f in blast)
  moreover have "used_pages (tb_nodes (upd_node ino f b)) = used_pages (tb_nodes b)"
    unfolding used_pages_def upd_node_fields using f by (auto intro!: arg_cong [where f = sum_list])
  moreover have "pages_ok n \<and> dir_ok n \<and> 0 < tn_ino n \<and> tn_ino n < tb_next_ino b" if "n \<in> set (tb_nodes (upd_node ino f b))" for n
    using that i f by (auto simp: sb_inv_def pages_ok_def split: if_splits)
  moreover have "space_ok (upd_node ino f b)"
    using sb_invD(4) [OF i] by (simp add: space_ok_def)
  ultimately show ?thesis
    using sb_invD [OF i] by (intro sb_invI) (simp_all only: upd_node_fields length_map)
qed

text \<open>Changes of attributes only.\<close>

definition attr_only :: "(tmpfs_node \<Rightarrow> tmpfs_node) \<Rightarrow> bool" where
  "attr_only f \<longleftrightarrow> (\<forall>n. tn_ino (f n) = tn_ino n \<and> tn_pages (f n) = tn_pages n \<and> tn_nr_pages (f n) = tn_nr_pages n \<and>
     tn_entries (f n) = tn_entries n)"

lemma sb_inv_attr: "sb_inv b \<Longrightarrow> attr_only f \<Longrightarrow> sb_inv (upd_node ino f b)"
  by (rule sb_inv_upd) (auto simp: attr_only_def sb_inv_def dir_ok_def)

text \<open>Changes of the pages of one node.\<close>

lemma acct_fields:
  assumes "acct (n, b) (n', b')"
  shows "tb_nodes b' = tb_nodes b" "tb_nr_inodes b' = tb_nr_inodes b" "tb_max_inodes b' = tb_max_inodes b"
    "tb_next_ino b' = tb_next_ino b" "tb_max_bytes b' = tb_max_bytes b"
    "tn_ino n' = tn_ino n" "tn_entries n' = tn_entries n" "pages_ok n'" "tn_mode n' = tn_mode n" "tn_nlink n' = tn_nlink n"
proof -
  have b': "b' = b \<lparr> tb_bytes_used := tb_bytes_used b' \<rparr>"
    and n': "n' = n \<lparr> tn_size := tn_size n', tn_pages := tn_pages n', tn_nr_pages := tn_nr_pages n' \<rparr>"
    and "pages_ok n'"
    using assms unfolding acct_def Let_def prod.case by blast+
  then show "pages_ok n'" by simp
  show "tb_nodes b' = tb_nodes b" "tb_nr_inodes b' = tb_nr_inodes b" "tb_max_inodes b' = tb_max_inodes b"
    "tb_next_ino b' = tb_next_ino b" "tb_max_bytes b' = tb_max_bytes b"
    by (subst b', simp)+
  show "tn_ino n' = tn_ino n" "tn_entries n' = tn_entries n" "tn_mode n' = tn_mode n" "tn_nlink n' = tn_nlink n"
    by (subst n', simp)+
qed

lemma sb_inv_pages:
  assumes i: "sb_inv b" and n: "tmpfs_find_node b ino = Some n" and a: "acct (n, b) (n', b')" and s: "space_ok b'"
  shows "sb_inv (upd_node ino (\<lambda>_. n') b')"
proof -
  have m: "n \<in> set (tb_nodes b)" "tn_ino n = ino"
    using find_node_Some [OF n] by simp_all
  note a' = a [unfolded acct_def Let_def prod.case]
  note b' = acct_fields(1-5) [OF a]
  have n': "tn_ino n' = ino" "tn_entries n' = tn_entries n" "pages_ok n'"
    using acct_fields(6-8) [OF a] m(2) by simp_all
  have d: "distinct (map tn_ino (tb_nodes b))" "unat (tb_bytes_used b) = PAGE_SIZE * used_pages (tb_nodes b)"
    using i by (simp_all add: sb_inv_def)
  have "map tn_ino (map (\<lambda>m. if tn_ino m = ino then n' else m) (tb_nodes b)) = map tn_ino (tb_nodes b)"
    by (rule map_ino_upd) (simp add: n'(1))
  moreover have "unat (tb_bytes_used b') = PAGE_SIZE * used_pages (map (\<lambda>m. if tn_ino m = ino then n' else m) (tb_nodes b))"
  proof -
    have u: "used_pages (map (\<lambda>m. if tn_ino m = ino then n' else m) (tb_nodes b)) + npages (tn_pages n) =
        used_pages (tb_nodes b) + npages (tn_pages n')"
      using used_pages_upd [OF d(1) m, of "\<lambda>_. n'"] by simp
    have "unat (tb_bytes_used b') + PAGE_SIZE * npages (tn_pages n) = PAGE_SIZE * (used_pages (tb_nodes b) + npages (tn_pages n'))"
      using a' d(2) by (simp add: distrib_left)
    then show ?thesis
      unfolding u [symmetric] by (simp add: distrib_left)
  qed
  moreover have "pages_ok x \<and> dir_ok x \<and> 0 < tn_ino x \<and> tn_ino x < tb_next_ino b"
    if "x \<in> set (map (\<lambda>m. if tn_ino m = ino then n' else m) (tb_nodes b))" for x
    using that i m n' by (auto simp: sb_inv_def dir_ok_def split: if_splits)
  moreover have "space_ok (upd_node ino (\<lambda>_. n') b')"
    using s by (simp add: space_ok_def)
  ultimately show ?thesis
    using sb_invD [OF i] by (intro sb_invI) (simp_all only: upd_node_fields b' length_map)
qed

lemma find_node_pages:
  assumes i: "sb_inv b" and n: "tmpfs_find_node b ino = Some n"
  shows "pages_ok n" and "PAGE_SIZE * npages (tn_pages n) \<le> unat (tb_bytes_used b)" and "dir_ok n"
proof -
  have m: "n \<in> set (tb_nodes b)" "tn_ino n = ino"
    using find_node_Some [OF n] by simp_all
  show "pages_ok n" "dir_ok n" using sb_invD(2) [OF i m(1)] by simp_all
  have "npages (tn_pages n) \<le> used_pages (tb_nodes b)"
    using used_pages_filter(1) [OF sb_invD(1) [OF i] m] by linarith
  then show "PAGE_SIZE * npages (tn_pages n) \<le> unat (tb_bytes_used b)"
    using sb_invD(3) [OF i] by simp
qed

lemma acct_space:
  assumes "acct (n, b) (n', b')" and "space_ok b" and "npages (tn_pages n') \<le> npages (tn_pages n)"
  shows "space_ok b'"
proof -
  have "unat (tb_bytes_used b') + PAGE_SIZE * npages (tn_pages n) = unat (tb_bytes_used b) + PAGE_SIZE * npages (tn_pages n')"
    using assms(1) by (simp add: acct_def)
  moreover have "PAGE_SIZE * npages (tn_pages n') \<le> PAGE_SIZE * npages (tn_pages n)"
    using assms(3) by simp
  ultimately have "unat (tb_bytes_used b') \<le> unat (tb_bytes_used b)" by linarith
  then show ?thesis
    using assms(2) acct_fields(5) [OF assms(1)] by (auto simp: space_ok_def word_le_nat_alt)
qed

section \<open>Nodes come and go\<close>

lemma destroy_node_inv:
  assumes i: "sb_inv b"
  shows "sb_inv (tmpfs_destroy_node ino b)"
proof (cases "tmpfs_find_node b ino")
  case None
  then show ?thesis using i by (simp add: tmpfs_destroy_node_def)
next
  case (Some n)
  define b0 where "b0 = b \<lparr> tb_nodes := filter (\<lambda>n. tn_ino n \<noteq> ino) (tb_nodes b) \<rparr>"
  obtain n' b' where f: "tmpfs_free_node_pages 0 (n, b0) = (n', b')"
    by (cases "tmpfs_free_node_pages 0 (n, b0)")
  have m: "n \<in> set (tb_nodes b)" "tn_ino n = ino"
    using find_node_Some [OF Some] by simp_all
  note p = find_node_pages [OF i Some]
  have p0: "PAGE_SIZE * npages (tn_pages n) \<le> unat (tb_bytes_used b0)"
    using p(2) by (simp add: b0_def)
  have a: "acct (n, b0) (n', b')" "tn_pages n' = []"
    using free_node_pages(1,4) [OF p(1) p0 f] by simp_all
  note af = acct_fields [OF a(1)]
  note uf = used_pages_filter [OF sb_invD(1) [OF i] m]
  have "space_ok b0" using sb_invD(4) [OF i] by (simp add: b0_def space_ok_def)
  then have sp: "space_ok b'"
    using acct_space [OF a(1)] a(2) by simp
  have "PAGE_SIZE * used_pages (tb_nodes b) = PAGE_SIZE * used_pages (filter (\<lambda>m. tn_ino m \<noteq> ino) (tb_nodes b)) + PAGE_SIZE * npages (tn_pages n)"
    using uf(1) by (simp add: distrib_left [symmetric])
  then have used: "unat (tb_bytes_used b') = PAGE_SIZE * used_pages (filter (\<lambda>m. tn_ino m \<noteq> ino) (tb_nodes b))"
    using a sb_invD(3) [OF i] by (simp add: acct_def b0_def)
  have nr: "0 < tb_nr_inodes b" "unat (tb_nr_inodes b - 1) = length (filter (\<lambda>m. tn_ino m \<noteq> ino) (tb_nodes b))"
  proof -
    have "0 < unat (tb_nr_inodes b)" using sb_invD(5) [OF i] uf(2) by linarith
    then show pos: "0 < tb_nr_inodes b" by (simp add: word_less_nat_alt)
    then show "unat (tb_nr_inodes b - 1) = length (filter (\<lambda>m. tn_ino m \<noteq> ino) (tb_nodes b))"
      using sb_invD(5) [OF i] uf(2) by (simp add: unat_minus_one)
  qed
  have le: "tb_nr_inodes b - 1 \<le> tb_max_inodes b"
    using sb_invD(6) [OF i] nr(1) sb_invD(5) [OF i] uf(2) nr(2) by (simp add: word_le_nat_alt)
  have d: "tmpfs_destroy_node ino b = b' \<lparr> tb_nr_inodes := tb_nr_inodes b - 1 \<rparr>"
    using Some f af(2) nr(1) by (simp add: tmpfs_destroy_node_def Let_def b0_def)
  show ?thesis
    unfolding d
  proof (rule sb_invI, goal_cases)
    case 1 then show ?case using sb_invD(1) [OF i] af(1) by (simp add: b0_def distinct_map_filter)
  next
    case (2 x) then show ?case using sb_invD(2) [OF i] af(1,4) by (simp add: b0_def)
  next
    case 3 then show ?case using used af(1) by (simp add: b0_def)
  next
    case 4 then show ?case using sp by (simp add: space_ok_def)
  next
    case 5 then show ?case using nr(2) af(1) by (simp add: b0_def)
  next
    case 6 then show ?case using le af(3) by (simp add: b0_def)
  next
    case 7 then show ?case using sb_invD(7) [OF i] af(4) by (simp add: b0_def)
  qed
qed

lemma alloc_node_inv:
  assumes i: "sb_inv b" and a: "tmpfs_alloc_node e mode rdev b = Some (ino, b')" and w: "tb_next_ino b \<noteq> -1"
  shows "sb_inv b'" and "ino = tb_next_ino b" and "ino \<noteq> 0" and "\<forall>n \<in> set (tb_nodes b). tn_ino n \<noteq> ino"
    and "\<exists>n. tb_nodes b' = n # tb_nodes b \<and> tn_ino n = ino \<and> tn_entries n = []"
proof -
  define n where "n = hd (tb_nodes b')"
  have n: "tn_ino n = tb_next_ino b" "tn_pages n = []" "tn_nr_pages n = 0" "tn_entries n = []"
      "ino = tb_next_ino b" "tb_nr_inodes b < tb_max_inodes b"
      "b' = b \<lparr> tb_next_ino := tb_next_ino b + 1, tb_nodes := n # tb_nodes b, tb_nr_inodes := tb_nr_inodes b + 1 \<rparr>"
    using a unfolding n_def by (auto simp: tmpfs_alloc_node_def Let_def split: if_splits)
  have nx: "unat (tb_next_ino b + 1) = unat (tb_next_ino b) + 1"
    using w unatSuc [of "tb_next_ino b"] by (simp add: add_eq_0_iff add.commute)
  have nr: "unat (tb_nr_inodes b + 1) = unat (tb_nr_inodes b) + 1"
  proof -
    have "unat (tb_nr_inodes b) < unat (tb_max_inodes b)" using n(6) by (simp add: word_less_nat_alt)
    then show ?thesis using unat_u32_less [of "tb_max_inodes b"] by (simp add: unat_word_ariths)
  qed
  have lt: "tb_next_ino b < tb_next_ino b + 1"
    using nx by (simp add: word_less_nat_alt)
  show "ino = tb_next_ino b" by (rule n(5))
  show "ino \<noteq> 0" using n(5) sb_invD(7) [OF i] by simp
  show "\<forall>n \<in> set (tb_nodes b). tn_ino n \<noteq> ino" using n(5) sb_invD(2) [OF i] by fastforce
  show "\<exists>n. tb_nodes b' = n # tb_nodes b \<and> tn_ino n = ino \<and> tn_entries n = []" using n by simp
  show "sb_inv b'"
  proof (rule sb_invI, goal_cases)
    case 1 then show ?case using n(1,7) sb_invD(1,2) [OF i] by force
  next
    case (2 x) then show ?case using n lt sb_invD(2,7) [OF i]
      by (auto simp: pages_ok_def dir_ok_def intro: less_trans)
  next
    case 3 then show ?case using n(2,7) sb_invD(3) [OF i] by (simp add: used_pages_def)
  next
    case 4 then show ?case using n(7) sb_invD(4) [OF i] by (simp add: space_ok_def)
  next
    case 5 then show ?case using n(7) nr sb_invD(5) [OF i] by simp
  next
    case 6 then show ?case using n(6,7) nr by (simp add: word_le_nat_alt word_less_nat_alt)
  next
    case 7 then show ?case using n(7) lt sb_invD(7) [OF i] by simp
  qed
qed

section \<open>The inode cache\<close>

lemma st_fields [simp]:
  "fs_sb (upd_inode ino f s) = fs_sb s" "fs_sb (on_sb g s) = g (fs_sb s)" "fs_ic (on_sb g s) = fs_ic s"
  "fs_sb (clear_inode ino s) = fs_sb s" "fs_ic (upd_inode ino f s) = (fs_ic s) (ino := map_option f (fs_ic s ino))"
  by (simp_all add: upd_inode_def on_sb_def clear_inode_def)

lemma attr_onlyI [intro]:
  assumes "\<And>n. tn_ino (f n) = tn_ino n" "\<And>n. tn_pages (f n) = tn_pages n" "\<And>n. tn_nr_pages (f n) = tn_nr_pages n"
    "\<And>n. tn_entries (f n) = tn_entries n"
  shows "attr_only f"
  using assms by (simp add: attr_only_def)

lemma sync_node_inv: "sb_inv b \<Longrightarrow> sb_inv (tmpfs_sync_node_from_inode ino i b)"
  unfolding tmpfs_sync_node_from_inode_def by (rule sb_inv_attr) auto

lemma truncate_inv:
  assumes i: "sb_inv (fs_sb s)"
  shows "sb_inv (fs_sb (tmpfs_truncate e ino s))"
proof (cases "tmpfs_find_node (fs_sb s) ino")
  case (Some n)
  show ?thesis
  proof (cases "fs_ic s ino")
    case ic: (Some ii)
    obtain n' b' where c: "tmpfs_cut (i_size ii) (n, fs_sb s) = (n', b')"
      by (cases "tmpfs_cut (i_size ii) (n, fs_sb s)")
    note p = find_node_pages(1,2) [OF i Some]
    note ca = cut_acct [OF p c]
    have "sb_inv (upd_node ino (\<lambda>_. n') b')"
      by (rule sb_inv_pages [OF i Some ca(1) acct_space [OF ca(1) sb_invD(4) [OF i] ca(3)]])
    then have "sb_inv (upd_node ino (\<lambda>n. n \<lparr> tn_mtime := te_now e, tn_ctime := te_now e \<rparr>) (upd_node ino (\<lambda>_. n') b'))"
      by (rule sb_inv_attr) auto
    moreover have "upd_node ino (\<lambda>n. n \<lparr> tn_mtime := te_now e, tn_ctime := te_now e \<rparr>) (upd_node ino (\<lambda>_. n') b') =
        upd_node ino (\<lambda>_. n' \<lparr> tn_mtime := te_now e, tn_ctime := te_now e \<rparr>) b'"
      using acct_fields(6) [OF ca(1)] find_node_Some [OF Some] by (simp add: upd_node_def)
    ultimately show ?thesis
      using i by (simp add: tmpfs_truncate_def Some ic c Let_def)
  qed (simp add: tmpfs_truncate_def Some i)
qed (simp add: tmpfs_truncate_def i)

lemma put_inode_inv: "sb_inv (fs_sb s) \<Longrightarrow> sb_inv (fs_sb (tmpfs_put_inode e ino s))"
  by (auto simp: tmpfs_put_inode_def Let_def sync_node_inv truncate_inv destroy_node_inv split: option.splits)

lemma write_inode_inv: "sb_inv (fs_sb s) \<Longrightarrow> sb_inv (fs_sb (tmpfs_write_inode ino s))"
  by (auto simp: tmpfs_write_inode_def sync_node_inv split: option.splits)

lemma iput_inv: "sb_inv (fs_sb s) \<Longrightarrow> sb_inv (fs_sb (iput e ino s))"
  by (auto simp: iput_def Let_def put_inode_inv write_inode_inv split: option.splits)

lemma iget_sb: "iget e ino s = Some s' \<Longrightarrow> fs_sb s' = fs_sb s"
  by (auto simp: iget_def split: if_splits option.splits)

lemma notify_change_inv: "sb_inv (fs_sb s) \<Longrightarrow> sb_inv (fs_sb (snd (notify_change e ino a s)))"
  by (auto simp: notify_change_def tmpfs_notify_change_def Let_def sync_node_inv split: option.splits sum.splits)

lemma do_truncate_inv: "sb_inv (fs_sb s) \<Longrightarrow> sb_inv (fs_sb (snd (do_truncate e ino len s)))"
  using notify_change_inv [of s e ino]
  by (auto simp: do_truncate_def truncate_inv split: option.splits prod.splits) (metis snd_conv truncate_inv)+

section \<open>Files\<close>

lemma file_read_inv: "sb_inv (fs_sb s) \<Longrightarrow> sb_inv (fs_sb (snd (snd (tmpfs_file_read e ino f count s))))"
  by (auto simp: tmpfs_file_read_def Let_def intro!: sb_inv_attr split: option.splits)

lemma file_write_inv:
  assumes i: "sb_inv (fs_sb s)" and pos: "0 \<le> f_pos f" "f_pos f + int (length buf) < 2 ^ 31"
    and ap: "\<And>n. f_append f \<Longrightarrow> tmpfs_find_node (fs_sb s) ino = Some n \<Longrightarrow> 0 \<le> tn_size n \<and> tn_size n + int (length buf) < 2 ^ 31"
  shows "sb_inv (fs_sb (snd (snd (tmpfs_file_write e ino f buf s))))"
proof (cases "tmpfs_find_node (fs_sb s) ino")
  case (Some n)
  define p where "p = nat (if f_append f then tn_size n else f_pos f)"
  have p: "int p = (if f_append f then tn_size n else f_pos f)" "p + length buf < 2 ^ 31"
    using pos ap [OF _ Some] by (auto simp: p_def)
  obtain err k n' b' where w: "tmpfs_write_loop e (int p) buf 0 (n, fs_sb s) = (err, int (p + k), 0 + k, n', b')"
      "wrote p (take k buf) (n, fs_sb s) (n', b')"
    using write_loop_wrote [OF find_node_pages(1) [OF i Some] sb_invD(4) [OF i] p(2), of e 0] by blast
  have inv: "sb_inv (upd_node ino (\<lambda>_. n') b')"
    by (rule sb_inv_pages [OF i Some wrote_acct [OF w(2)]]) (use w(2) in \<open>simp add: wrote_def\<close>)
  then have "sb_inv (upd_node ino (\<lambda>n. n \<lparr> tn_mtime := te_now e, tn_ctime := te_now e \<rparr>) (upd_node ino (\<lambda>_. n') b'))"
    by (rule sb_inv_attr) auto
  with inv i show ?thesis
    using w(1) by (auto simp: tmpfs_file_write_def Some p(1) [symmetric] Let_def split: option.splits)
qed (simp add: tmpfs_file_write_def i)

section \<open>Directories\<close>

lemma find_unique:
  assumes "sb_inv b" and "n \<in> set (tb_nodes b)" and "tn_ino n = ino"
  shows "tmpfs_find_node b ino = Some n"
proof -
  obtain m where m: "tmpfs_find_node b ino = Some m"
    using assms(2,3) by (cases "tmpfs_find_node b ino") (auto simp: tmpfs_find_node_def find_None_iff)
  then have "m = n"
    using find_node_Some [OF m] assms sb_invD(1) [OF assms(1)] by (auto simp: distinct_map inj_on_def)
  with m show ?thesis by simp
qed

lemma find_upd:
  assumes "\<And>n. tn_ino (f n) = tn_ino n"
  shows "tmpfs_find_node (upd_node ino f b) k = map_option (\<lambda>n. if k = ino then f n else n) (tmpfs_find_node b k)"
proof -
  have "List.find (\<lambda>n. tn_ino n = k) (map (\<lambda>n. if tn_ino n = ino then f n else n) ns) =
      map_option (\<lambda>n. if k = ino then f n else n) (List.find (\<lambda>n. tn_ino n = k) ns)" for ns
    by (induction ns) (auto simp: assms)
  then show ?thesis by (simp add: tmpfs_find_node_def)
qed

text \<open>Changes of one directory.\<close>

lemma sb_inv_dir:
  assumes "sb_inv b" and "tmpfs_find_node b dir = Some d"
    and "tn_ino (f d) = dir" "tn_pages (f d) = tn_pages d" "tn_nr_pages (f d) = tn_nr_pages d" "dir_ok (f d)"
  shows "sb_inv (upd_node dir f b)"
proof (rule sb_inv_upd [OF assms(1)])
  fix n assume "n \<in> set (tb_nodes b)" "tn_ino n = dir"
  then have "n = d" using find_unique [OF assms(1)] assms(2) by fastforce
  with assms(3-6) show "tn_ino (f n) = dir \<and> tn_pages (f n) = tn_pages n \<and> tn_nr_pages (f n) = tn_nr_pages n \<and> dir_ok (f n)"
    by simp
qed

lemma add_dirent_inv:
  assumes i: "sb_inv b" and d: "tmpfs_find_node b dir = Some d" and n: "tmpfs_find_dirent d name = None" "ino \<noteq> 0"
    and a: "tmpfs_add_dirent e dir name ino b = Inr b'"
  shows "sb_inv b'" and "tb_next_ino b' = tb_next_ino b"
proof -
  have b': "b' = upd_node dir (\<lambda>d. d \<lparr> tn_entries := \<lparr> de_ino = ino, de_name = name \<rparr> # tn_entries d,
      tn_mtime := te_now e, tn_ctime := te_now e \<rparr>) b" and nm: "name \<noteq> []" "length name \<le> TMPFS_NAME_LEN"
    using a by (auto simp: tmpfs_add_dirent_def split: if_splits)
  have "name \<notin> de_name ` set (tn_entries d)"
    using n(1) by (auto simp: tmpfs_find_dirent_def find_None_iff)
  then show "sb_inv b'"
    unfolding b' using find_node_Some [OF d] find_node_pages(3) [OF i d] nm n(2)
    by (intro sb_inv_dir [OF i d]) (auto simp: dir_ok_def)
  show "tb_next_ino b' = tb_next_ino b" by (simp add: b')
qed

lemma dir_ok_del: "dir_ok d \<Longrightarrow> dir_ok (del_dirent de d)"
  by (auto simp: dir_ok_def del_dirent_def distinct_map inj_on_def dest: notin_set_remove1 [THEN contrapos_pp])

lemma dir_ok_del_name: "dir_ok d \<Longrightarrow> dir_ok (del_name name d)"
  by (simp add: del_name_def dir_ok_del split: option.splits)

lemma dir_ok_set:
  assumes "dir_ok d" and "ino \<noteq> 0"
  shows "dir_ok (set_dirent name ino d)"
proof -
  have "map de_name (tn_entries (set_dirent name ino d)) = map de_name (tn_entries d)"
    by (simp add: set_dirent_def)
  then have "distinct (map de_name (tn_entries (set_dirent name ino d)))"
    using assms(1) by (simp only: dir_ok_def)
  then show ?thesis
    using assms unfolding dir_ok_def by (auto simp: set_dirent_def simp del: map_map)
qed

lemma dir_keeps [simp]:
  "tn_ino (del_dirent de d) = tn_ino d" "tn_pages (del_dirent de d) = tn_pages d" "tn_nr_pages (del_dirent de d) = tn_nr_pages d"
  "tn_ino (del_name name d) = tn_ino d" "tn_pages (del_name name d) = tn_pages d" "tn_nr_pages (del_name name d) = tn_nr_pages d"
  "tn_ino (set_dirent name ino d) = tn_ino d" "tn_pages (set_dirent name ino d) = tn_pages d" "tn_nr_pages (set_dirent name ino d) = tn_nr_pages d"
  "tn_ino (touch e d) = tn_ino d" "tn_pages (touch e d) = tn_pages d" "tn_nr_pages (touch e d) = tn_nr_pages d"
  "tn_entries (touch e d) = tn_entries d"
  by (simp_all add: del_dirent_def del_name_def set_dirent_def touch_def split: option.splits)

lemma dir_ok_cong: "tn_entries d = tn_entries d' \<Longrightarrow> dir_ok d = dir_ok d'"
  by (simp add: dir_ok_def)

lemma upd_dir_inv:
  assumes "sb_inv b" and "\<And>d. tn_ino (f d) = tn_ino d" "\<And>d. tn_pages (f d) = tn_pages d"
    "\<And>d. tn_nr_pages (f d) = tn_nr_pages d" "\<And>d. dir_ok d \<Longrightarrow> dir_ok (f d)"
  shows "sb_inv (upd_node dir f b)"
  by (rule sb_inv_upd [OF assms(1)]) (use assms sb_invD(2) [OF assms(1)] in auto)

lemma add_node_inv:
  assumes i: "sb_inv b" and d: "tmpfs_find_node b dir = Some d" "tmpfs_find_dirent d name = None"
    and w: "tb_next_ino b \<noteq> -1" and s: "attr_only setup"
    and a: "tmpfs_add_node e dir name mode rdev setup b = (r, b')"
  shows "sb_inv b'"
proof (cases "tmpfs_alloc_node e mode rdev b")
  case None
  then show ?thesis using a i by (simp add: tmpfs_add_node_def)
next
  case (Some x)
  then obtain ino b1 where al: "tmpfs_alloc_node e mode rdev b = Some (ino, b1)"
    by (cases x) auto
  note ai = alloc_node_inv [OF i al w]
  have at: "attr_only (\<lambda>n. setup (n \<lparr> tn_parent_ino := dir \<rparr>))"
    using s by (simp add: attr_only_def)
  define b2 where "b2 = upd_node ino (\<lambda>n. setup (n \<lparr> tn_parent_ino := dir \<rparr>)) b1"
  have i2: "sb_inv b2"
    unfolding b2_def by (rule sb_inv_attr [OF ai(1) at])
  have ne: "ino \<noteq> dir"
    using ai(4) find_node_Some [OF d(1)] by auto
  then have "tmpfs_find_node b1 dir = Some d"
    using ai(5) d(1) by (auto simp: tmpfs_find_node_def)
  then have d2: "tmpfs_find_node b2 dir = Some d"
    using ne at by (simp add: b2_def find_upd attr_only_def)
  show ?thesis
  proof (cases "tmpfs_add_dirent e dir name ino b2")
    case (Inl err)
    then show ?thesis
      using a al destroy_node_inv [OF i2, of ino] by (auto simp: tmpfs_add_node_def Let_def b2_def)
  next
    case (Inr b3)
    then show ?thesis
      using a al add_dirent_inv(1) [OF i2 d2 d(2) ai(3) Inr] by (auto simp: tmpfs_add_node_def Let_def b2_def)
  qed
qed

lemma inherit_attr: "attr_only (inherit_gid d)"
  by (auto simp: inherit_gid_def)

lemma lookup_inv: "sb_inv (fs_sb s) \<Longrightarrow> sb_inv (fs_sb (snd (tmpfs_lookup e dir name s)))"
  by (auto simp: tmpfs_lookup_def Let_def iput_inv iget_sb split: option.splits)

lemma create_inv:
  assumes i: "sb_inv (fs_sb s)" and w: "tb_next_ino (fs_sb s) \<noteq> -1"
  shows "sb_inv (fs_sb (snd (tmpfs_create e dir name mode s)))"
    and "sb_inv (fs_sb (snd (tmpfs_mkdir e dir name mode s)))"
    and "sb_inv (fs_sb (snd (tmpfs_symlink e dir name target s)))"
    and "sb_inv (fs_sb (snd (tmpfs_mknod e dir name mode rdev s)))"
proof -
  have k: "sb_inv b'" if "tmpfs_find_node (fs_sb s) dir = Some d" "tmpfs_find_dirent d name = None" "attr_only f"
      "tmpfs_add_node e dir name m rd f (fs_sb s) = (r, b')" for d f m rd r b'
    by (rule add_node_inv [OF i that(1,2) w that(3,4)])
  show "sb_inv (fs_sb (snd (tmpfs_create e dir name mode s)))"
    using i by (auto simp: tmpfs_create_def Let_def iget_sb split: option.splits prod.splits sum.splits
        intro!: iput_inv intro: k inherit_attr)
  show "sb_inv (fs_sb (snd (tmpfs_mknod e dir name mode rdev s)))"
    using i by (auto simp: tmpfs_mknod_def Let_def split: option.splits prod.splits sum.splits intro!: iput_inv intro: k inherit_attr)
  show "sb_inv (fs_sb (snd (tmpfs_symlink e dir name target s)))"
  proof -
    have "attr_only (\<lambda>n. n \<lparr> tn_symlink_target := Some (c_str target), tn_size := int (length (c_str target)) \<rparr>)"
      by auto
    then show ?thesis
      using i by (auto simp: tmpfs_symlink_def Let_def split: option.splits prod.splits sum.splits intro!: iput_inv intro: k)
  qed
  show "sb_inv (fs_sb (snd (tmpfs_mkdir e dir name mode s)))"
  proof -
    have a: "attr_only (\<lambda>n. if tn_mode dn AND S_ISGID \<noteq> 0 then n \<lparr> tn_gid := tn_gid dn, tn_mode := tn_mode n OR S_ISGID \<rparr> else n)" for dn
      by auto
    have u: "sb_inv b \<Longrightarrow> sb_inv (upd_node dir (\<lambda>d. d \<lparr> tn_nlink := tn_nlink d + 1 \<rparr>) b)" for b
      by (rule sb_inv_attr) auto
    show ?thesis
      using i by (auto simp: tmpfs_mkdir_def Let_def split: option.splits prod.splits sum.splits
          intro!: iput_inv u intro: k [OF _ _ a])
  qed
qed

section \<open>Removal and renaming\<close>

lemma sb_inv_nlink: "sb_inv b \<Longrightarrow> sb_inv (upd_node ino (\<lambda>n. n \<lparr> tn_nlink := f n \<rparr>) b)"
  by (rule sb_inv_attr) auto

lemma rmdir_dir_inv: "sb_inv b \<Longrightarrow> sb_inv (upd_node dir (\<lambda>d. touch e (del_dirent de d) \<lparr> tn_nlink := nl \<rparr>) b)"
  by (rule upd_dir_inv) (auto simp: dir_ok_del cong: dir_ok_cong)

lemma unlink_dir_inv: "sb_inv b \<Longrightarrow> sb_inv (upd_node dir (\<lambda>d. touch e (del_dirent de d)) b)"
  by (rule upd_dir_inv) (auto simp: dir_ok_del cong: dir_ok_cong)

lemma rmdir_inv:
  assumes "sb_inv (fs_sb s)"
  shows "sb_inv (fs_sb (snd (tmpfs_rmdir e dir name s)))"
  using assms
  by (auto simp: tmpfs_rmdir_def Let_def iput_inv iget_sb rmdir_dir_inv sb_inv_nlink split: option.splits)

lemma drop_link_inv:
  assumes i: "sb_inv (fs_sb s)" and f: "attr_only fn"
  shows "sb_inv (fs_sb (tmpfs_drop_link e t fi fn s))"
proof -
  have "attr_only (\<lambda>n. fn (n \<lparr> tn_nlink := nl \<rparr>))" for nl
    using f by (simp add: attr_only_def)
  then show ?thesis
    using i by (auto simp: tmpfs_drop_link_def Let_def iput_inv iget_sb destroy_node_inv sb_inv_nlink sb_inv_attr
        split: option.splits)
qed

lemma unlink_inv:
  assumes "sb_inv (fs_sb s)"
  shows "sb_inv (fs_sb (snd (tmpfs_unlink e dir name s)))"
proof -
  have "attr_only (\<lambda>n. n \<lparr> tn_ctime := te_now e \<rparr>)" by auto
  then show ?thesis
    using assms by (auto simp: tmpfs_unlink_def Let_def iput_inv unlink_dir_inv drop_link_inv split: option.splits)
qed

lemma link_inv:
  assumes i: "sb_inv (fs_sb s)"
  shows "sb_inv (fs_sb (snd (tmpfs_link e old dir name s)))"
proof -
  have "sb_inv b \<Longrightarrow> sb_inv (upd_node old (\<lambda>n. n \<lparr> tn_nlink := tn_nlink n + 1, tn_ctime := te_now e \<rparr>) b)" for b
    by (rule sb_inv_attr) auto
  moreover have "sb_inv b'" if "tmpfs_find_node (fs_sb s) dir = Some d" "tmpfs_find_node (fs_sb s) old = Some n"
      "tmpfs_find_dirent d name = None" "tmpfs_add_dirent e dir name old (fs_sb s) = Inr b'" for d n b'
    using add_dirent_inv(1) [OF i that(1,3) _ that(4)] find_node_Some [OF that(2)] sb_invD(2) [OF i, of n] by auto
  ultimately show ?thesis
    using i by (auto simp: tmpfs_link_def Let_def iput_inv split: option.splits sum.splits)
qed

lemma replace_dst_inv:
  assumes "sb_inv (fs_sb s)"
  shows "sb_inv (fs_sb (tmpfs_replace_dst e nd dst s))"
proof -
  have "sb_inv b \<Longrightarrow> sb_inv (upd_node nd (\<lambda>d. if tn_nlink d > 2 then d \<lparr> tn_nlink := tn_nlink d - 1 \<rparr> else d) b)" for b
    by (rule sb_inv_attr) auto
  moreover have "attr_only (\<lambda>n. n)" by auto
  ultimately show ?thesis
    using assms by (auto simp: tmpfs_replace_dst_def Let_def iput_inv iget_sb destroy_node_inv sb_inv_nlink drop_link_inv
        split: option.splits)
qed

lemma rename_finish_inv:
  assumes i: "sb_inv (fs_sb s)"
  shows "sb_inv (fs_sb (tmpfs_rename_finish e od nd src s))"
proof -
  have a: "sb_inv b \<Longrightarrow> sb_inv (upd_node k (touch e) b)"
    "sb_inv b \<Longrightarrow> sb_inv (upd_node k (\<lambda>n. n \<lparr> tn_parent_ino := p \<rparr>) b)"
    "sb_inv b \<Longrightarrow> sb_inv (upd_node k (\<lambda>d. if tn_nlink d > 2 then d \<lparr> tn_nlink := tn_nlink d - 1 \<rparr> else d) b)" for b k p
    by (rule sb_inv_attr; auto)+
  have l: "fs_sb (case x of Some d \<Rightarrow> upd_inode k (g d) s' | None \<Rightarrow> s') = fs_sb s'" for x k g s'
    by (cases x) simp_all
  show ?thesis
    using i by (simp add: tmpfs_rename_finish_def Let_def a sb_inv_nlink l)
qed

lemma rename_inv:
  assumes i: "sb_inv (fs_sb s)"
  shows "sb_inv (fs_sb (snd (tmpfs_rename e od on nd nn must s)))"
proof -
  have u1: "sb_inv (upd_node od (del_name on) b)" if "sb_inv b" for b
    using that by (rule upd_dir_inv) (auto simp: dir_ok_del_name)
  have u2: "sb_inv (upd_node nd (set_dirent nn (tn_ino src)) b)" if "sb_inv b" "tn_ino src \<noteq> 0" for b src
    using that(1) by (rule upd_dir_inv) (use that(2) in \<open>auto simp: dir_ok_set\<close>)
  have u3: "tn_ino src \<noteq> 0" if "tmpfs_find_node (fs_sb s) k = Some src" for k src
    using find_node_Some [OF that] sb_invD(2) [OF i, of src] by auto
  have u4: "sb_inv b'" if "tmpfs_find_node (fs_sb s) nd = Some d" "tmpfs_find_dirent d nn = None" "x \<noteq> 0"
      "tmpfs_add_dirent e nd nn x (fs_sb s) = Inr b'" for d x b'
    by (rule add_dirent_inv(1) [OF i that])
  show ?thesis
    using i unfolding tmpfs_rename_def
    by (auto simp: Let_def split: option.splits sum.splits
        intro!: iput_inv replace_dst_inv rename_finish_inv u1 u2 intro: u4 [OF _ _ u3] dest: u3)
qed

section \<open>The rest\<close>

lemma readdir_inv: "sb_inv (fs_sb s) \<Longrightarrow> sb_inv (fs_sb (snd (snd (tmpfs_readdir fill e ino f c s))))"
  by (auto simp: tmpfs_readdir_def Let_def intro!: sb_inv_attr split: option.splits prod.splits bool.splits)

lemma readlink_inv: "sb_inv (fs_sb s) \<Longrightarrow> sb_inv (fs_sb (snd (tmpfs_readlink e ino len s)))"
proof -
  assume "sb_inv (fs_sb s)"
  moreover have "sb_inv b \<Longrightarrow> sb_inv (upd_node ino (\<lambda>n. n \<lparr> tn_atime := te_now e \<rparr>) b)" for b
    by (rule sb_inv_attr) auto
  ultimately show ?thesis
    by (auto simp: tmpfs_readlink_def Let_def iput_inv split: option.splits)
qed

lemma put_super_inv: "sb_inv b \<Longrightarrow> sb_inv (tmpfs_put_super b) \<and> tb_nodes (tmpfs_put_super b) = []"
proof (induction b rule: tmpfs_put_super.induct)
  case (1 b)
  then show ?case
    by (subst (1 2) tmpfs_put_super.simps) (auto simp: destroy_node_inv split: list.splits)
qed

lemma parse_option_frame:
  "tb_nodes (tmpfs_parse_option p b) = tb_nodes b \<and> tb_bytes_used (tmpfs_parse_option p b) = tb_bytes_used b \<and>
   tb_nr_inodes (tmpfs_parse_option p b) = tb_nr_inodes b \<and> tb_next_ino (tmpfs_parse_option p b) = tb_next_ino b"
  by (simp add: tmpfs_parse_option_def Let_def)

lemma parse_options_frame:
  "tb_nodes (tmpfs_parse_options p b) = tb_nodes b \<and> tb_bytes_used (tmpfs_parse_options p b) = tb_bytes_used b \<and>
   tb_nr_inodes (tmpfs_parse_options p b) = tb_nr_inodes b \<and> tb_next_ino (tmpfs_parse_options p b) = tb_next_ino b"
proof (induction p b rule: tmpfs_parse_options.induct)
  case (1 p b)
  then show ?case
    by (subst (1 2 3 4) tmpfs_parse_options.simps) (auto simp: Let_def parse_option_frame split: list.splits)
qed

lemma read_super_inv:
  assumes "tmpfs_read_super e opts = Some s" and "unat (tb_max_bytes (fs_sb s)) + PAGE_SIZE < 2 ^ 32"
  shows "sb_inv (fs_sb s)"
proof -
  define b where "b = tmpfs_parse_options (c_str opts) tmpfs_super0"
  obtain ino b1 where al: "tmpfs_alloc_node e (S_IFDIR OR tb_root_mode b) 0 b = Some (ino, b1)"
    using assms(1) by (auto simp: tmpfs_read_super_def Let_def b_def [symmetric] split: option.splits)
  have s: "fs_sb s = upd_node ino (\<lambda>n. n \<lparr> tn_uid := 0, tn_gid := 0, tn_parent_ino := TMPFS_ROOT_INO \<rparr>) b1"
    using assms(1) al iget_sb by (fastforce simp: tmpfs_read_super_def Let_def b_def [symmetric])
  have mb: "tb_max_bytes b1 = tb_max_bytes b"
    using al by (auto simp: tmpfs_alloc_node_def Let_def split: if_splits)
  have fr: "tb_nodes b = []" "tb_bytes_used b = 0" "tb_nr_inodes b = 0" "tb_next_ino b = 1"
    using parse_options_frame [of "c_str opts" tmpfs_super0]
    unfolding b_def by (simp_all add: tmpfs_super0_def TMPFS_ROOT_INO_def)
  have "sb_inv b"
    using fr assms(2) s mb by (intro sb_invI) (simp_all add: space_ok_def used_pages_def)
  moreover have "tb_next_ino b \<noteq> -1"
    using fr by simp
  ultimately have "sb_inv b1"
    by (rule alloc_node_inv(1) [OF _ al])
  then show ?thesis
    unfolding s by (rule sb_inv_attr) auto
qed

end
