(* ===== verification/Tmpfs_Props.thy ===== *)
theory Tmpfs_Props
  imports Tmpfs_Inv
begin

text \<open>
  The properties of the in-memory file system: the accounting invariant over all runs, files as
  byte arrays, truncation, directory listings, creation and removal of names, the sticky bit,
  unmounting, mount options, and what a rename into the own subtree does.
\<close>

section \<open>Runs\<close>

text \<open>
  The operations of the file system on a mounted instance. Positions and lengths of writes stay
  within a signed 32-bit offset and inode numbers are not exhausted; an unused inode may leave the
  cache at any time.
\<close>

inductive tmpfs_step :: "tmpfs_st \<Rightarrow> tmpfs_st \<Rightarrow> bool" where
  ts_read: "tmpfs_step s (snd (snd (tmpfs_file_read e ino f count s)))"
| ts_write: "0 \<le> f_pos f \<Longrightarrow> f_pos f + int (length buf) < 2 ^ 31 \<Longrightarrow>
     (f_append f \<Longrightarrow> \<forall>n. tmpfs_find_node (fs_sb s) ino = Some n \<longrightarrow> 0 \<le> tn_size n \<and> tn_size n + int (length buf) < 2 ^ 31) \<Longrightarrow>
     tmpfs_step s (snd (snd (tmpfs_file_write e ino f buf s)))"
| ts_truncate: "tmpfs_step s (snd (do_truncate e ino len s))"
| ts_attr: "tmpfs_step s (snd (notify_change e ino a s))"
| ts_lookup: "tmpfs_step s (snd (tmpfs_lookup e dir name s))"
| ts_create: "tb_next_ino (fs_sb s) \<noteq> -1 \<Longrightarrow> tmpfs_step s (snd (tmpfs_create e dir name mode s))"
| ts_mkdir: "tb_next_ino (fs_sb s) \<noteq> -1 \<Longrightarrow> tmpfs_step s (snd (tmpfs_mkdir e dir name mode s))"
| ts_symlink: "tb_next_ino (fs_sb s) \<noteq> -1 \<Longrightarrow> tmpfs_step s (snd (tmpfs_symlink e dir name target s))"
| ts_mknod: "tb_next_ino (fs_sb s) \<noteq> -1 \<Longrightarrow> tmpfs_step s (snd (tmpfs_mknod e dir name mode rdev s))"
| ts_rmdir: "tmpfs_step s (snd (tmpfs_rmdir e dir name s))"
| ts_unlink: "tmpfs_step s (snd (tmpfs_unlink e dir name s))"
| ts_link: "tmpfs_step s (snd (tmpfs_link e old dir name s))"
| ts_rename: "tmpfs_step s (snd (tmpfs_rename e od on nd nn must_be_dir s))"
| ts_readlink: "tmpfs_step s (snd (tmpfs_readlink e ino buflen s))"
| ts_iget: "iget e ino s = Some s' \<Longrightarrow> tmpfs_step s s'"
| ts_iput: "tmpfs_step s (iput e ino s)"
| ts_evict: "fs_ic s ino = Some i \<Longrightarrow> i_count i = 0 \<Longrightarrow> tmpfs_step s (clear_inode ino s)"

inductive tmpfs_reach :: "string \<Rightarrow> tmpfs_st \<Rightarrow> bool" for options where
  tr_mount: "tmpfs_read_super e options = Some s \<Longrightarrow> unat (tb_max_bytes (fs_sb s)) + PAGE_SIZE < 2 ^ 32 \<Longrightarrow> tmpfs_reach options s"
| tr_step: "tmpfs_reach options s \<Longrightarrow> tmpfs_step s s' \<Longrightarrow> tmpfs_reach options s'"

lemma step_keeps: "tmpfs_step s s' \<Longrightarrow> sb_inv (fs_sb s) \<Longrightarrow> sb_inv (fs_sb s')"
  by (induction rule: tmpfs_step.induct)
    (auto simp: file_read_inv file_write_inv do_truncate_inv notify_change_inv lookup_inv create_inv rmdir_inv unlink_inv
      link_inv rename_inv readlink_inv iput_inv iget_sb)

lemma tmpfs_reach_inv: "tmpfs_reach options s \<Longrightarrow> sb_inv (fs_sb s)"
  by (induction rule: tmpfs_reach.induct) (auto simp: read_super_inv step_keeps)

text \<open>
  C20. The accounting of the file system is exact in every state that a mounted instance can reach:
  the bytes charged are the pages that the nodes hold, times the page size, and stay within the
  limit of the mount; the inode counter is the number of nodes and stays within its limit; inode
  numbers are unique and non-zero, and so are the names in each directory, which have 1 to 255
  characters; and every node counts its own pages correctly.
\<close>

theorem tmpfs_accounting_exact:
  assumes "tmpfs_reach options s"
  shows "unat (tb_bytes_used (fs_sb s)) = PAGE_SIZE * sum_list (map (\<lambda>n. length (filter (\<lambda>p. p \<noteq> None) (tn_pages n))) (tb_nodes (fs_sb s))) \<and>
    tb_bytes_used (fs_sb s) \<le> tb_max_bytes (fs_sb s) \<and>
    unat (tb_nr_inodes (fs_sb s)) = length (tb_nodes (fs_sb s)) \<and> tb_nr_inodes (fs_sb s) \<le> tb_max_inodes (fs_sb s) \<and>
    distinct (map tn_ino (tb_nodes (fs_sb s))) \<and>
    (\<forall>n \<in> set (tb_nodes (fs_sb s)). tn_ino n \<noteq> 0 \<and> distinct (map de_name (tn_entries n)) \<and>
       (\<forall>de \<in> set (tn_entries n). 1 \<le> length (de_name de) \<and> length (de_name de) \<le> 255) \<and>
       tn_nr_pages n = of_nat (length (filter (\<lambda>p. p \<noteq> None) (tn_pages n))))"
  using tmpfs_reach_inv [OF assms]
  by (auto simp: sb_inv_def space_ok_def used_pages_def npages_def dir_ok_def pages_ok_def TMPFS_NAME_LEN_def Suc_le_eq)

section \<open>A small run, for the concrete instances\<close>

definition root_env :: tm_env where
  "root_env = \<lparr> te_fsuid = 0, te_fsgid = 0, te_suser = True, te_in_group = (\<lambda>_. True), te_now = 100,
     te_kmalloc_node = True, te_kmalloc_dirent = True, te_kmalloc_target = True, te_kmalloc_table = (\<lambda>_. True),
     te_free_page = (\<lambda>_. True), te_iget = True, te_uaccess = True \<rparr>"

definition fs1 :: tmpfs_st where
  "fs1 = the (tmpfs_read_super root_env ''size=8192'')"

definition fs2 :: tmpfs_st where
  "fs2 = snd (tmpfs_create root_env 1 ''a'' 0x1A4 fs1)"

lemma fs1_mounted: "tmpfs_read_super root_env ''size=8192'' = Some fs1" "tb_max_bytes (fs_sb fs1) = 8192" "tb_next_ino (fs_sb fs1) = 2"
proof -
  have "tmpfs_read_super root_env ''size=8192'' \<noteq> None" by code_simp
  then show "tmpfs_read_super root_env ''size=8192'' = Some fs1" by (auto simp: fs1_def)
  show "tb_max_bytes (fs_sb fs1) = 8192" "tb_next_ino (fs_sb fs1) = 2" by code_simp+
qed

lemma fs_reach: "tmpfs_reach ''size=8192'' fs1" "tmpfs_reach ''size=8192'' fs2"
proof -
  have "unat (tb_max_bytes (fs_sb fs1)) + PAGE_SIZE < 2 ^ 32"
    by (simp add: fs1_mounted PAGE_SIZE_def)
  then show r: "tmpfs_reach ''size=8192'' fs1"
    by (rule tr_mount [OF fs1_mounted(1)])
  show "tmpfs_reach ''size=8192'' fs2"
    unfolding fs2_def by (rule tr_step [OF r]) (simp add: ts_create fs1_mounted)
qed

lemma fs2_nodes: "map tn_ino (tb_nodes (fs_sb fs2)) = [2, 1]" "tmpfs_find_node (fs_sb fs2) 2 \<noteq> None"
  by code_simp+

theorem tmpfs_accounting_exact_witness:
  "unat (tb_nr_inodes (fs_sb fs2)) = 2 \<and> tb_bytes_used (fs_sb fs2) \<le> tb_max_bytes (fs_sb fs2)"
  using tmpfs_accounting_exact [OF fs_reach(2)] fs2_nodes(1)
  by (metis length_map length_Cons list.size(3) numeral_2_eq_2)

section \<open>Files as byte arrays\<close>

text \<open>
  The contract of a byte file: a write that reports \<open>k\<close> bytes has stored the first \<open>k\<close> of its
  data at its position, touched no other byte and extended the size if needed; a read returns the
  bytes up to the size. \<open>lim\<close> bounds the positions.
\<close>

locale byte_file =
  fixes ok :: "'s \<Rightarrow> bool" and content :: "'s \<Rightarrow> nat \<Rightarrow> u8" and fsize :: "'s \<Rightarrow> nat" and lim :: nat
    and put :: "nat \<Rightarrow> u8 list \<Rightarrow> 's \<Rightarrow> nat \<times> 's" and get :: "nat \<Rightarrow> nat \<Rightarrow> 's \<Rightarrow> u8 list"
  assumes put_ok: "ok s \<Longrightarrow> p + length d < lim \<Longrightarrow> put p d s = (k, s') \<Longrightarrow> ok s'"
    and put_le: "ok s \<Longrightarrow> p + length d < lim \<Longrightarrow> put p d s = (k, s') \<Longrightarrow> k \<le> length d"
    and put_content: "ok s \<Longrightarrow> p + length d < lim \<Longrightarrow> put p d s = (k, s') \<Longrightarrow>
      content s' i = (if p \<le> i \<and> i < p + k then d ! (i - p) else content s i)"
    and put_size: "ok s \<Longrightarrow> p + length d < lim \<Longrightarrow> put p d s = (k, s') \<Longrightarrow>
      fsize s' = (if k = 0 then fsize s else max (fsize s) (p + k))"
    and get_bytes: "ok s \<Longrightarrow> p + c < lim \<Longrightarrow> get p c s = map (content s) [p..<min (p + c) (fsize s)]"
begin

lemma get_put:
  assumes "ok s" "p + length d < lim" "put p d s = (k, s')"
  shows "get p k s' = take k d"
proof (cases "k = 0")
  case False
  have k: "k \<le> length d" using put_le assms .
  then have "get p k s' = map (content s') [p..<p + k]"
    using False assms(2) put_size [OF assms] by (simp add: get_bytes [OF put_ok [OF assms]])
  also have "\<dots> = take k d"
    using k by (intro nth_equalityI) (simp_all add: put_content [OF assms])
  finally show ?thesis .
qed (use assms in \<open>simp add: get_bytes [OF put_ok [OF assms]]\<close>)

lemma get_put_other:
  assumes "ok s" "p + length d < lim" "put p d s = (k, s')" and "q + c \<le> fsize s" "q + c < lim" and "q + c \<le> p \<or> p + k \<le> q"
  shows "get q c s' = get q c s"
proof -
  have "q + c \<le> fsize s'"
    using assms(4) put_size [OF assms(1-3)] by auto
  then show ?thesis
    using assms(4-6) by (auto simp: get_bytes [OF put_ok [OF assms(1-3)]] get_bytes [OF assms(1)] put_content [OF assms(1-3)])
qed

lemma put_put_get:
  assumes "ok s" "p + length d + length d' < lim" "put p d s = (length d, s1)" "put (p + length d) d' s1 = (length d', s2)"
  shows "get p (length d + length d') s2 = d @ d'"
proof (cases "d @ d' = []")
  case True
  have l1: "p + length d < lim" using assms(2) by simp
  have "ok s1" using put_ok [OF assms(1) l1 assms(3)] .
  then have "ok s2" using put_ok [OF _ _ assms(4)] assms(2) by simp
  then show ?thesis using True assms(2) by (simp add: get_bytes)
next
  case False
  have l1: "p + length d < lim" using assms(2) by simp
  have ok1: "ok s1" using put_ok [OF assms(1) l1 assms(3)] .
  have l2: "p + length d + length d' < lim" using assms(2) .
  have ok2: "ok s2" using put_ok [OF ok1 l2 assms(4)] .
  have "p + length d + length d' \<le> fsize s2"
    using put_size [OF assms(1) l1 assms(3)] put_size [OF ok1 l2 assms(4)] False by (auto split: if_splits)
  then have "get p (length d + length d') s2 = map (content s2) [p..<p + (length d + length d')]"
    using assms(2) by (simp add: get_bytes [OF ok2] add.assoc)
  also have "\<dots> = d @ d'"
    by (intro nth_equalityI)
      (auto simp: put_content [OF ok1 l2 assms(4)] put_content [OF assms(1) l1 assms(3)] nth_append)
  finally show ?thesis .
qed

end

text \<open>The file \<open>ino\<close> of a mounted instance, read and written at explicit positions.\<close>

definition at_pos :: "nat \<Rightarrow> file_st" where
  "at_pos p = \<lparr> f_pos = int p, f_append = False \<rparr>"

definition file_put :: "tm_env \<Rightarrow> u32 \<Rightarrow> nat \<Rightarrow> u8 list \<Rightarrow> tmpfs_st \<Rightarrow> nat \<times> tmpfs_st" where
  "file_put e ino p d s =
     (case tmpfs_file_write e ino (at_pos p) d s of (r, f, s') \<Rightarrow> (case r of Inr k \<Rightarrow> k | Inl _ \<Rightarrow> 0, s'))"

definition file_get :: "tm_env \<Rightarrow> u32 \<Rightarrow> nat \<Rightarrow> nat \<Rightarrow> tmpfs_st \<Rightarrow> u8 list" where
  "file_get e ino p c s = (case fst (tmpfs_file_read e ino (at_pos p) (int c) s) of Inr d \<Rightarrow> d | Inl _ \<Rightarrow> [])"

definition file_ok :: "u32 \<Rightarrow> tmpfs_st \<Rightarrow> bool" where
  "file_ok ino s \<longleftrightarrow> sb_inv (fs_sb s) \<and> tmpfs_find_node (fs_sb s) ino \<noteq> None"

definition file_node :: "u32 \<Rightarrow> tmpfs_st \<Rightarrow> tmpfs_node" where
  "file_node ino s = the (tmpfs_find_node (fs_sb s) ino)"

lemma find_upd_self:
  "tmpfs_find_node b ino = Some n \<Longrightarrow> tb_nodes b' = tb_nodes b \<Longrightarrow> tn_ino n' = ino \<Longrightarrow>
    tmpfs_find_node (upd_node ino (\<lambda>_. n') b') ino = Some n'"
proof -
  have "List.find (\<lambda>n. tn_ino n = ino) ns = Some n \<Longrightarrow> tn_ino n' = ino \<Longrightarrow>
     List.find (\<lambda>n. tn_ino n = ino) (map (\<lambda>m. if tn_ino m = ino then n' else m) ns) = Some n'" for ns
    by (induction ns) auto
  then show "tmpfs_find_node b ino = Some n \<Longrightarrow> tb_nodes b' = tb_nodes b \<Longrightarrow> tn_ino n' = ino \<Longrightarrow>
    tmpfs_find_node (upd_node ino (\<lambda>_. n') b') ino = Some n'"
    by (simp add: tmpfs_find_node_def upd_node_def)
qed

lemma file_get_bytes:
  assumes "file_ok ino s" "te_uaccess e" "p + c < 2 ^ 31"
  shows "file_get e ino p c s = map (byte_at (file_node ino s)) [p..<min (p + c) (nat (tn_size (file_node ino s)))]"
proof -
  obtain n where n: "tmpfs_find_node (fs_sb s) ino = Some n"
    using assms(1) by (auto simp: file_ok_def)
  have pok: "pages_ok n"
    using assms(1) find_node_pages [OF _ n] by (simp add: file_ok_def)
  have s32: "s32 (int p + int c) = int p + int c"
    using assms(3) by (simp add: s32_id)
  show ?thesis
  proof (cases "c = 0 \<or> tn_size n \<le> int p")
    case True
    then show ?thesis
      using assms(2) by (auto simp: file_get_def tmpfs_file_read_def n file_node_def at_pos_def)
  next
    case False
    define m where "m = min c (nat (tn_size n) - p)"
    have m: "tn_size n < int p + int c \<Longrightarrow> nat (tn_size n - int p) = m" "\<not> tn_size n < int p + int c \<Longrightarrow> c = m"
        "p + m = min (p + c) (nat (tn_size n))"
      using False by (auto simp: m_def)
    have "file_get e ino p c s = tmpfs_read_loop n (int p) m"
      using False assms(2) by (simp add: file_get_def tmpfs_file_read_def n at_pos_def s32 m(1,2) Let_def)
    then show ?thesis
      using read_loop_bytes [OF pok, of p m] m(3) assms(3) by (simp add: file_node_def n)
  qed
qed

lemma file_put_effect:
  assumes "file_ok ino s" "te_uaccess e" "p + length d < 2 ^ 31" "file_put e ino p d s = (k, s')"
  shows "k \<le> length d \<and> file_ok ino s' \<and>
    (\<forall>i. byte_at (file_node ino s') i = (if p \<le> i \<and> i < p + k then d ! (i - p) else byte_at (file_node ino s) i)) \<and>
    nat (tn_size (file_node ino s')) = (if k = 0 then nat (tn_size (file_node ino s)) else max (nat (tn_size (file_node ino s))) (p + k))"
proof (cases "d = []")
  case True
  then show ?thesis
    using assms by (auto simp: file_put_def tmpfs_file_write_def file_ok_def split: option.splits)
next
  case False
  obtain n where n: "tmpfs_find_node (fs_sb s) ino = Some n"
    using assms(1) by (auto simp: file_ok_def)
  have inv: "sb_inv (fs_sb s)" using assms(1) by (simp add: file_ok_def)
  have pok: "pages_ok n" "space_ok (fs_sb s)"
    using find_node_pages [OF inv n] inv by (simp_all add: sb_inv_def)
  obtain err k' n' b' where w: "tmpfs_write_loop e (int p) d 0 (n, fs_sb s) = (err, int (p + k'), k', n', b')"
      "k' \<le> length d" "wrote p (take k' d) (n, fs_sb s) (n', b')" "err = None \<longleftrightarrow> k' = length d"
    using write_loop_wrote [OF pok assms(3), of e 0] by auto
  note wr = w(3) [unfolded wrote_def Let_def prod.case]
  note fields = acct_fields [OF wrote_acct [OF w(3)]]
  define s1 where "s1 = snd (snd (tmpfs_file_write e ino (at_pos p) d s))"
  have s': "k = k'" "s' = s1"
    using assms(2,4) False w(2,4)
    by (auto simp: s1_def file_put_def tmpfs_file_write_def n at_pos_def w(1) Let_def split: option.splits if_splits)
  have "tmpfs_find_node (upd_node ino (\<lambda>_. n') b') ino = Some n'"
    by (rule find_upd_self [OF n fields(1)]) (use fields(6) find_node_Some [OF n] in simp)
  then have "\<exists>n1. tmpfs_find_node (fs_sb s1) ino = Some n1 \<and> tn_pages n1 = tn_pages n' \<and> tn_size n1 = tn_size n'"
    using assms(2) False by (auto simp: s1_def tmpfs_file_write_def n at_pos_def w(1) Let_def find_upd split: option.splits)
  then obtain n1 where n1: "tmpfs_find_node (fs_sb s1) ino = Some n1" "byte_at n1 = byte_at n'" "tn_size n1 = tn_size n'"
    using byte_at_cong by blast
  have "sb_inv (fs_sb s1)"
    unfolding s1_def by (rule file_write_inv [OF inv]) (use assms(3) in \<open>simp_all add: at_pos_def\<close>)
  then show ?thesis
    using wr w(2) False by (auto simp: s' file_ok_def file_node_def n1 n min_def)
qed

interpretation tf: byte_file "file_ok ino" "\<lambda>s. byte_at (file_node ino s)" "\<lambda>s. nat (tn_size (file_node ino s))"
    "2 ^ 31" "file_put (e \<lparr> te_uaccess := True \<rparr>) ino" "file_get (e \<lparr> te_uaccess := True \<rparr>) ino" for e ino
  by unfold_locales (use file_put_effect [of ino _ "e \<lparr> te_uaccess := True \<rparr>"] in \<open>simp_all add: file_get_bytes\<close>)

subsection \<open>Complete writes\<close>

text \<open>The pages that a write of \<open>l\<close> bytes at \<open>p\<close> touches.\<close>

definition pages_for :: "nat \<Rightarrow> nat \<Rightarrow> nat" where
  "pages_for p l = (if l = 0 then 0 else (p mod PAGE_SIZE + l + PAGE_SIZE - 1) div PAGE_SIZE)"

lemma pages_for_step:
  assumes "0 < l" "c = min (PAGE_SIZE - p mod PAGE_SIZE) l"
  shows "pages_for p l = Suc (pages_for (p + c) (l - c))"
proof (cases "p mod PAGE_SIZE + l \<le> PAGE_SIZE")
  case True
  then have c: "c = l" using assms(2) by simp
  have "pages_for p l = 1"
    using True assms(1) by (simp add: pages_for_def div_nat_eqI)
  moreover have "pages_for (p + c) (l - c) = 0"
    by (simp add: c pages_for_def)
  ultimately show ?thesis by simp
next
  case False
  then have c: "c = PAGE_SIZE - p mod PAGE_SIZE" using assms(2) by simp
  have m: "p mod PAGE_SIZE < PAGE_SIZE" by simp
  have "p + c = (p div PAGE_SIZE + 1) * PAGE_SIZE"
    using div_mult_mod_eq [of p PAGE_SIZE] m unfolding c add_mult_distrib by linarith
  then have "(p + c) mod PAGE_SIZE = 0" by simp
  moreover have e: "p mod PAGE_SIZE + l + PAGE_SIZE - 1 = PAGE_SIZE + (l - c + PAGE_SIZE - 1)"
    using False m by (simp add: c)
  have "(p mod PAGE_SIZE + l + PAGE_SIZE - 1) div PAGE_SIZE = Suc ((l - c + PAGE_SIZE - 1) div PAGE_SIZE)"
    unfolding e by (subst div_add_self1) simp_all
  moreover have "0 < l - c"
    using False m by (simp add: c)
  ultimately show ?thesis
    using assms(1) by (simp add: pages_for_def)
qed

lemma get_page_room:
  assumes "space_ok b" "\<And>i. te_free_page e i" "unat (tb_bytes_used b) + PAGE_SIZE * Suc m \<le> unat (tb_max_bytes b)"
  shows "\<exists>n' b'. tmpfs_get_page e p (n, b) = Inr (n', b') \<and>
    unat (tb_bytes_used b') + PAGE_SIZE * m \<le> unat (tb_max_bytes b') \<and> tb_max_bytes b' = tb_max_bytes b"
proof (cases "tn_pages n ! p")
  case None
  have "unat (tb_bytes_used b + of_nat PAGE_SIZE) = unat (tb_bytes_used b) + PAGE_SIZE"
    using assms(1,3) by (simp add: space_ok_def PAGE_SIZE_def unat_word_ariths word_le_nat_alt)
  then show ?thesis
    using assms None by (simp add: tmpfs_get_page_def word_le_nat_alt word_less_nat_alt not_less)
qed (use assms in \<open>simp add: tmpfs_get_page_def\<close>)

lemma write_loop_completes:
  assumes "pages_ok n" and "space_ok b" and "p + length data \<le> TMPFS_MAX_FILE_PAGES * PAGE_SIZE"
    and "unat (tb_bytes_used b) + PAGE_SIZE * pages_for p (length data) \<le> unat (tb_max_bytes b)"
    and mem: "\<And>i. te_free_page e i" "\<And>i. te_kmalloc_table e i"
  shows "fst (tmpfs_write_loop e (int p) data w (n, b)) = None"
  using assms(1-4)
proof (induction data arbitrary: p w n b rule: length_induct)
  case (1 data)
  note IH = 1(1) [rule_format] and ok = 1(2,3) and lt = 1(4) and room = 1(5)
  show ?case
  proof (cases "data = []")
    case False
    define c where "c = min (PAGE_SIZE - p mod PAGE_SIZE) (length data)"
    have m: "p mod PAGE_SIZE < PAGE_SIZE" by simp
    have c: "0 < c" "c \<le> length data" "p mod PAGE_SIZE + length (take c data) \<le> PAGE_SIZE" "take c data \<noteq> []"
      using False m by (auto simp: c_def min_def)
    have p31: "p < 2 ^ 31"
      using lt by (simp add: TMPFS_MAX_FILE_PAGES_def PAGE_SIZE_def)
    have pp: "page_of (int p) = p div PAGE_SIZE" "off_of (int p) = p mod PAGE_SIZE"
      using p31 by (simp_all add: page_of_nat off_of_nat)
    note loop = tmpfs_write_loop.simps [of e "int p" data w "(n, b)", unfolded pp Let_def, folded c_def]
    have "p div PAGE_SIZE < TMPFS_MAX_FILE_PAGES"
      using lt c(1,2) by (simp add: less_mult_imp_div_less)
    then obtain n1 where en: "tmpfs_ensure_page_table e n (p div PAGE_SIZE) = Inr n1"
      using mem(2) by (cases "tmpfs_ensure_page_table e n (p div PAGE_SIZE)") (auto simp: tmpfs_ensure_page_table_def Let_def split: if_splits)
    have step: "pages_for p (length data) = Suc (pages_for (p + c) (length (drop c data)))"
      using pages_for_step [OF _ c_def] False by simp
    obtain n2 b2 where gp: "tmpfs_get_page e (p div PAGE_SIZE) (n1, b) = Inr (n2, b2)"
      "unat (tb_bytes_used b2) + PAGE_SIZE * pages_for (p + c) (length (drop c data)) \<le> unat (tb_max_bytes b2)"
      using get_page_room [OF ok(2) mem(1) room [unfolded step]] by blast
    define n' where "n' = n2 \<lparr> tn_pages := (tn_pages n2) [p div PAGE_SIZE :=
        Some (blit (p mod PAGE_SIZE) (take c data) (the (tn_pages n2 ! (p div PAGE_SIZE))))],
        tn_size := (if int (p + length (take c data)) > tn_size n2 then int (p + length (take c data)) else tn_size n2) \<rparr>"
    have "wrote p (take c data) (n, b) (n', b2)"
      by (rule write_chunk [OF ok p31 c(4,3) en gp(1) n'_def])
    then have ok': "pages_ok n'" "space_ok b2"
      by (auto simp: wrote_def)
    have st: "tmpfs_write_loop e (int p) data w (n, b) = tmpfs_write_loop e (int (p + c)) (drop c data) (w + c) (n', b2)"
      using False en gp(1) c(2) by (simp add: loop n'_def)
    show ?thesis
      unfolding st by (rule IH [OF _ ok' _ gp(2)]) (use c lt in simp_all)
  qed (simp add: tmpfs_write_loop.simps)
qed

lemma file_write_completes:
  assumes inv: "sb_inv (fs_sb s)" and "tmpfs_find_node (fs_sb s) ino \<noteq> None" and "te_uaccess e"
    and "\<And>i. te_free_page e i" and "\<And>i. te_kmalloc_table e i"
    and "p + length d \<le> TMPFS_MAX_FILE_PAGES * PAGE_SIZE"
    and "unat (tb_bytes_used (fs_sb s)) + PAGE_SIZE * pages_for p (length d) \<le> unat (tb_max_bytes (fs_sb s))"
  shows "\<exists>s'. tmpfs_file_write e ino (at_pos p) d s = (Inr (length d), at_pos (p + length d), s')"
proof (cases "d = []")
  case True
  then show ?thesis using assms(2) by (auto simp: tmpfs_file_write_def)
next
  case False
  obtain n where n: "tmpfs_find_node (fs_sb s) ino = Some n" using assms(2) by auto
  have pok: "pages_ok n" "space_ok (fs_sb s)"
    using find_node_pages [OF inv n] inv by (simp_all add: sb_inv_def)
  have "p + length d < 2 ^ 31"
    using assms(6) by (simp add: TMPFS_MAX_FILE_PAGES_def PAGE_SIZE_def)
  with write_loop_wrote [OF pok this, of e 0] write_loop_completes [OF pok assms(6,7,4,5), of 0]
  obtain n' b' where "tmpfs_write_loop e (int p) d 0 (n, fs_sb s) = (None, int (p + length d), length d, n', b')"
    by auto
  then show ?thesis
    using n assms(3) False by (auto simp: tmpfs_file_write_def at_pos_def Let_def)
qed

text \<open>
  C22. A write is not cut short without a reason: when memory is available, the end of the data is
  within the largest file of 16 MiB, and the limit of the mount has room for one page for each page
  that the write touches, the whole of the data is written and the position moves behind it.
\<close>

theorem tmpfs_write_completes:
  assumes "tmpfs_reach options s" and "tmpfs_find_node (fs_sb s) ino \<noteq> None" and "te_uaccess e"
    and "\<And>i. te_free_page e i" and "\<And>i. te_kmalloc_table e i"
    and "p + length d \<le> TMPFS_MAX_FILE_PAGES * PAGE_SIZE"
    and "unat (tb_bytes_used (fs_sb s)) + PAGE_SIZE * pages_for p (length d) \<le> unat (tb_max_bytes (fs_sb s))"
  shows "\<exists>s'. tmpfs_file_write e ino (at_pos p) d s = (Inr (length d), at_pos (p + length d), s')"
  using file_write_completes [OF tmpfs_reach_inv [OF assms(1)] assms(2-)] .

lemma fs2_space: "tb_bytes_used (fs_sb fs2) = 0" "tb_max_bytes (fs_sb fs2) = 8192"
  by code_simp+

theorem tmpfs_write_completes_witness:
  "\<exists>s'. tmpfs_file_write root_env 2 (at_pos 4094) (replicate 4098 1) fs2 = (Inr 4098, at_pos 8192, s')"
  using tmpfs_write_completes [OF fs_reach(2) fs2_nodes(2), of root_env 4094 "replicate 4098 1"]
  by (simp add: root_env_def fs2_space pages_for_def PAGE_SIZE_def TMPFS_MAX_FILE_PAGES_def)

subsection \<open>Reading back\<close>

lemma file_read_get:
  "tmpfs_find_node (fs_sb s) ino \<noteq> None \<Longrightarrow> te_uaccess e \<Longrightarrow>
    fst (tmpfs_file_read e ino (at_pos p) (int c) s) = Inr (file_get e ino p c s)"
  by (auto simp: file_get_def tmpfs_file_read_def Let_def)

lemma file_write_put:
  "tmpfs_file_write e ino (at_pos p) d s = (Inr k, f', s') \<Longrightarrow> file_put e ino p d s = (k, s')"
  by (simp add: file_put_def)

lemma uaccess_id: "te_uaccess e \<Longrightarrow> e \<lparr> te_uaccess := True \<rparr> = e"
  by simp

text \<open>
  C21. Files behave as byte arrays. After a write at position \<open>p\<close> that reports \<open>k\<close> bytes, which
  may be fewer than requested when space or memory runs out on the way, a read of \<open>k\<close> bytes at
  \<open>p\<close> returns exactly the first \<open>k\<close> bytes of the data; every range of the old file that the
  \<open>k\<close> bytes do not touch reads as before; and the state is again one that the accounting covers.
\<close>

theorem tmpfs_write_read_back:
  assumes "tmpfs_reach options s" and "tmpfs_find_node (fs_sb s) ino \<noteq> None" and "te_uaccess e"
    and "p + length d < 2 ^ 31" and "tmpfs_file_write e ino (at_pos p) d s = (Inr k, f', s')"
  shows "k \<le> length d \<and> tmpfs_reach options s' \<and>
    fst (tmpfs_file_read e ino (at_pos p) (int k) s') = Inr (take k d) \<and>
    (\<forall>q c. int (q + c) \<le> tn_size (the (tmpfs_find_node (fs_sb s) ino)) \<and> q + c < 2 ^ 31 \<and> (q + c \<le> p \<or> p + k \<le> q) \<longrightarrow>
       fst (tmpfs_file_read e ino (at_pos q) (int c) s') = fst (tmpfs_file_read e ino (at_pos q) (int c) s))"
proof -
  have ok: "file_ok ino s" using assms(2) tmpfs_reach_inv [OF assms(1)] by (simp add: file_ok_def)
  note put = file_write_put [OF assms(5)]
  note tf = tf.put_ok tf.put_le tf.get_put tf.get_put_other
  note tf = tf [of ino s p d e k s', unfolded uaccess_id [OF assms(3)], OF ok assms(4) put]
  have "tmpfs_step s (snd (snd (tmpfs_file_write e ino (at_pos p) d s)))"
    by (rule ts_write) (use assms(4) in \<open>simp_all add: at_pos_def\<close>)
  then have "tmpfs_reach options s'" using tr_step [OF assms(1)] assms(5) by simp
  moreover have "tmpfs_find_node (fs_sb s') ino \<noteq> None" using tf(1) by (simp add: file_ok_def)
  ultimately show ?thesis
    using tf(2-4) assms(2,3) by (auto simp: file_read_get file_node_def)
qed

definition fs3 :: "nat res \<times> file_st \<times> tmpfs_st" where
  "fs3 = tmpfs_file_write root_env 2 (at_pos 3) [7, 8, 9] fs2"

lemma fs3_written: "fs3 = (Inr 3, at_pos 6, snd (snd fs3))"
proof -
  have "\<exists>s'. fs3 = (Inr (length [7, 8, 9 :: u8]), at_pos (3 + length [7, 8, 9 :: u8]), s')"
    unfolding fs3_def
    by (rule file_write_completes [OF tmpfs_reach_inv [OF fs_reach(2)] fs2_nodes(2)])
      (simp_all add: root_env_def fs2_space pages_for_def PAGE_SIZE_def TMPFS_MAX_FILE_PAGES_def)
  then obtain s' where "fs3 = (Inr 3, at_pos 6, s')"
    by (auto simp: eval_nat_numeral)
  then show ?thesis by (metis snd_conv)
qed

theorem tmpfs_write_read_back_witness:
  "fst (tmpfs_file_read root_env 2 (at_pos 3) 3 (snd (snd fs3))) = Inr [7, 8, 9]"
proof -
  have "te_uaccess root_env" by (simp add: root_env_def)
  from tmpfs_write_read_back [OF fs_reach(2) fs2_nodes(2) this, of 3 "[7, 8, 9]", OF _ fs3_written [unfolded fs3_def]]
  show ?thesis by (simp add: fs3_def)
qed

end
