(* ===== verification/Tmpfs_Names.thy ===== *)
theory Tmpfs_Names
  imports Tmpfs_Props
begin

text \<open>
  Further properties of the in-memory file system: truncation, directory listings, the life of a
  name, the sticky bit, unmounting, mount options, and two operations that do more than they should.
\<close>

section \<open>Truncation\<close>

lemma do_truncate_effect:
  assumes "file_ok ino s" "fs_ic s ino = Some i" "i_op i = Iop_file" "S_ISREG (i_mode i)" "len < 2 ^ 31"
  shows "\<exists>s' i'. do_truncate e ino (int len) s = (None, s') \<and> file_ok ino s' \<and> tn_size (file_node ino s') = int len \<and>
    (\<forall>j. byte_at (file_node ino s') j = (if j < len then byte_at (file_node ino s) j else 0)) \<and>
    fs_ic s' ino = Some i' \<and> i_op i' = Iop_file \<and> S_ISREG (i_mode i')"
proof -
  obtain n where n: "tmpfs_find_node (fs_sb s) ino = Some n"
    using assms(1) by (auto simp: file_ok_def)
  define a where "a = \<lparr> ia_mode = None, ia_uid = None, ia_gid = None, ia_size = Some (int len),
     ia_atime = None, ia_mtime = None, ia_ctime = Some (te_now e), ia_atime_set = False, ia_mtime_set = False, ia_force = False \<rparr>"
  define i1 where "i1 = inode_setattr e a i"
  define s1 where "s1 = on_sb (tmpfs_sync_node_from_inode ino i1) (upd_inode ino (\<lambda>_. i1) s)"
  define n1 where "n1 = n \<lparr> tn_mode := i_mode i1, tn_uid := i_uid i1, tn_gid := i_gid i1, tn_nlink := i_nlink i1,
       tn_rdev := i_rdev i1, tn_size := i_size i1, tn_atime := i_atime i1, tn_mtime := i_mtime i1, tn_ctime := i_ctime i1 \<rparr>"
  have i1: "i_op i1 = Iop_file" "S_ISREG (i_mode i1)" "i_size i1 = int len"
    using assms(3,4) by (simp_all add: i1_def inode_setattr_def a_def opt_def)
  have ic1: "fs_ic s1 ino = Some i1" and n1: "tmpfs_find_node (fs_sb s1) ino = Some n1"
    by (simp_all add: s1_def assms(2) n tmpfs_sync_node_from_inode_def find_upd n1_def)
  have inv1: "sb_inv (fs_sb s1)"
    using assms(1) by (simp add: s1_def file_ok_def sync_node_inv)
  have ok: "inode_change_ok e i a = Inr a"
    by (simp add: inode_change_ok_def a_def)
  have tr: "do_truncate e ino (int len) s = (None, tmpfs_truncate e ino s1)"
    using assms(2,5) i1(1) ok [unfolded a_def] ic1
    by (simp add: do_truncate_def notify_change_def tmpfs_notify_change_def s32_id Let_def)
      (simp add: s1_def i1_def a_def)
  obtain n' b' where cut: "tmpfs_cut (int len) (n1, fs_sb s1) = (n', b')"
    by (cases "tmpfs_cut (int len) (n1, fs_sb s1)")
  note pok = find_node_pages(1,2) [OF inv1 n1]
  note ca = cut_acct [OF pok cut] and cb = cut_bytes [OF pok assms(5) cut]
  have ino: "tn_ino n' = ino"
    using acct_fields(6) [OF ca(1)] find_node_Some [OF n1] by simp
  define n2 where "n2 = n' \<lparr> tn_mtime := te_now e, tn_ctime := te_now e \<rparr>"
  have reg: "S_ISREG (tn_mode n1)" and ino2: "tn_ino n2 = ino"
    using i1(2) ino by (simp_all add: n1_def n2_def)
  have "fs_sb (tmpfs_truncate e ino s1) = upd_node ino (\<lambda>_. n2) b'"
    using reg by (simp add: tmpfs_truncate_def n1 ic1 cut i1(3) Let_def n2_def)
  then have fin: "tmpfs_find_node (fs_sb (tmpfs_truncate e ino s1)) ino = Some n2"
    using find_upd_self [OF n1 acct_fields(1) [OF ca(1)] ino2] by (simp only:)
  have b2: "byte_at n2 = byte_at n'" "byte_at n1 = byte_at n"
    by (rule byte_at_cong, simp add: n2_def n1_def)+
  have "\<exists>i'. fs_ic (tmpfs_truncate e ino s1) ino = Some i' \<and> i_op i' = Iop_file \<and> S_ISREG (i_mode i')"
    using i1 reg by (simp add: tmpfs_truncate_def n1 ic1 cut Let_def)
  then show ?thesis
    using tr truncate_inv [OF inv1] fin cb ca(2) b2 by (auto simp: file_ok_def file_node_def n n2_def)
qed

text \<open>
  C23. Truncation neither loses nor reveals data. After a file is cut to \<open>len\<close> bytes and then
  extended to \<open>len'\<close>, what lay below \<open>len\<close> reads as before, and the whole range from \<open>len\<close>
  up to \<open>len'\<close> reads as zeroes, whatever the file held there before, including in the page that
  the cut divides.
\<close>

theorem tmpfs_truncate_extend:
  assumes "tmpfs_reach options s" and "tmpfs_find_node (fs_sb s) ino \<noteq> None" and "te_uaccess e"
    and "fs_ic s ino = Some i" "i_op i = Iop_file" "S_ISREG (i_mode i)" and "len \<le> len'" "len' < 2 ^ 31"
    and s1: "do_truncate e ino (int len) s = (r1, s1)" and s2: "do_truncate e ino (int len') s1 = (r2, s2)"
  shows "r1 = None \<and> r2 = None \<and>
    fst (tmpfs_file_read e ino (at_pos len) (int (len' - len)) s2) = Inr (replicate (len' - len) 0) \<and>
    (\<forall>q c. q + c \<le> len \<and> int (q + c) \<le> tn_size (the (tmpfs_find_node (fs_sb s) ino)) \<longrightarrow>
       fst (tmpfs_file_read e ino (at_pos q) (int c) s2) = fst (tmpfs_file_read e ino (at_pos q) (int c) s))"
proof -
  have ok: "file_ok ino s" using assms(2) tmpfs_reach_inv [OF assms(1)] by (simp add: file_ok_def)
  have l: "len < 2 ^ 31" using assms(7,8) by simp
  from do_truncate_effect [OF ok assms(4-6) l, of e] s1 obtain i1 where 1: "r1 = None" "file_ok ino s1"
      "\<And>j. byte_at (file_node ino s1) j = (if j < len then byte_at (file_node ino s) j else 0)"
      "fs_ic s1 ino = Some i1" "i_op i1 = Iop_file" "S_ISREG (i_mode i1)"
    by auto
  from do_truncate_effect [OF 1(2,4-6) assms(8), of e] s2 have 2: "r2 = None" "file_ok ino s2" "tn_size (file_node ino s2) = int len'"
      "\<And>j. byte_at (file_node ino s2) j = (if j < len' then byte_at (file_node ino s1) j else 0)"
    by auto
  have fn: "tmpfs_find_node (fs_sb s2) ino \<noteq> None" using 2(2) by (simp add: file_ok_def)
  have "file_get e ino len (len' - len) s2 = replicate (len' - len) 0"
    using assms(7,8) 1(3) 2(3,4) by (simp add: file_get_bytes [OF 2(2) assms(3)] map_replicate_trivial [symmetric] list_eq_iff_nth_eq)
  moreover have "file_get e ino q c s2 = file_get e ino q c s"
    if "q + c \<le> len" "int (q + c) \<le> tn_size (file_node ino s)" for q c
    using that assms(7) l 1(3) 2(3,4) by (simp add: file_get_bytes [OF 2(2) assms(3)] file_get_bytes [OF ok assms(3)])
  ultimately show ?thesis
    using 1(1) 2(1) fn assms(2,3) by (auto simp: file_read_get file_node_def)
qed

lemma file_write_inode:
  "fs_ic s ino = Some i \<Longrightarrow> \<exists>i'. fs_ic (snd (snd (tmpfs_file_write e ino f buf s))) ino = Some i' \<and>
    i_op i' = i_op i \<and> i_mode i' = i_mode i"
  by (auto simp: tmpfs_file_write_def Let_def split: option.splits prod.splits)

lemma fs2_inode: "\<exists>i. fs_ic fs2 2 = Some i \<and> i_op i = Iop_file \<and> S_ISREG (i_mode i)"
proof -
  have "(case fs_ic fs2 2 of Some i \<Rightarrow> i_op i = Iop_file \<and> S_ISREG (i_mode i) | None \<Rightarrow> False)" by code_simp
  then show ?thesis by (auto split: option.splits)
qed

lemma fs3_reach: "tmpfs_reach ''size=8192'' (snd (snd fs3))"
  unfolding fs3_def by (rule tr_step [OF fs_reach(2)], rule ts_write) (simp_all add: at_pos_def)

lemma fs3_node: "tmpfs_find_node (fs_sb (snd (snd fs3))) 2 \<noteq> None"
  using file_put_effect [OF _ _ _ file_write_put [OF fs3_written [unfolded fs3_def]]] tmpfs_reach_inv [OF fs_reach(2)] fs2_nodes(2)
  by (simp add: file_ok_def root_env_def fs3_def)

definition fs5 :: tmpfs_st where
  "fs5 = snd (do_truncate root_env 2 6 (snd (do_truncate root_env 2 4 (snd (snd fs3)))))"

theorem tmpfs_truncate_extend_witness:
  "fst (tmpfs_file_read root_env 2 (at_pos 4) 2 fs5) = Inr [0, 0]"
proof -
  obtain i where i: "fs_ic (snd (snd fs3)) 2 = Some i" "i_op i = Iop_file" "S_ISREG (i_mode i)"
    using fs2_inode file_write_inode unfolding fs3_def by metis
  have "te_uaccess root_env" by (simp add: root_env_def)
  from tmpfs_truncate_extend [OF fs3_reach fs3_node this i, of 4 6, OF _ _ prod.collapse [symmetric] prod.collapse [symmetric]]
  have "fst (tmpfs_file_read root_env 2 (at_pos 4) 2 fs5) = Inr (replicate 2 0)"
    by (simp add: fs5_def)
  moreover have "replicate 2 (0 :: u8) = [0, 0]"
    by (simp add: numeral_2_eq_2)
  ultimately show ?thesis by simp
qed

section \<open>Directory listings\<close>

text \<open>A caller whose buffer takes \<open>k\<close> entries, and the full listing of a directory.\<close>

definition bounded_fill :: "nat \<Rightarrow> (string \<times> u32) list \<Rightarrow> string \<Rightarrow> int \<Rightarrow> u32 \<Rightarrow> (string \<times> u32) list option" where
  "bounded_fill k c name pos ino = (if length c < k then Some (c @ [(name, ino)]) else None)"

definition dir_entries :: "tmpfs_node \<Rightarrow> (string \<times> u32) list" where
  "dir_entries d = map (\<lambda>de. (de_name de, de_ino de)) (tn_entries d)"

definition dir_listing :: "u32 \<Rightarrow> tmpfs_node \<Rightarrow> (string \<times> u32) list" where
  "dir_listing ino d = [(''.'', ino), (''..'', tn_parent_ino d)] @ dir_entries d"

lemma readdir_loop_take:
  assumes "idx \<le> pos" "pos \<le> idx + length des" "length c \<le> k"
  shows "readdir_loop (bounded_fill k) (int idx) des (int pos) c =
    (idx + length des - pos \<le> k - length c, int (pos + min (k - length c) (idx + length des - pos)),
     c @ take (k - length c) (drop (pos - idx) (map (\<lambda>de. (de_name de, de_ino de)) des)))"
  using assms
proof (induction des arbitrary: idx pos c)
  case (Cons de des)
  show ?case
  proof (cases "idx < pos")
    case True
    then obtain q where q: "pos - idx = Suc q" by (cases "pos - idx") auto
    then have "pos - Suc idx = q" by simp
    then show ?thesis
      using Cons.IH [of "Suc idx" pos c] Cons.prems True q by (simp add: add.commute)
  next
    case False
    then have p: "pos = idx" using Cons.prems(1) by simp
    show ?thesis
    proof (cases "length c < k")
      case True
      then obtain q where q: "k - length c = Suc q" by (cases "k - length c") auto
      then have q': "k - Suc (length c) = q" by simp
      show ?thesis
        using Cons.IH [of "Suc idx" "Suc idx" "c @ [(de_name de, de_ino de)]"] True q q'
        by (simp add: p bounded_fill_def add.commute)
    next
      case False
      then show ?thesis
        using Cons.prems(3) by (simp add: p bounded_fill_def)
    qed
  qed
qed simp

lemma readdir_dots_take:
  "pos \<le> 2 \<Longrightarrow> readdir_dots (bounded_fill k) ino par (int pos) [] =
    (2 - pos \<le> k, int (pos + min k (2 - pos)), take k (drop pos [(''.'', ino), (''..'', par)]))"
proof -
  assume "pos \<le> 2"
  then consider "pos = 0" | "pos = 1" | "pos = 2" by linarith
  then show ?thesis
    by cases (auto simp: readdir_dots_def bounded_fill_def take_Cons' min_def)
qed

lemma readdir_dots_past: "2 \<le> pos \<Longrightarrow> readdir_dots fill ino par (int pos) c = (True, int pos, c)"
  by (simp add: readdir_dots_def)

lemma readdir_take:
  assumes "fs_ic s ino = Some i" "S_ISDIR (i_mode i)" "tmpfs_find_node (fs_sb s) ino = Some d" "pos \<le> length (dir_listing ino d)"
  shows "\<exists>s'. tmpfs_readdir (bounded_fill k) e ino (at_pos pos) [] s =
      (Inr (take k (drop pos (dir_listing ino d))), at_pos (pos + min k (length (dir_listing ino d) - pos)), s') \<and>
    (\<exists>i'. fs_ic s' ino = Some i' \<and> i_mode i' = i_mode i) \<and>
    (\<exists>d'. tmpfs_find_node (fs_sb s') ino = Some d' \<and> dir_listing ino d' = dir_listing ino d)"
proof -
  define dots where "dots = [(''.'', ino), (''..'', tn_parent_ino d)]"
  define c where "c = drop pos dots"
  have dl: "dir_listing ino d = dots @ dir_entries d" and ld: "length dots = 2"
    by (simp_all add: dir_listing_def dots_def)
  have st: "\<exists>s'. (case readdir_loop (bounded_fill k) 2 (tn_entries d) p c of
          (False, pos, c) \<Rightarrow> (Inr c, f \<lparr> f_pos := pos \<rparr>, s)
        | (True, pos, c) \<Rightarrow>
            let s = on_sb (upd_node ino (\<lambda>n. n \<lparr> tn_atime := te_now e \<rparr>)) s;
                s = upd_inode ino (\<lambda>i. i \<lparr> i_atime := te_now e \<rparr>) s
            in (Inr c, f \<lparr> f_pos := pos \<rparr>, s)) =
      (Inr (snd (snd (readdir_loop (bounded_fill k) 2 (tn_entries d) p c))),
       f \<lparr> f_pos := fst (snd (readdir_loop (bounded_fill k) 2 (tn_entries d) p c)) \<rparr>, s') \<and>
      (\<exists>i'. fs_ic s' ino = Some i' \<and> i_mode i' = i_mode i) \<and>
      (\<exists>d'. tmpfs_find_node (fs_sb s') ino = Some d' \<and> dir_listing ino d' = dir_listing ino d)" for p c f
    using assms(1,3)
    by (auto simp: Let_def find_upd dir_listing_def dir_entries_def split: prod.splits bool.splits)
  show ?thesis
  proof (cases "k < 2 - pos")
    case True
    then have "take k (drop pos (dir_listing ino d)) = take k c"
      by (simp add: dl c_def ld)
    then show ?thesis
      using True assms by (simp add: tmpfs_readdir_def at_pos_def readdir_dots_take dl ld) (simp add: c_def dots_def)
  next
    case False
    have len: "length c = 2 - pos" by (simp add: c_def dots_def)
    have dots': "readdir_dots (bounded_fill k) ino (tn_parent_ino d) (int pos) [] = (True, int (max pos 2), c)"
      using False by (cases "pos \<le> 2") (auto simp: readdir_dots_take readdir_dots_past c_def dots_def max_def)
    have loop: "readdir_loop (bounded_fill k) (int 2) (tn_entries d) (int (max pos 2)) c =
        (length (tn_entries d) + 2 - max pos 2 \<le> k - length c,
         int (max pos 2 + min (k - length c) (length (tn_entries d) + 2 - max pos 2)),
         c @ take (k - length c) (drop (max pos 2 - 2) (dir_entries d)))"
      using assms(4) False len
      by (subst readdir_loop_take) (simp_all add: dir_listing_def dir_entries_def add.commute)
    have l1: "c @ take (k - length c) (drop (max pos 2 - 2) (dir_entries d)) = take k (drop pos (dir_listing ino d))"
      using False len by (simp add: dl ld c_def max_def)
    have l2: "max pos 2 + min (k - length c) (length (tn_entries d) + 2 - max pos 2) = pos + min k (length (dir_listing ino d) - pos)"
      using False assms(4) len by (auto simp: dir_listing_def dir_entries_def max_def min_def)
    have "f_pos (at_pos pos) = int pos" "(at_pos pos) \<lparr> f_pos := int pos + int q \<rparr> = at_pos (pos + q)" for q
      by (simp_all add: at_pos_def)
    then show ?thesis
      using st [of "at_pos pos" "int (max pos 2)" c] assms(1-3)
      by (simp add: tmpfs_readdir_def dots' loop [simplified l1 l2, simplified])
  qed
qed

text \<open>A listing in several calls, each with its own buffer, resumed where the last one stopped.\<close>

primrec readdir_calls :: "tm_env \<Rightarrow> u32 \<Rightarrow> nat list \<Rightarrow> file_st \<Rightarrow> tmpfs_st \<Rightarrow> (string \<times> u32) list res list" where
  "readdir_calls e ino [] f s = []"
| "readdir_calls e ino (k # ks) f s =
     (case tmpfs_readdir (bounded_fill k) e ino f [] s of (r, f, s) \<Rightarrow> r # readdir_calls e ino ks f s)"

text \<open>
  C25. Listing a directory is complete and free of repetitions however the caller sizes its buffers:
  the results of any sequence of calls with room for \<open>k1, k2, ...\<close> entries, each resumed at the
  position where the last one stopped, are the consecutive pieces of these lengths of one list: the
  directory itself, its parent, then every entry once.
\<close>

theorem tmpfs_readdir_resumes:
  assumes "fs_ic s ino = Some i" and "S_ISDIR (i_mode i)" and "tmpfs_find_node (fs_sb s) ino = Some d"
    and "pos \<le> length (dir_listing ino d)"
  shows "readdir_calls e ino ks (at_pos pos) s =
    map (\<lambda>j. Inr (take (ks ! j) (drop (pos + sum_list (take j ks)) (dir_listing ino d)))) [0..<length ks]"
  using assms
proof (induction ks arbitrary: pos s i d)
  case (Cons k ks)
  let ?l = "dir_listing ino d"
  obtain s' i' d' where r: "tmpfs_readdir (bounded_fill k) e ino (at_pos pos) [] s =
        (Inr (take k (drop pos ?l)), at_pos (pos + min k (length ?l - pos)), s')"
      "fs_ic s' ino = Some i'" "i_mode i' = i_mode i" "tmpfs_find_node (fs_sb s') ino = Some d'" "dir_listing ino d' = ?l"
    using readdir_take [OF Cons.prems, of k e] by blast
  have "pos + min k (length ?l - pos) \<le> length (dir_listing ino d')" "S_ISDIR (i_mode i')"
    using Cons.prems(2,4) r(3,5) by simp_all
  note IH = Cons.IH [OF r(2) this(2) r(4) this(1)]
  have "drop (pos + min k (length ?l - pos) + m) ?l = drop (pos + (k + m)) ?l" for m
    using Cons.prems(4) by (cases "k \<le> length ?l - pos") (simp_all add: min_def add.assoc)
  then show ?case
    using r(1,5) IH by (simp add: upt_conv_Cons map_Suc_upt [symmetric] del: upt_Suc)
qed simp

theorem tmpfs_readdir_resumes_witness:
  "readdir_calls root_env 1 [1, 2] (at_pos 0) fs2 = [Inr [(''.'', 1)], Inr [(''..'', 1), (''a'', 2)]]"
proof -
  obtain i d where i: "fs_ic fs2 1 = Some i" "S_ISDIR (i_mode i)" "tmpfs_find_node (fs_sb fs2) 1 = Some d"
      "dir_listing 1 d = [(''.'', 1), (''..'', 1), (''a'', 2)]"
  proof -
    have "(case (fs_ic fs2 1, tmpfs_find_node (fs_sb fs2) 1) of
        (Some i, Some d) \<Rightarrow> S_ISDIR (i_mode i) \<and> dir_listing 1 d = [(''.'', 1), (''..'', 1), (''a'', 2)] | _ \<Rightarrow> False)"
      by code_simp
    then show ?thesis
      using that by (auto split: option.splits)
  qed
  then show ?thesis
    using tmpfs_readdir_resumes [OF i(1-3), of 0 root_env "[1, 2]"] by (simp add: upt_conv_Cons numeral_2_eq_2)
qed

section \<open>The life of a name\<close>

lemma find_upd_other:
  assumes "\<And>n. tn_ino n = k \<Longrightarrow> tn_ino (f n) = k" "m \<noteq> k"
  shows "tmpfs_find_node (upd_node k f b) m = tmpfs_find_node b m"
proof -
  have "List.find (\<lambda>n. tn_ino n = m) (map (\<lambda>n. if tn_ino n = k then f n else n) ns) = List.find (\<lambda>n. tn_ino n = m) ns" for ns
    using assms by (induction ns) auto
  then show ?thesis by (simp add: tmpfs_find_node_def upd_node_def)
qed

lemma find_destroy_other: "m \<noteq> k \<Longrightarrow> tmpfs_find_node (tmpfs_destroy_node k b) m = tmpfs_find_node b m"
proof -
  have "m \<noteq> k \<Longrightarrow> List.find (\<lambda>n. tn_ino n = m) (filter (\<lambda>n. tn_ino n \<noteq> k) ns) = List.find (\<lambda>n. tn_ino n = m) ns" for ns
    by (induction ns) auto
  then show "m \<noteq> k \<Longrightarrow> tmpfs_find_node (tmpfs_destroy_node k b) m = tmpfs_find_node b m"
    by (simp add: tmpfs_find_node_def destroy_node_nodes)
qed

lemma find_truncate_other:
  assumes "sb_inv (fs_sb s)" "m \<noteq> k"
  shows "tmpfs_find_node (fs_sb (tmpfs_truncate e k s)) m = tmpfs_find_node (fs_sb s) m"
    and "fs_ic (tmpfs_truncate e k s) m = fs_ic s m"
proof -
  show "fs_ic (tmpfs_truncate e k s) m = fs_ic s m"
    using assms(2) by (auto simp: tmpfs_truncate_def Let_def split: option.splits prod.splits)
  show "tmpfs_find_node (fs_sb (tmpfs_truncate e k s)) m = tmpfs_find_node (fs_sb s) m"
  proof (cases "tmpfs_find_node (fs_sb s) k")
    case (Some n)
    show ?thesis
    proof (cases "fs_ic s k")
      case ic: (Some i)
      obtain n' b' where cut: "tmpfs_cut (i_size i) (n, fs_sb s) = (n', b')"
        by (cases "tmpfs_cut (i_size i) (n, fs_sb s)")
      note f = acct_fields(1,6) [OF cut_acct(1) [OF find_node_pages(1,2) [OF assms(1) Some] cut]]
      have "tmpfs_find_node b' m = tmpfs_find_node (fs_sb s) m"
        by (simp add: tmpfs_find_node_def f(1))
      then show ?thesis
        using assms(2) f(2) find_node_Some [OF Some] by (simp add: tmpfs_truncate_def Some ic cut Let_def find_upd_other)
    qed (simp add: tmpfs_truncate_def Some)
  qed (simp add: tmpfs_truncate_def)
qed

text \<open>Dropping a reference to one inode leaves every other node and inode alone.\<close>

lemma iput_other:
  assumes "sb_inv (fs_sb s)" "m \<noteq> k"
  shows "tmpfs_find_node (fs_sb (iput e k s)) m = tmpfs_find_node (fs_sb s) m" and "fs_ic (iput e k s) m = fs_ic s m"
proof -
  have p: "tmpfs_find_node (fs_sb (tmpfs_put_inode e k s)) m = tmpfs_find_node (fs_sb s) m \<and> fs_ic (tmpfs_put_inode e k s) m = fs_ic s m"
    if "sb_inv (fs_sb s)" for s
    using that assms(2) find_truncate_other [of "upd_inode k (\<lambda>i. i \<lparr> i_size := 0 \<rparr>) s" m k e]
    by (auto simp: tmpfs_put_inode_def tmpfs_sync_node_from_inode_def find_upd option.map_ident find_destroy_other Let_def clear_inode_def split: option.splits)
  have w: "tmpfs_find_node (fs_sb (tmpfs_write_inode k s)) m = tmpfs_find_node (fs_sb s) m \<and> fs_ic (tmpfs_write_inode k s) m = fs_ic s m" for s
    using assms(2) by (auto simp: tmpfs_write_inode_def tmpfs_sync_node_from_inode_def find_upd option.map_ident split: option.splits)
  show "tmpfs_find_node (fs_sb (iput e k s)) m = tmpfs_find_node (fs_sb s) m" "fs_ic (iput e k s) m = fs_ic s m"
    using assms p w by (auto simp: iput_def Let_def put_inode_inv write_inode_inv split: option.splits)
qed

text \<open>Dropping a reference to an inode with links keeps it in the cache.\<close>

lemma iput_self:
  assumes "fs_ic s k = Some i" "i_nlink i \<noteq> 0"
  shows "\<exists>i'. fs_ic (iput e k s) k = Some i' \<and> i_mode i' = i_mode i \<and> i_nlink i' = i_nlink i"
    and "map_option tn_entries (tmpfs_find_node (fs_sb (iput e k s)) k) = map_option tn_entries (tmpfs_find_node (fs_sb s) k)"
    and "tmpfs_find_node (fs_sb (iput e k s)) k = Some n \<Longrightarrow>
      tn_mode n = i_mode i \<or> map_option tn_mode (tmpfs_find_node (fs_sb s) k) = Some (tn_mode n)"
  using assms
  by (auto simp: iput_def tmpfs_put_inode_def tmpfs_write_inode_def tmpfs_sync_node_from_inode_def find_upd option.map_comp o_def Let_def
      split: if_splits)

lemma lookup_result:
  assumes "fs_ic s dir = Some i" "S_ISDIR (i_mode i)" "tmpfs_find_node (fs_sb s) dir = Some d" "te_iget e" "name \<noteq> ''.''" "name \<noteq> ''..''"
  shows "fst (tmpfs_lookup e dir name s) =
    (case tmpfs_find_dirent d name of Some de \<Rightarrow> if de_ino de = 0 then Inl ENOENT else Inr (de_ino de) | None \<Rightarrow> Inl ENOENT)"
  using assms by (auto simp: tmpfs_lookup_def iget_def Let_def split: option.splits)

lemma alloc_node_find:
  assumes "sb_inv b" "tmpfs_alloc_node e mode rdev b = Some (ino, b')"
  shows "ino \<noteq> 0" "tmpfs_find_node b ino = None" "m \<noteq> ino \<Longrightarrow> tmpfs_find_node b' m = tmpfs_find_node b m"
    and "\<exists>n. tmpfs_find_node b' ino = Some n \<and> tn_ino n = ino \<and> tn_mode n = mode \<and> tn_size n = (if S_ISDIR mode then 64 else 0) \<and>
      tn_nlink n = (if S_ISDIR mode then 2 else 1) \<and> tn_pages n = [] \<and> tn_entries n = []"
proof -
  have ino: "ino = tb_next_ino b"
    using assms(2) by (auto simp: tmpfs_alloc_node_def Let_def split: if_splits)
  then show "ino \<noteq> 0" using assms(1) by (auto simp: sb_inv_def)
  show "tmpfs_find_node b ino = None"
    using assms(1) unfolding ino tmpfs_find_node_def find_None_iff sb_inv_def by auto
  show "m \<noteq> ino \<Longrightarrow> tmpfs_find_node b' m = tmpfs_find_node b m"
    and "\<exists>n. tmpfs_find_node b' ino = Some n \<and> tn_ino n = ino \<and> tn_mode n = mode \<and> tn_size n = (if S_ISDIR mode then 64 else 0) \<and>
      tn_nlink n = (if S_ISDIR mode then 2 else 1) \<and> tn_pages n = [] \<and> tn_entries n = []"
    using assms(2) by (auto simp: tmpfs_alloc_node_def tmpfs_find_node_def Let_def split: if_splits)
qed

lemma add_node_find:
  assumes inv: "sb_inv b" and d: "tmpfs_find_node b dir = Some d" and a: "tmpfs_add_node e dir name mode rdev setup b = (Inr ino, b')"
    and keep: "\<And>n. tn_ino (setup n) = tn_ino n \<and> tn_mode (setup n) = tn_mode n \<and> tn_size (setup n) = tn_size n \<and> tn_nlink (setup n) = tn_nlink n"
  shows "ino \<noteq> 0 \<and> tmpfs_find_node b ino = None \<and>
    (\<exists>d'. tmpfs_find_node b' dir = Some d' \<and> tn_entries d' = \<lparr> de_ino = ino, de_name = name \<rparr> # tn_entries d \<and>
       tn_mode d' = tn_mode d) \<and>
    (\<exists>n. tmpfs_find_node b' ino = Some n \<and> tn_mode n = mode \<and> tn_size n = (if S_ISDIR mode then 64 else 0) \<and>
       tn_nlink n = (if S_ISDIR mode then 2 else 1)) \<and>
    (\<forall>m. m \<noteq> ino \<longrightarrow> m \<noteq> dir \<longrightarrow> tmpfs_find_node b' m = tmpfs_find_node b m)"
proof -
  obtain b1 where al: "tmpfs_alloc_node e mode rdev b = Some (ino, b1)"
    using a by (auto simp: tmpfs_add_node_def Let_def split: option.splits prod.splits sum.splits)
  note f = alloc_node_find [OF inv al]
  have ne: "ino \<noteq> dir" using f(2) d by auto
  define b2 where "b2 = upd_node ino (\<lambda>n. setup (n \<lparr> tn_parent_ino := dir \<rparr>)) b1"
  have b': "b' = upd_node dir (\<lambda>d. d \<lparr> tn_entries := \<lparr> de_ino = ino, de_name = name \<rparr> # tn_entries d,
      tn_mtime := te_now e, tn_ctime := te_now e \<rparr>) b2"
    using a by (auto simp: tmpfs_add_node_def al Let_def tmpfs_add_dirent_def b2_def split: if_splits)
  have "tmpfs_find_node b' m = (case tmpfs_find_node b1 m of None \<Rightarrow> None | Some n \<Rightarrow>
      if m = dir then Some (n \<lparr> tn_entries := \<lparr> de_ino = ino, de_name = name \<rparr> # tn_entries n,
        tn_mtime := te_now e, tn_ctime := te_now e \<rparr>)
      else if m = ino then Some (setup (n \<lparr> tn_parent_ino := dir \<rparr>)) else Some n)" for m
    using ne keep by (auto simp: b' b2_def find_upd split: option.splits)
  then show ?thesis
    using f d ne keep by (auto split: option.splits)
qed

lemma iget_frame:
  "iget e k s = Some s' \<Longrightarrow> fs_sb s' = fs_sb s \<and> (\<forall>m. m \<noteq> k \<longrightarrow> fs_ic s' m = fs_ic s m)"
  by (auto simp: iget_def split: if_splits option.splits)

lemma inherit_gid_keep:
  "tn_ino (inherit_gid d n) = tn_ino n \<and> tn_mode (inherit_gid d n) = tn_mode n \<and> tn_size (inherit_gid d n) = tn_size n \<and>
    tn_nlink (inherit_gid d n) = tn_nlink n"
  by (simp add: inherit_gid_def)

lemma file_mode: "\<not> S_ISDIR ((mode AND 0xFFF) OR S_IFREG)"
proof
  assume "S_ISDIR ((mode AND 0xFFF) OR S_IFREG)"
  then have "bit (((mode AND 0xFFF) OR S_IFREG) AND S_IFMT) 15 = bit S_IFDIR 15"
    by (simp add: S_ISDIR_def)
  then show False
    by (simp add: S_IFREG_def S_IFMT_def S_IFDIR_def bit_simps)
qed

lemma create_effect:
  assumes inv: "sb_inv (fs_sb s)" and ic: "fs_ic s dir = Some i" "i_nlink i \<noteq> 0" and d: "tmpfs_find_node (fs_sb s) dir = Some d"
    and c: "tmpfs_create e dir name mode s = (Inr ino, s')" and nx: "tb_next_ino (fs_sb s) \<noteq> -1"
  shows "ino \<noteq> 0 \<and> tmpfs_find_node (fs_sb s) ino = None \<and> tmpfs_find_dirent d name = None \<and>
    (\<exists>d'. tmpfs_find_node (fs_sb s') dir = Some d' \<and> tn_entries d' = \<lparr> de_ino = ino, de_name = name \<rparr> # tn_entries d \<and>
       (tn_mode d' = i_mode i \<or> tn_mode d' = tn_mode d)) \<and>
    (\<exists>i'. fs_ic s' dir = Some i' \<and> i_mode i' = i_mode i \<and> i_nlink i' = i_nlink i) \<and>
    (\<exists>n. tmpfs_find_node (fs_sb s') ino = Some n \<and> tn_mode n = (mode AND 0xFFF) OR S_IFREG \<and> tn_size n = 0 \<and> tn_nlink n = 1)"
proof -
  let ?m = "(mode AND 0xFFF) OR S_IFREG"
  obtain b1 where a: "tmpfs_add_node e dir name ?m 0 (inherit_gid d) (fs_sb s) = (Inr ino, b1)" "tmpfs_find_dirent d name = None"
    using c by (auto simp: tmpfs_create_def d Let_def split: if_splits prod.splits sum.splits option.splits)
  define s1 where "s1 = upd_inode dir (touch_inode e) (s \<lparr> fs_sb := b1 \<rparr>)"
  have s': "iget e ino (iput e dir s1) = Some s'"
    using c by (auto simp: tmpfs_create_def d a Let_def s1_def split: option.splits)
  note f = add_node_find [OF inv d a(1) inherit_gid_keep]
  have ne: "ino \<noteq> dir" using f d by auto
  have inv1: "sb_inv (fs_sb s1)"
    using add_node_inv [OF inv d a(2) nx inherit_attr a(1)] by (simp add: s1_def)
  have i1: "fs_ic s1 dir = Some (touch_inode e i)" by (simp add: s1_def ic)
  note self = iput_self [OF i1, of e] and other = iput_other [OF inv1 ne, of e]
  show ?thesis
    using self other f a(2) ic iget_frame [OF s'] ne file_mode [of mode]
    by (auto simp: s1_def touch_inode_def map_option_eq_Some)
qed

lemma drop_link_other:
  assumes "sb_inv (fs_sb s)" "m \<noteq> tn_ino t" "attr_only fn"
  shows "tmpfs_find_node (fs_sb (tmpfs_drop_link e t fi fn s)) m = tmpfs_find_node (fs_sb s) m"
    and "fs_ic (tmpfs_drop_link e t fi fn s) m = fs_ic s m"
proof -
  define nl where "nl = (if tn_nlink t > 0 then tn_nlink t - 1 else tn_nlink t)"
  define f where "f = (\<lambda>n. fn (n \<lparr> tn_nlink := nl \<rparr>))"
  have f: "attr_only f" "\<And>n. tn_ino (f n) = tn_ino n"
    using assms(3) by (simp_all add: f_def attr_only_def)
  have "tmpfs_find_node (fs_sb (tmpfs_drop_link e t fi fn s)) m = tmpfs_find_node (fs_sb s) m \<and>
      fs_ic (tmpfs_drop_link e t fi fn s) m = fs_ic s m"
  proof (cases "iget e (tn_ino t) s")
    case None
    then show ?thesis
      using assms(2) by (simp add: tmpfs_drop_link_def Let_def find_destroy_other find_upd_other)
  next
    case (Some s1)
    define s2 where "s2 = upd_inode (tn_ino t) (\<lambda>i. fi (i \<lparr> i_nlink := nl \<rparr>)) (on_sb (upd_node (tn_ino t) f) s1)"
    have "tmpfs_drop_link e t fi fn s = iput e (tn_ino t) s2"
      by (simp add: tmpfs_drop_link_def Some Let_def s2_def f_def nl_def)
    moreover have "sb_inv (fs_sb s2)"
      using assms(1) iget_frame [OF Some] sb_inv_attr [OF _ f(1)] by (simp add: s2_def)
    moreover have "tmpfs_find_node (fs_sb s2) m = tmpfs_find_node (fs_sb s) m" "fs_ic s2 m = fs_ic s m"
      using assms(2) iget_frame [OF Some] f(2) by (simp_all add: s2_def find_upd_other)
    ultimately show ?thesis
      using iput_other assms(2) by metis
  qed
  then show "tmpfs_find_node (fs_sb (tmpfs_drop_link e t fi fn s)) m = tmpfs_find_node (fs_sb s) m"
    "fs_ic (tmpfs_drop_link e t fi fn s) m = fs_ic s m" by simp_all
qed

lemma unlink_effect:
  assumes inv: "sb_inv (fs_sb s)" and ic: "fs_ic s dir = Some i" "i_nlink i \<noteq> 0" and d: "tmpfs_find_node (fs_sb s) dir = Some d"
    and reg: "S_ISDIR (tn_mode d)" and c: "tmpfs_unlink e dir name s = (None, s')"
  shows "\<exists>d' i' de. tmpfs_find_dirent d name = Some de \<and> tmpfs_find_node (fs_sb s') dir = Some d' \<and>
    tn_entries d' = remove1 de (tn_entries d) \<and> fs_ic s' dir = Some i' \<and> i_mode i' = i_mode i \<and> i_nlink i' = i_nlink i"
proof -
  obtain de t where de: "tmpfs_find_dirent d name = Some de" and t: "tmpfs_find_node (fs_sb s) (de_ino de) = Some t" "\<not> S_ISDIR (tn_mode t)"
      "tmpfs_check_sticky e d t = None"
    using c by (auto simp: tmpfs_unlink_def d split: option.splits if_splits)
  define s1 where "s1 = upd_inode dir (touch_inode e) (on_sb (upd_node dir (\<lambda>d. touch e (del_dirent de d))) s)"
  define s2 where "s2 = tmpfs_drop_link e t (\<lambda>i. i \<lparr> i_ctime := te_now e \<rparr>) (\<lambda>n. n \<lparr> tn_ctime := te_now e \<rparr>) s1"
  have s': "s' = iput e dir s2"
    using c by (simp add: tmpfs_unlink_def d de t s1_def s2_def Let_def)
  have ne: "dir \<noteq> tn_ino t"
    using t d reg find_node_Some [OF t(1)] by auto
  have inv1: "sb_inv (fs_sb s1)"
    using unlink_dir_inv [OF inv] by (simp add: s1_def)
  have d1: "tmpfs_find_node (fs_sb s1) dir = Some (touch e (del_dirent de d))" "fs_ic s1 dir = Some (touch_inode e i)"
    by (simp_all add: s1_def find_upd d ic touch_def del_dirent_def)
  have d2: "tmpfs_find_node (fs_sb s2) dir = Some (touch e (del_dirent de d))" "fs_ic s2 dir = Some (touch_inode e i)"
    using drop_link_other [OF inv1 ne, of "\<lambda>n. n \<lparr> tn_ctime := te_now e \<rparr>"] d1 by (simp_all add: s2_def attr_onlyI)
  show ?thesis
    using iput_self [OF d2(2), of e] ic(2) d2(1) de by (auto simp: s' touch_inode_def touch_def del_dirent_def)
qed

text \<open>
  C24. The life of a name. A name that a creation succeeded for was free; afterwards it leads to a
  fresh node, a regular file of length zero with one link and the requested permissions; every other
  name of the directory leads where it led before; and once the name is unlinked it is free again and
  the directory is as it was before the creation.
\<close>

theorem tmpfs_create_lookup_unlink:
  assumes r: "tmpfs_reach options s" "tb_next_ino (fs_sb s) \<noteq> -1" and ic: "fs_ic s dir = Some i" "i_nlink i \<noteq> 0" "S_ISDIR (i_mode i)"
    and d: "tmpfs_find_node (fs_sb s) dir = Some d" "S_ISDIR (tn_mode d)" and e: "te_iget e"
    and name: "name \<noteq> ''.''" "name \<noteq> ''..''" and c: "tmpfs_create e dir name mode s = (Inr ino, s1)"
  shows "fst (tmpfs_lookup e dir name s) = Inl ENOENT \<and> fst (tmpfs_lookup e dir name s1) = Inr ino \<and>
    tmpfs_find_node (fs_sb s) ino = None \<and>
    (\<exists>n. tmpfs_find_node (fs_sb s1) ino = Some n \<and> tn_mode n = (mode AND 0xFFF) OR S_IFREG \<and> tn_size n = 0 \<and> tn_nlink n = 1) \<and>
    (\<forall>x. x \<noteq> name \<and> x \<noteq> ''.'' \<and> x \<noteq> ''..'' \<longrightarrow> fst (tmpfs_lookup e dir x s1) = fst (tmpfs_lookup e dir x s)) \<and>
    (\<forall>s2. tmpfs_unlink e dir name s1 = (None, s2) \<longrightarrow>
       map_option dir_entries (tmpfs_find_node (fs_sb s2) dir) = Some (dir_entries d) \<and>
       (\<forall>x. x \<noteq> ''.'' \<and> x \<noteq> ''..'' \<longrightarrow> fst (tmpfs_lookup e dir x s2) = fst (tmpfs_lookup e dir x s)))"
proof -
  have inv: "sb_inv (fs_sb s)" and inv1: "sb_inv (fs_sb s1)"
    using tmpfs_reach_inv [OF r(1)] create_inv(1) [OF _ r(2), of e dir name mode] c by simp_all
  from create_effect [OF inv ic(1,2) d(1) c r(2)] obtain d1 i1 where
    1: "ino \<noteq> 0" "tmpfs_find_node (fs_sb s) ino = None" "tmpfs_find_dirent d name = None"
      "\<exists>n. tmpfs_find_node (fs_sb s1) ino = Some n \<and> tn_mode n = (mode AND 0xFFF) OR S_IFREG \<and> tn_size n = 0 \<and> tn_nlink n = 1"
    and d1: "tmpfs_find_node (fs_sb s1) dir = Some d1" "tn_entries d1 = \<lparr> de_ino = ino, de_name = name \<rparr> # tn_entries d"
      "tn_mode d1 = i_mode i \<or> tn_mode d1 = tn_mode d"
    and i1: "fs_ic s1 dir = Some i1" "i_mode i1 = i_mode i" "i_nlink i1 = i_nlink i"
    by blast
  have dir1: "S_ISDIR (i_mode i1)" "i_nlink i1 \<noteq> 0" "S_ISDIR (tn_mode d1)"
    using ic(2,3) i1(2,3) d(2) d1(3) by auto
  note look = lookup_result [OF ic(1,3) d(1) e] and look1 = lookup_result [OF i1(1) dir1(1) d1(1) e]
  have u: "tmpfs_find_dirent d1 x = (if x = name then Some \<lparr> de_ino = ino, de_name = name \<rparr> else tmpfs_find_dirent d x)" for x
    by (simp add: tmpfs_find_dirent_def d1(2))
  have "map_option dir_entries (tmpfs_find_node (fs_sb s2) dir) = Some (dir_entries d) \<and>
      (\<forall>x. x \<noteq> ''.'' \<and> x \<noteq> ''..'' \<longrightarrow> fst (tmpfs_lookup e dir x s2) = fst (tmpfs_lookup e dir x s))"
    if "tmpfs_unlink e dir name s1 = (None, s2)" for s2
  proof -
    from unlink_effect [OF inv1 i1(1) dir1(2) d1(1) dir1(3) that] obtain d2 i2 de where
      "tmpfs_find_dirent d1 name = Some de" and d2: "tmpfs_find_node (fs_sb s2) dir = Some d2" "tn_entries d2 = remove1 de (tn_entries d1)"
      and i2: "fs_ic s2 dir = Some i2" "i_mode i2 = i_mode i1"
      by blast
    then have en: "tn_entries d2 = tn_entries d" by (simp add: u d1(2))
    then have "tmpfs_find_dirent d2 x = tmpfs_find_dirent d x" for x by (simp add: tmpfs_find_dirent_def)
    then show ?thesis
      using lookup_result [OF i2(1) _ d2(1) e] dir1(1) i2(2) en look d2(1) by (simp add: dir_entries_def)
  qed
  then show ?thesis
    using 1 look look1 u name by auto
qed

theorem tmpfs_create_lookup_unlink_witness:
  "fst (tmpfs_create root_env 1 ''a'' 0x1A4 fs1) = Inr 2 \<and> fst (tmpfs_lookup root_env 1 ''a'' fs2) = Inr 2"
proof -
  obtain i d where i: "fs_ic fs1 1 = Some i" "i_nlink i \<noteq> 0" "S_ISDIR (i_mode i)" "tmpfs_find_node (fs_sb fs1) 1 = Some d" "S_ISDIR (tn_mode d)"
  proof -
    have "(case (fs_ic fs1 1, tmpfs_find_node (fs_sb fs1) 1) of
        (Some i, Some d) \<Rightarrow> i_nlink i \<noteq> 0 \<and> S_ISDIR (i_mode i) \<and> S_ISDIR (tn_mode d) | _ \<Rightarrow> False)"
      by code_simp
    then show ?thesis using that by (auto split: option.splits)
  qed
  have c: "fst (tmpfs_create root_env 1 ''a'' 0x1A4 fs1) = Inr 2" by code_simp
  have "tb_next_ino (fs_sb fs1) \<noteq> -1" "te_iget root_env" "''a'' \<noteq> ''.''" "''a'' \<noteq> ''..''"
    by (simp_all add: fs1_mounted root_env_def)
  moreover have "tmpfs_create root_env 1 ''a'' 0x1A4 fs1 = (Inr 2, fs2)"
    using c by (simp add: fs2_def prod_eq_iff)
  ultimately show ?thesis
    using tmpfs_create_lookup_unlink [OF fs_reach(1) _ i] by simp
qed

end
