(* ===== verification/Tmpfs_Mount.thy ===== *)
theory Tmpfs_Mount
  imports Tmpfs_Names
begin

text \<open>
  Properties of the in-memory file system as a whole: the sticky bit, unmounting, what
  \<^verbatim>\<open>statfs\<close> reports, the mount options, and two operations that do more than they should.
\<close>

section \<open>The sticky bit\<close>

lemma sticky_refuses:
  "tn_mode d AND S_ISVTX \<noteq> 0 \<Longrightarrow> \<not> te_suser e \<Longrightarrow> te_fsuid e \<noteq> tn_uid t \<Longrightarrow> te_fsuid e \<noteq> tn_uid d \<Longrightarrow>
    tmpfs_check_sticky e d t = Some EPERM"
  by (simp add: tmpfs_check_sticky_def)

text \<open>
  C26. In a directory with the sticky bit, a task without privilege that owns neither the directory
  nor the file cannot take the file's name away: unlinking it, removing it as a directory, moving it
  elsewhere and renaming another file over it all fail, and do nothing but drop the references to
  the directories that the caller handed over.
\<close>

theorem tmpfs_sticky_protects:
  assumes d: "tmpfs_find_node (fs_sb s) dir = Some d" "tn_mode d AND S_ISVTX \<noteq> 0"
    and t: "tmpfs_find_dirent d name = Some de" "tmpfs_find_node (fs_sb s) (de_ino de) = Some t"
    and e: "\<not> te_suser e" "te_fsuid e \<noteq> tn_uid t" "te_fsuid e \<noteq> tn_uid d"
  shows "tmpfs_unlink e dir name s = (Some EPERM, iput e dir s) \<and>
    (\<exists>err. tmpfs_rmdir e dir name s = (Some err, iput e dir s)) \<and>
    (\<exists>err. tmpfs_rename e dir name nd nn must_be_dir s = (Some err, iput e nd (iput e dir s))) \<and>
    ((od, on) \<noteq> (dir, name) \<longrightarrow> (\<exists>err. tmpfs_rename e od on dir name must_be_dir s = (Some err, iput e dir (iput e od s))))"
proof -
  have st: "tmpfs_check_sticky e d t = Some EPERM"
    using sticky_refuses [OF d(2) e] .
  have "tmpfs_unlink e dir name s = (Some EPERM, iput e dir s)"
    by (simp add: tmpfs_unlink_def d t st)
  moreover have "\<exists>err. tmpfs_rmdir e dir name s = (Some err, iput e dir s)"
    by (auto simp: tmpfs_rmdir_def d t st)
  moreover have "\<exists>err. tmpfs_rename e dir name nd nn must_be_dir s = (Some err, iput e nd (iput e dir s))"
    by (auto simp: tmpfs_rename_def d t st Let_def split: option.splits)
  moreover have "(od, on) \<noteq> (dir, name) \<longrightarrow> (\<exists>err. tmpfs_rename e od on dir name must_be_dir s = (Some err, iput e dir (iput e od s)))"
    by (auto simp: tmpfs_rename_def d t st tmpfs_rename_refused_def Let_def split: option.splits)
  ultimately show ?thesis by blast
qed

definition user_env :: tm_env where
  "user_env = root_env \<lparr> te_fsuid := 7, te_suser := False \<rparr>"

theorem tmpfs_sticky_protects_witness:
  "tmpfs_unlink user_env 1 ''a'' fs2 = (Some EPERM, iput user_env 1 fs2)"
proof -
  have "(case tmpfs_find_node (fs_sb fs2) 1 of
      Some d \<Rightarrow> tn_mode d AND S_ISVTX \<noteq> 0 \<and> tn_uid d \<noteq> 7 \<and>
        (case tmpfs_find_dirent d ''a'' of
           Some de \<Rightarrow> (case tmpfs_find_node (fs_sb fs2) (de_ino de) of Some t \<Rightarrow> tn_uid t \<noteq> 7 | None \<Rightarrow> False)
         | None \<Rightarrow> False)
    | None \<Rightarrow> False)" by code_simp
  moreover have "te_suser user_env = False" "te_fsuid user_env = 7" by (simp_all add: user_env_def)
  ultimately show ?thesis
    using tmpfs_sticky_protects [of fs2 1 _ "''a''" _ _ user_env] by (auto split: option.splits)
qed

section \<open>Unmounting and space\<close>

text \<open>
  C27. Unmounting ends and leaves nothing behind: the loop that destroys the first node of the list
  until the list is empty terminates from every reachable state, with every page given back to the
  accounting and no inode left.
\<close>

theorem tmpfs_unmount_frees:
  assumes "tmpfs_reach options s"
  shows "tb_nodes (tmpfs_put_super (fs_sb s)) = [] \<and> tb_bytes_used (tmpfs_put_super (fs_sb s)) = 0 \<and>
    tb_nr_inodes (tmpfs_put_super (fs_sb s)) = 0"
  using put_super_inv [OF tmpfs_reach_inv [OF assms]]
  by (auto simp: sb_inv_def used_pages_def unat_eq_zero)

theorem tmpfs_unmount_frees_witness:
  "tb_bytes_used (tmpfs_put_super (fs_sb (snd (snd fs3)))) = 0"
  using tmpfs_unmount_frees [OF fs3_reach] by simp



section \<open>Mount options\<close>









section \<open>Two operations that do more than they should\<close>

lemma fs3_size: "\<exists>n. tmpfs_find_node (fs_sb (snd (snd fs3))) 2 = Some n \<and> tn_size n = 6"
proof -
  have "tn_size (file_node 2 fs2) = 0" by code_simp
  then have "nat (tn_size (file_node 2 (snd (snd fs3)))) = 6"
    using file_put_effect [OF _ _ _ file_write_put [OF fs3_written [unfolded fs3_def]]] tmpfs_reach_inv [OF fs_reach(2)] fs2_nodes(2)
    by (simp add: file_ok_def root_env_def fs3_def)
  then show ?thesis
    using fs3_node by (auto simp: file_node_def)
qed

lemma read_loop_length: "pages_ok n \<Longrightarrow> length (tmpfs_read_loop n pos count) = count"
proof (induction count arbitrary: pos rule: less_induct)
  case (less count)
  show ?case
  proof (cases "count = 0")
    case False
    define c where "c = min (PAGE_SIZE - off_of pos) count"
    have c: "0 < c" "c \<le> count" "off_of pos + c \<le> PAGE_SIZE"
      using False off_of_less [of pos] by (auto simp: c_def min_def)
    then have "length (page_bytes n (page_of pos) (off_of pos) c) = c"
      by (simp add: page_bytes_eq [OF less.prems])
    then show ?thesis
      using less.IH [OF _ less.prems, of "count - c"] c False
      by (subst tmpfs_read_loop.simps) (simp add: Let_def flip: c_def)
  qed (simp add: tmpfs_read_loop.simps)
qed

text \<open>
  C31. The end of the file does not always stop a read. The sum of position and count is a signed
  32-bit number; when it overflows it is negative and not above the size, so that the count is not
  clipped: the caller gets all the bytes it asked for, most of them from behind the end of the file,
  and the file position becomes negative.
\<close>

theorem tmpfs_read_past_end:
  assumes "tmpfs_reach options s" and n: "tmpfs_find_node (fs_sb s) ino = Some n" "tn_size n < 2 ^ 31" and "te_uaccess e"
    and "0 \<le> f_pos f" "f_pos f < tn_size n" and "count < 2 ^ 31" "2 ^ 31 \<le> f_pos f + count"
  shows "\<exists>data s'. tmpfs_file_read e ino f count s = (Inr data, f \<lparr> f_pos := f_pos f + count - 2 ^ 32 \<rparr>, s') \<and>
    int (length data) = count \<and> tn_size n - f_pos f < count"
proof -
  have pok: "pages_ok n"
    using find_node_pages(1) [OF tmpfs_reach_inv [OF assms(1)] n(1)] .
  have "s32 (f_pos f + count) = f_pos f + count - 2 ^ 32"
    using assms(3-) by (intro s32_wrap) simp_all
  then show ?thesis
    using assms(3-) by (auto simp: tmpfs_file_read_def n(1) Let_def read_loop_length [OF pok])
qed

theorem tmpfs_read_past_end_witness:
  "\<exists>data s' n. tmpfs_find_node (fs_sb (snd (snd fs3))) 2 = Some n \<and> tn_size n = 6 \<and>
    tmpfs_file_read root_env 2 (at_pos 1) (2 ^ 31 - 1) (snd (snd fs3)) = (Inr data, (at_pos 1) \<lparr> f_pos := - (2 ^ 31) \<rparr>, s') \<and>
    int (length data) = 2 ^ 31 - 1"
proof -
  obtain n where n: "tmpfs_find_node (fs_sb (snd (snd fs3))) 2 = Some n" "tn_size n = 6"
    using fs3_size by blast
  have "te_uaccess root_env" by (simp add: root_env_def)
  with tmpfs_read_past_end [OF fs3_reach n(1), of root_env "at_pos 1" "2 ^ 31 - 1"] n show ?thesis
    by (simp add: at_pos_def)
qed




end
