(* ===== verification/Spec2Isabelle.thy ===== *)
theory Spec2Isabelle
  imports Fwupd_Image Power_Props Binder_IPC Tmpfs_Mount
begin

text \<open>
  \<^bold>\<open>SIX\<close> is a small Unix-like kernel that runs as a process of a host system. It takes the
  structure of an early Linux (a VFS with an inode cache, block and character drivers, ports of
  several file systems) and adds its own parts: a Binder IPC driver, power management with
  wakelocks, an in-memory file system, a device mapper with verified and encrypted targets, a UFS
  driver with an authenticated storage partition, and a firmware update format. This library models
  those own parts and proves what each of them promises. The kernel is built for 32 bits:
  \<^verbatim>\<open>unsigned long\<close> and \<^verbatim>\<open>unsigned int\<close> are 32-bit words, with wrap-around wherever the
  code can reach it.

  \<^bold>\<open>Conventions.\<close> A structure is a record, the static variables of a driver are a state record
  that every operation takes and returns, an error return is a value \<open>Inl errno\<close> or
  \<open>Some errno\<close>, and a loop is a recursive function with a termination proof. What the code gets
  from outside (the calling task, memory allocation, the clock, user-space checks, the host's
  devices) is an environment record or a parameter. Console output is left out. Names follow the
  source.

  \<^bold>\<open>Theories.\<close>
  \<^item> \<open>Six_Prelude\<close>: word types, byte order, error numbers, lists of bytes, shared lemmas.
  \<^item> \<open>Kernel_Lib\<close>: character classes and \<^verbatim>\<open>simple_strtoul\<close> (\<^verbatim>\<open>lib/vsprintf.c\<close>),
    decimal printing, C strings.
  \<^item> \<open>Sha256\<close>: a reference for SHA-256 and the copies of it in \<^verbatim>\<open>drivers/block/dm.c\<close> and
    \<^verbatim>\<open>drivers/block/ufshcd.c\<close>. The first computes the reference; the second is what the driver
    makes of it for its MAC. The round constants are laid out in rows as in the source.
  \<^item> \<open>Fwupd\<close>, \<open>Fwupd_Image\<close>: the firmware update format of \<^verbatim>\<open>include/linux/fwupd.h\<close>: the
    streaming hash against the reference for every way to cut the data, the receiver's exact
    decision, and the round trip from the image generator to the receiver.
  \<^item> \<open>Power_Dev\<close>, \<open>Power_Props\<close>: \<^verbatim>\<open>drivers/char/power_dev.c\<close>, its state as \<open>pm_st\<close>; the
    table invariant over runs, the suspend decision, the wakeup-count protocol, the clock.
  \<^item> \<open>Binder\<close>, \<open>Binder_Props\<close>, \<open>Binder_Run\<close>, \<open>Binder_IPC\<close>: \<^verbatim>\<open>drivers/char/binder.c\<close>, its
    state as \<open>binder_st\<close> with transactions in a heap. A synchronous call is cut at its sleep: the
    operation queues the call, a second function is what the caller does when it wakes. Shown over
    all runs: the tables are sound, no caller waits for a dead process, identities are true,
    delivery is in order.
  \<^item> \<open>Tmpfs\<close>, \<open>Tmpfs_Dir\<close>: \<^verbatim>\<open>fs/tmpfs/inode.c\<close> with the parts of \<^verbatim>\<open>fs/inode.c\<close> and
    \<^verbatim>\<open>fs/open.c\<close> around it. The state \<open>tmpfs_st\<close> is the superblock with its node list and the
    cached inodes by number. Every directory operation owns a reference to its directories and
    drops it on each path.
  \<^item> \<open>Tmpfs_File\<close>: reading, writing and truncation in terms of the byte at each position.
  \<^item> \<open>Tmpfs_Inv\<close>: the invariant of the superblock and that every operation keeps it.
  \<^item> \<open>Tmpfs_Props\<close>, \<open>Tmpfs_Names\<close>, \<open>Tmpfs_Mount\<close>: the properties: exact accounting over runs,
    files as byte arrays (the locale \<open>byte_file\<close>, interpreted on the read and write operations),
    truncation, listings, the life of a name, the sticky bit, mount options, unmounting.

  \<^bold>\<open>Bounds.\<close> No function has fuel. Runs of the file system assume that a write ends below
  position \<open>2 ^ 31\<close>, that inode numbers are not used up (the counter is 32 bits wide and never
  reused) and that the size limit of the mount is a page below \<open>2 ^ 32\<close>; runs of the power driver
  and of Binder are unrestricted except where a theorem says so.

  \<^bold>\<open>Not modelled.\<close> The scheduler, memory management, the buffer cache, signals and the system
  call layer are taken from Linux with few changes and are inputs here. Terminal, console and serial
  drivers are device I/O. The ports of other file systems, the network code and the programs under
  the application directories are left out, as are the block drivers apart from the two hash
  routines. Interrupts and sleeping inside \<^verbatim>\<open>kmalloc\<close> are not modelled: an operation is atomic
  except for the sleep of a Binder caller.
\<close>

end
